(* ===== verification/Prelude.thy ===== *)
theory Prelude
  imports Main "HOL-Library.Word" "HOL-Library.Finite_Map"
begin

text \<open>
  Shared vocabulary of the development: the Go types that the services use (byte slices,
  32 and 64 bit integers, possibly nil string maps), the effect of a handler (messages put
  on connections), and the list lemmas for the search-and-splice loops that the queue and
  room handlers share.
\<close>

unbundle bit_operations_syntax

section \<open>Theorem collections\<close>

named_theorems go_simps \<open>equations of the Go library operations used by the services\<close>
named_theorems handler_defs \<open>definitions of message handlers\<close>

section \<open>Go types\<close>

text \<open>A Go string or byte slice is a list of bytes; a nil slice is the empty list.\<close>

type_synonym bytes = string
type_synonym u32 = "32 word"
type_synonym u64 = "64 word"

text \<open>
  A value of Go type int64 (or int, on the 64 bit targets the services run on) is an
  \<open>int\<close> in the range \<open>i64_ok\<close>; sums that may leave the range wrap around by \<open>i64_wrap\<close>.
\<close>

type_synonym i64 = int

definition i64_max :: i64 where
  "i64_max = 9223372036854775807"

definition i64_min :: i64 where
  "i64_min = - 9223372036854775808"

definition i64_ok :: "i64 \<Rightarrow> bool" where
  "i64_ok n \<longleftrightarrow> i64_min \<le> n \<and> n \<le> i64_max"

definition i64_wrap :: "int \<Rightarrow> i64" where
  "i64_wrap n = (n + 9223372036854775808) mod 18446744073709551616 - 9223372036854775808"

lemma i64_wrap_id [simp]: "i64_ok n \<Longrightarrow> i64_wrap n = n"
  by (simp add: i64_ok_def i64_wrap_def i64_max_def i64_min_def)

lemma i64_wrap_ok [simp]: "i64_ok (i64_wrap n)"
proof -
  have "0 \<le> (n + 9223372036854775808) mod 18446744073709551616"
    and "(n + 9223372036854775808) mod 18446744073709551616 < 18446744073709551616"
    by simp_all
  then show ?thesis
    by (simp add: i64_ok_def i64_wrap_def i64_max_def i64_min_def)
qed

text \<open>
  A Go \<open>map[string]string\<close>: \<open>None\<close> is the nil map, which reads like the empty one but
  compares equal to nil.
\<close>

type_synonym gomap = "(string, string) fmap option"

definition mget :: "gomap \<Rightarrow> string \<Rightarrow> string" where
  "mget m k = (case m of None \<Rightarrow> '''' | Some f \<Rightarrow> (case fmlookup f k of None \<Rightarrow> '''' | Some v \<Rightarrow> v))"

definition mhas :: "gomap \<Rightarrow> string \<Rightarrow> bool" where
  "mhas m k \<longleftrightarrow> (case m of None \<Rightarrow> False | Some f \<Rightarrow> fmlookup f k \<noteq> None)"

definition mempty :: "gomap \<Rightarrow> bool" where
  "mempty m \<longleftrightarrow> (case m of None \<Rightarrow> True | Some f \<Rightarrow> f = fmempty)"

text \<open>What a map field of a message is after an encoding and a decoding: nil when it has no entries.\<close>

definition mnorm :: "gomap \<Rightarrow> gomap" where
  "mnorm m = (if mempty m then None else m)"

lemma fmupd_not_empty [simp]: "fmupd a b m \<noteq> fmempty" "fmempty \<noteq> fmupd a b m"
  by (metis fmdom_empty fmdom_fmupd finsert_not_fempty)+

lemma mget_simps [simp]:
  "mget None k = ''''"
  "mget (Some fmempty) k = ''''"
  "mget (Some (fmupd k v f)) k = v"
  "k \<noteq> k' \<Longrightarrow> mget (Some (fmupd k v f)) k' = mget (Some f) k'"
  by (simp_all add: mget_def)

lemma mhas_simps [simp]:
  "\<not> mhas None k"
  "\<not> mhas (Some fmempty) k"
  "mhas (Some (fmupd k v f)) k' \<longleftrightarrow> k = k' \<or> mhas (Some f) k'"
  by (simp_all add: mhas_def)

lemma mempty_simps [simp]:
  "mempty None"
  "mempty (Some f) \<longleftrightarrow> f = fmempty"
  by (simp_all add: mempty_def)

lemma mget_norm [simp]: "mget (mnorm m) k = mget m k"
  by (auto simp: mnorm_def mget_def mempty_def split: option.splits)

lemma mhas_norm [simp]: "mhas (mnorm m) k = mhas m k"
  by (auto simp: mnorm_def mhas_def mempty_def split: option.splits)

lemma mempty_norm [simp]: "mempty (mnorm m) = mempty m"
  by (simp add: mnorm_def)

lemma mnorm_idem [simp]: "mnorm (mnorm m) = mnorm m"
  by (simp add: mnorm_def)

lemma mnorm_None_iff [simp]: "mnorm m = None \<longleftrightarrow> mempty m"
  by (cases m) (auto simp: mnorm_def)

lemma mnorm_simps [simp]:
  "mnorm None = None"
  "mnorm (Some fmempty) = None"
  "mnorm (Some (fmupd k v f)) = Some (fmupd k v f)"
  by (simp_all add: mnorm_def)

lemma mget_nonempty_has: "mget m k \<noteq> '''' \<Longrightarrow> mhas m k"
  by (auto simp: mget_def mhas_def split: option.splits)

section \<open>Effects\<close>

text \<open>
  A connection object is identified by a number. What a handler puts on connections is a
  list of \<open>sent\<close> values in the order of the calls of \<open>SendMsg\<close>.
\<close>

type_synonym conn = nat

datatype sent = Sent (sent_to: conn) (sent_id: u32) (sent_body: bytes)

section \<open>First index of a list with a property, and splicing it out\<close>

text \<open>
  The loop \<open>for i, p := range xs { if P(p) { ... return } }\<close> and the splice
  \<open>append(xs[:i], xs[i+1:]...)\<close>.
\<close>

fun find_idx :: "('a \<Rightarrow> bool) \<Rightarrow> 'a list \<Rightarrow> nat option" where
  "find_idx P [] = None"
| "find_idx P (x # xs) = (if P x then Some 0 else map_option Suc (find_idx P xs))"

definition remove_at :: "nat \<Rightarrow> 'a list \<Rightarrow> 'a list" where
  "remove_at i xs = take i xs @ drop (Suc i) xs"

lemma remove_at_simps [simp]:
  "remove_at i [] = []"
  "remove_at 0 (x # xs) = xs"
  "remove_at (Suc i) (x # xs) = x # remove_at i xs"
  by (simp_all add: remove_at_def)

lemma find_idx_None [simp]: "find_idx P xs = None \<longleftrightarrow> (\<forall>x\<in>set xs. \<not> P x)"
  by (induction xs) auto

lemma find_idx_Some: "find_idx P xs = Some i \<Longrightarrow> i < length xs \<and> P (xs ! i)"
  by (induction xs arbitrary: i) (auto split: if_splits)

lemma find_idx_first: "find_idx P xs = Some i \<Longrightarrow> j < i \<Longrightarrow> \<not> P (xs ! j)"
proof (induction xs arbitrary: i j)
  case Nil
  then show ?case by simp
next
  case (Cons x xs)
  then show ?case
    by (cases j) (auto split: if_splits)
qed

lemma find_idx_ex: "x \<in> set xs \<Longrightarrow> P x \<Longrightarrow> \<exists>i. find_idx P xs = Some i"
  by (induction xs) auto

lemma length_remove_at [simp]: "i < length xs \<Longrightarrow> length (remove_at i xs) = length xs - 1"
  by (simp add: remove_at_def)

lemma set_remove_at_subset: "set (remove_at i xs) \<subseteq> set xs"
  by (auto simp: remove_at_def dest: in_set_takeD in_set_dropD)

lemma map_remove_at: "map f (remove_at i xs) = remove_at i (map f xs)"
  by (simp add: remove_at_def take_map drop_map)

lemma distinct_remove_at: "distinct xs \<Longrightarrow> distinct (remove_at i xs)"
  by (simp add: remove_at_def) (meson Suc_n_not_le_n nat_le_linear set_take_disj_set_drop_if_distinct)

lemma set_remove_at_distinct:
  "distinct xs \<Longrightarrow> i < length xs \<Longrightarrow> set (remove_at i xs) = set xs - {xs ! i}"
proof (induction xs arbitrary: i)
  case Nil
  then show ?case by simp
next
  case (Cons x xs)
  then show ?case by (cases i) auto
qed

text \<open>Splicing out the first match leaves the elements without a match where they were.\<close>

lemma remove_at_find_idx_filter:
  "find_idx P xs = Some i \<Longrightarrow> filter (\<lambda>x. \<not> P x) (remove_at i xs) = filter (\<lambda>x. \<not> P x) xs"
  by (induction xs arbitrary: i) (auto split: if_splits)

lemma remove_at_distinct_key:
  assumes "find_idx (\<lambda>x. f x = k) xs = Some i" and "distinct (map f xs)"
  shows "remove_at i xs = filter (\<lambda>x. f x \<noteq> k) xs"
  using assms
proof (induction xs arbitrary: i)
  case Nil
  then show ?case by simp
next
  case (Cons x xs)
  show ?case
  proof (cases "f x = k")
    case True
    with Cons.prems have "i = 0" and "k \<notin> f ` set xs" by simp_all
    then have "filter (\<lambda>x. f x \<noteq> k) xs = xs" by (auto simp: filter_id_conv)
    with True \<open>i = 0\<close> show ?thesis by simp
  next
    case False
    with Cons.prems obtain j where "i = Suc j" and "find_idx (\<lambda>x. f x = k) xs = Some j"
      by auto
    with Cons.IH Cons.prems(2) False show ?thesis by simp
  qed
qed

end
