(* ===== verification/Strconv.thy ===== *)
theory Strconv
  imports Prelude
begin

text \<open>
  The decimal conversions of Go's package strconv that the services use: FormatInt and
  FormatUint print, ParseUint, ParseInt and Atoi read. The parsers follow the library's
  loop, so that a syntax error met before an overflow wins and an overflow met before a
  bad character wins; the services ignore the error and keep the returned value, which is
  0 for a syntax error and the nearest bound for an overflow. The last part shows that
  parsing a printed number gives the number back.
\<close>

datatype num_error = ErrSyntax | ErrRange

section \<open>Printing\<close>

definition digit_char :: "nat \<Rightarrow> char" where
  "digit_char d = char_of (48 + d)"

fun format_nat :: "nat \<Rightarrow> string" where
  "format_nat n = (if n < 10 then [digit_char n] else format_nat (n div 10) @ [digit_char (n mod 10)])"

declare format_nat.simps [simp del]

definition FormatUint :: "u64 \<Rightarrow> string" where
  "FormatUint n = format_nat (unat n)"

definition FormatInt :: "i64 \<Rightarrow> string" where
  "FormatInt n = (if n < 0 then CHR ''-'' # format_nat (nat (- n)) else format_nat (nat n))"

section \<open>Parsing\<close>

definition is_digit :: "char \<Rightarrow> bool" where
  "is_digit c \<longleftrightarrow> 48 \<le> (of_char c :: nat) \<and> (of_char c :: nat) \<le> 57"

definition digit_val :: "char \<Rightarrow> nat" where
  "digit_val c = of_char c - 48"

definition maxUint64 :: nat where
  "maxUint64 = 18446744073709551615"

fun parse_loop :: "nat \<Rightarrow> string \<Rightarrow> nat \<times> num_error option" where
  "parse_loop n [] = (n, None)"
| "parse_loop n (c # cs) =
     (if \<not> is_digit c then (0, Some ErrSyntax)
      else if maxUint64 div 10 + 1 \<le> n then (maxUint64, Some ErrRange)
      else let n1 = n * 10 + digit_val c in
        if maxUint64 < n1 then (maxUint64, Some ErrRange) else parse_loop n1 cs)"

definition ParseUint :: "string \<Rightarrow> nat \<times> num_error option" where
  "ParseUint s = (if s = '''' then (0, Some ErrSyntax) else parse_loop 0 s)"

definition parse_sign :: "string \<Rightarrow> bool \<times> string" where
  "parse_sign s = (case s of [] \<Rightarrow> (False, [])
     | c # cs \<Rightarrow> if c = CHR ''+'' then (False, cs) else if c = CHR ''-'' then (True, cs) else (False, s))"

definition ParseInt :: "string \<Rightarrow> i64 \<times> num_error option" where
  "ParseInt s =
     (if s = '''' then (0, Some ErrSyntax)
      else let (neg, t) = parse_sign s; (un, err) = ParseUint t in
        if err = Some ErrSyntax then (0, Some ErrSyntax)
        else if \<not> neg \<and> 9223372036854775808 \<le> un then (i64_max, Some ErrRange)
        else if neg \<and> 9223372036854775808 < un then (i64_min, Some ErrRange)
        else (if neg then - int un else int un, None))"

text \<open>
  Atoi has a fast path for short inputs with the same result; a digit run that overflows
  is reported with the bound, as by ParseInt.
\<close>

definition Atoi :: "string \<Rightarrow> i64 \<times> num_error option" where
  "Atoi s = ParseInt s"

text \<open>The values the handlers use: the error is dropped.\<close>

definition parse_int :: "string \<Rightarrow> i64" where
  "parse_int s = fst (ParseInt s)"

definition parse_uint :: "string \<Rightarrow> u64" where
  "parse_uint s = of_nat (fst (ParseUint s))"

section \<open>Splitting\<close>

text \<open>strings.Split with a separator of one character.\<close>

fun split_on :: "char \<Rightarrow> string \<Rightarrow> string list" where
  "split_on c [] = [[]]"
| "split_on c (x # xs) = (if x = c then [] # split_on c xs
     else (case split_on c xs of [] \<Rightarrow> [[x]] | l # ls \<Rightarrow> (x # l) # ls))"

section \<open>Round trips\<close>

lemma of_char_digit_char [simp]: "d < 10 \<Longrightarrow> (of_char (digit_char d) :: nat) = 48 + d"
  by (simp add: digit_char_def)

lemma is_digit_digit_char [simp]: "d < 10 \<Longrightarrow> is_digit (digit_char d)"
  by (simp add: is_digit_def)

lemma digit_val_digit_char [simp]: "d < 10 \<Longrightarrow> digit_val (digit_char d) = d"
  by (simp add: digit_val_def)

lemma format_nat_nonempty [simp]: "format_nat n \<noteq> []"
  by (subst format_nat.simps) simp

lemma format_nat_digits: "c \<in> set (format_nat n) \<Longrightarrow> is_digit c"
proof (induction n rule: format_nat.induct)
  case (1 n)
  then show ?case
    by (auto simp: format_nat.simps [of n] split: if_splits)
qed

text \<open>A run of digits read from an accumulator: the decimal value, as long as it fits.\<close>

lemma parse_loop_format:
  "n * 10 ^ length (format_nat m) + m \<le> maxUint64 \<Longrightarrow>
   parse_loop n (format_nat m @ cs) = parse_loop (n * 10 ^ length (format_nat m) + m) cs"
proof (induction m arbitrary: n cs rule: format_nat.induct)
  case (1 m)
  show ?case
  proof (cases "m < 10")
    case True
    with "1.prems" have "n * 10 + m \<le> maxUint64" by (simp add: format_nat.simps [of m])
    then have "\<not> maxUint64 div 10 + 1 \<le> n" by (simp add: maxUint64_def)
    with True \<open>n * 10 + m \<le> maxUint64\<close> show ?thesis by (simp add: format_nat.simps [of m])
  next
    case False
    let ?k = "length (format_nat (m div 10))" and ?q = "m div 10" and ?r = "m mod 10"
    let ?n = "n * 10 ^ ?k + ?q"
    have len: "length (format_nat m) = Suc ?k" using False by (simp add: format_nat.simps [of m])
    have val: "?n * 10 + ?r = n * 10 ^ length (format_nat m) + m"
      unfolding len by (simp add: algebra_simps)
    have le: "?n * 10 + ?r \<le> maxUint64" unfolding val by (rule "1.prems")
    then have "?n \<le> maxUint64" and small: "\<not> maxUint64 div 10 + 1 \<le> ?n"
      by (simp_all add: maxUint64_def)
    have "parse_loop n (format_nat m @ cs) = parse_loop n (format_nat ?q @ (digit_char ?r # cs))"
      using False by (simp add: format_nat.simps [of m])
    also have "\<dots> = parse_loop ?n (digit_char ?r # cs)"
      using "1.IH" [OF False, of n "digit_char ?r # cs"] \<open>?n \<le> maxUint64\<close> by simp
    also have "\<dots> = parse_loop (?n * 10 + ?r) cs"
      using small le by simp
    finally show ?thesis by (simp only: val)
  qed
qed

lemma ParseUint_format_nat: "m \<le> maxUint64 \<Longrightarrow> ParseUint (format_nat m) = (m, None)"
  using parse_loop_format [of 0 m "[]"] by (simp add: ParseUint_def)

lemma parse_uint_FormatUint [simp]: "parse_uint (FormatUint n) = n"
proof -
  have "unat n \<le> maxUint64"
    using unsigned_less [of n, where ?'a = nat] by (simp add: maxUint64_def)
  then show ?thesis
    by (simp add: parse_uint_def FormatUint_def ParseUint_format_nat)
qed

lemma parse_sign_format_nat [simp]: "parse_sign (format_nat m) = (False, format_nat m)"
proof -
  obtain c cs where f: "format_nat m = c # cs" by (cases "format_nat m") auto
  then have "is_digit c" using format_nat_digits [of c m] by simp
  then have "c \<noteq> CHR ''+''" and "c \<noteq> CHR ''-''" by (auto simp: is_digit_def)
  with f show ?thesis by (simp add: parse_sign_def)
qed

lemma ParseInt_FormatInt: "i64_ok n \<Longrightarrow> ParseInt (FormatInt n) = (n, None)"
proof (cases "n < 0")
  case True
  assume ok: "i64_ok n"
  then have le: "nat (- n) \<le> 9223372036854775808" by (auto simp: i64_ok_def i64_min_def)
  then have "ParseUint (format_nat (nat (- n))) = (nat (- n), None)"
    by (intro ParseUint_format_nat) (simp add: maxUint64_def)
  with True le show ?thesis by (simp add: FormatInt_def ParseInt_def parse_sign_def)
next
  case False
  assume ok: "i64_ok n"
  with False have le: "nat n < 9223372036854775808" by (auto simp: i64_ok_def i64_max_def)
  then have "ParseUint (format_nat (nat n)) = (nat n, None)"
    by (intro ParseUint_format_nat) (simp add: maxUint64_def)
  with False le show ?thesis by (simp add: FormatInt_def ParseInt_def)
qed

lemma parse_int_FormatInt [simp]: "i64_ok n \<Longrightarrow> parse_int (FormatInt n) = n"
  by (simp add: parse_int_def ParseInt_FormatInt)

lemma FormatInt_inject: "i64_ok m \<Longrightarrow> i64_ok n \<Longrightarrow> FormatInt m = FormatInt n \<longleftrightarrow> m = n"
  by (metis parse_int_FormatInt)

lemma FormatInt_nonempty [simp]: "FormatInt n \<noteq> []" "[] \<noteq> FormatInt n"
  by (simp_all add: FormatInt_def)
     (metis format_nat_nonempty)

lemma parse_int_empty [simp]: "parse_int [] = 0"
  by (simp add: parse_int_def ParseInt_def)

text \<open>The value that ParseInt returns is in range whatever the input.\<close>

lemma parse_int_ok: "i64_ok (parse_int s)"
  by (auto simp: parse_int_def ParseInt_def Let_def i64_ok_def i64_max_def i64_min_def
      split: prod.splits)

end
