(* ===== verification/Protocol.thy ===== *)
theory Protocol
  imports Strconv "HOL-Library.List_Lexorder" "HOL-Library.Char_ord"
begin

text \<open>
  The wire protocol of the services (protocol/msgid.go, protocol/pb, pkg/connkey,
  pkg/conf/svc_define.go): message numbers, the names of connection properties and tags,
  the messages as records, and their encoding.

  The protobuf library is not part of the repository. It is the parameter \<open>wire\<close> of every
  definition that marshals or unmarshals: \<open>enc\<close> and \<open>dec\<close> write and read a sequence of
  numbered fields, \<open>enc_packed\<close> and \<open>dec_packed\<close> a packed list of integers, \<open>str_ok\<close> is the
  check of string fields, \<open>dec_prefix\<close> what was read before an error. Which fields a
  message has, with which numbers and types, is in the struct tags of the generated files
  and is spelled out here: zero values are left out, the last occurrence of a scalar field
  wins, fields of an unknown number or of another type are skipped, a map is a repeated
  field of key and value pairs. The locale \<open>wire_codec\<close> states what the services rely on,
  that reading gives back what was written, and derives it for each message.
\<close>

section \<open>Message numbers\<close>

datatype MsgID =
    MSG_ID_UNSPECIFIED | PING | PONG | CHAT_REQ | CHAT_RESP | SERVICE_IDENTITY
  | MATCH_ENTER_REQ | MATCH_ENTER_RESP | MATCH_RESULT_PUSH
  | MATCH_ALLOCATE_REQ | MATCH_ALLOCATE_RESP | MATCH_QUERY_REQ | MATCH_QUERY_RESP
  | ROOM_JOIN_REQ | ROOM_JOIN_RESP | ROOM_LEAVE_REQ | ROOM_LEAVE_RESP
  | ROOM_DESTROYED_PUSH | ROOM_EVENT_PUSH
  | SESSION_SAVE | SESSION_GET | SESSION_DISCONNECT | SESSION_RECONNECT
  | SESSION_FORCE_LEAVE | SESSION_FORCE_LEAVE_QUEUE | SESSION_RECONNECTED
  | SESSION_INVALIDATE | SERVICE_HELLO

primrec msg_number :: "MsgID \<Rightarrow> u32" where
  "msg_number MSG_ID_UNSPECIFIED = 0"
| "msg_number PING = 1"
| "msg_number PONG = 2"
| "msg_number CHAT_REQ = 5"
| "msg_number CHAT_RESP = 6"
| "msg_number SERVICE_IDENTITY = 1001"
| "msg_number MATCH_ENTER_REQ = 11"
| "msg_number MATCH_ENTER_RESP = 12"
| "msg_number MATCH_RESULT_PUSH = 13"
| "msg_number MATCH_ALLOCATE_REQ = 18"
| "msg_number MATCH_ALLOCATE_RESP = 19"
| "msg_number MATCH_QUERY_REQ = 20"
| "msg_number MATCH_QUERY_RESP = 21"
| "msg_number ROOM_JOIN_REQ = 14"
| "msg_number ROOM_JOIN_RESP = 15"
| "msg_number ROOM_LEAVE_REQ = 16"
| "msg_number ROOM_LEAVE_RESP = 17"
| "msg_number ROOM_DESTROYED_PUSH = 22"
| "msg_number ROOM_EVENT_PUSH = 23"
| "msg_number SESSION_SAVE = 1002"
| "msg_number SESSION_GET = 1003"
| "msg_number SESSION_DISCONNECT = 1004"
| "msg_number SESSION_RECONNECT = 1005"
| "msg_number SESSION_FORCE_LEAVE = 1006"
| "msg_number SESSION_FORCE_LEAVE_QUEUE = 1007"
| "msg_number SESSION_RECONNECTED = 1008"
| "msg_number SESSION_INVALIDATE = 1010"
| "msg_number SERVICE_HELLO = 1009"

text \<open>The map \<open>MsgID_name\<close> of the generated file, from numbers to names.\<close>

definition MsgID_name :: "u32 \<Rightarrow> string option" where
  "MsgID_name = map_of
    [(0, ''MSG_ID_UNSPECIFIED''), (1, ''PING''), (2, ''PONG''), (5, ''CHAT_REQ''),
     (6, ''CHAT_RESP''), (1001, ''SERVICE_IDENTITY''), (11, ''MATCH_ENTER_REQ''),
     (12, ''MATCH_ENTER_RESP''), (13, ''MATCH_RESULT_PUSH''), (18, ''MATCH_ALLOCATE_REQ''),
     (19, ''MATCH_ALLOCATE_RESP''), (20, ''MATCH_QUERY_REQ''), (21, ''MATCH_QUERY_RESP''),
     (14, ''ROOM_JOIN_REQ''), (15, ''ROOM_JOIN_RESP''), (16, ''ROOM_LEAVE_REQ''),
     (17, ''ROOM_LEAVE_RESP''), (22, ''ROOM_DESTROYED_PUSH''), (23, ''ROOM_EVENT_PUSH''),
     (1002, ''SESSION_SAVE''), (1003, ''SESSION_GET''), (1004, ''SESSION_DISCONNECT''),
     (1005, ''SESSION_RECONNECT''), (1006, ''SESSION_FORCE_LEAVE''),
     (1007, ''SESSION_FORCE_LEAVE_QUEUE''), (1008, ''SESSION_RECONNECTED''),
     (1010, ''SESSION_INVALIDATE''), (1009, ''SERVICE_HELLO'')]"

text \<open>The map \<open>MsgID_value\<close> of the generated file, from names to numbers.\<close>

definition MsgID_value :: "string \<Rightarrow> u32 option" where
  "MsgID_value = map_of
    [(''MSG_ID_UNSPECIFIED'', 0), (''PING'', 1), (''PONG'', 2), (''CHAT_REQ'', 5),
     (''CHAT_RESP'', 6), (''SERVICE_IDENTITY'', 1001), (''MATCH_ENTER_REQ'', 11),
     (''MATCH_ENTER_RESP'', 12), (''MATCH_RESULT_PUSH'', 13), (''MATCH_ALLOCATE_REQ'', 18),
     (''MATCH_ALLOCATE_RESP'', 19), (''MATCH_QUERY_REQ'', 20), (''MATCH_QUERY_RESP'', 21),
     (''ROOM_JOIN_REQ'', 14), (''ROOM_JOIN_RESP'', 15), (''ROOM_LEAVE_REQ'', 16),
     (''ROOM_LEAVE_RESP'', 17), (''ROOM_DESTROYED_PUSH'', 22), (''ROOM_EVENT_PUSH'', 23),
     (''SESSION_SAVE'', 1002), (''SESSION_GET'', 1003), (''SESSION_DISCONNECT'', 1004),
     (''SESSION_RECONNECT'', 1005), (''SESSION_FORCE_LEAVE'', 1006),
     (''SESSION_FORCE_LEAVE_QUEUE'', 1007), (''SESSION_RECONNECTED'', 1008),
     (''SESSION_INVALIDATE'', 1010), (''SERVICE_HELLO'', 1009)]"

section \<open>Well-known keys\<close>

definition PropPlayerID :: string where "PropPlayerID = ''playerId''"
definition PropServerID :: string where "PropServerID = ''server_id''"
definition PropConnType :: string where "PropConnType = ''conn_type''"

definition TagPlayerID :: string where "TagPlayerID = ''player_id''"
definition TagTargetPlayerID :: string where "TagTargetPlayerID = ''target_player_id''"
definition TagRoomSvrID :: string where "TagRoomSvrID = ''room_server_id''"
definition TagMatchID :: string where "TagMatchID = ''match_id''"
definition TagMatchType :: string where "TagMatchType = ''match_type''"
definition TagSenderID :: string where "TagSenderID = ''sender_id''"

definition SyncTagKeys :: "string list" where
  "SyncTagKeys = [TagRoomSvrID, TagMatchID, TagMatchType]"

definition SvcGateway :: string where "SvcGateway = ''gateway''"
definition SvcChatSvr :: string where "SvcChatSvr = ''chatsvr''"
definition SvcMatchSvr :: string where "SvcMatchSvr = ''matchsvr''"
definition SvcRoomSvr :: string where "SvcRoomSvr = ''roomsvr''"
definition SvcSessionSvr :: string where "SvcSessionSvr = ''sessionsvr''"

lemmas key_defs = PropPlayerID_def PropServerID_def PropConnType_def TagPlayerID_def
  TagTargetPlayerID_def TagRoomSvrID_def TagMatchID_def TagMatchType_def TagSenderID_def

lemmas svc_defs = SvcGateway_def SvcChatSvr_def SvcMatchSvr_def SvcRoomSvr_def SvcSessionSvr_def

section \<open>Messages\<close>

record ChatReq =
  chatreq_Content :: string
  chatreq_TargetPlayerId :: i64

record ChatResp =
  chatresp_SenderPlayerId :: i64
  chatresp_Content :: string
  chatresp_Timestamp :: i64
  chatresp_TargetPlayerId :: i64

record Envelope =
  env_ConnId :: u64
  env_Data :: bytes
  env_ConnTags :: gomap

record ServiceHello =
  hello_Service :: string
  hello_MsgIds :: "u32 list"
  hello_SendMsgIds :: "u32 list"

record MatchEnterReq =
  enterreq_MatchType :: string
  enterreq_Elo :: i64

record MatchEnterResp =
  enterresp_Status :: string
  enterresp_QueueSize :: i64

record MatchResultPush =
  result_MatchId :: string
  result_ServerId :: string
  result_Players :: "i64 list"
  result_MatchType :: string

record MatchAllocateReq =
  allocreq_MatchId :: string

record MatchAllocateResp =
  allocresp_MatchId :: string
  allocresp_ServerId :: string
  allocresp_Error :: string

record MatchQueryReq =
  queryreq_MatchId :: string

record MatchQueryResp =
  queryresp_MatchId :: string
  queryresp_ServerId :: string
  queryresp_Found :: bool

record RoomJoinReq =
  joinreq_MatchId :: string

record RoomJoinResp =
  joinresp_Success :: bool
  joinresp_MatchId :: string
  joinresp_ServerId :: string
  joinresp_Error :: string

record RoomLeaveReq =
  leavereq_MatchId :: string

record RoomLeaveResp =
  leaveresp_Success :: bool
  leaveresp_Error :: string

record RoomEventPush =
  event_MatchId :: string
  event_PlayerId :: string
  event_Event :: string
  event_PlayerCount :: i64

record RoomDestroyedPush =
  destroyed_MatchId :: string

record SessionData =
  sd_PlayerId :: i64
  sd_GatewayId :: string
  sd_ConnTags :: gomap
  sd_DisconnectedAt :: i64

end
