(* ===== verification/Conn.thy ===== *)
theory Conn
  imports Strconv Protocol
begin

text \<open>
  The part of the network library that the services see: connections carry properties,
  set with \<open>SetProperty\<close> and read with \<open>GetProperty\<close>, which returns an error when the
  property is missing. A property is a string or an integer (the player of a client
  connection). A router object is named by its Go type.
\<close>

datatype property = PStr string | PInt i64

type_synonym props = "(conn, (string, property) fmap) fmap"

type_synonym router = string

definition GetProperty :: "props \<Rightarrow> conn \<Rightarrow> string \<Rightarrow> property option" where
  "GetProperty ps c k = (case fmlookup ps c of None \<Rightarrow> None | Some m \<Rightarrow> fmlookup m k)"

definition SetProperty :: "conn \<Rightarrow> string \<Rightarrow> property \<Rightarrow> props \<Rightarrow> props" where
  "SetProperty c k v ps =
     fmupd c (fmupd k v (case fmlookup ps c of None \<Rightarrow> fmempty | Some m \<Rightarrow> m)) ps"

text \<open>fmt.Sprint of a property value.\<close>

definition Sprint :: "property \<Rightarrow> string" where
  "Sprint p = (case p of PStr s \<Rightarrow> s | PInt n \<Rightarrow> FormatInt n)"

lemma GetProperty_Set [simp]:
  "GetProperty (SetProperty c k v ps) c' k' = (if c = c' \<and> k = k' then Some v else GetProperty ps c' k')"
  by (simp add: GetProperty_def SetProperty_def split: option.splits)

lemma GetProperty_empty [simp]: "GetProperty fmempty c k = None"
  by (simp add: GetProperty_def)

lemma Sprint_simps [simp]: "Sprint (PStr s) = s" "Sprint (PInt n) = FormatInt n"
  by (simp_all add: Sprint_def)

end
