(* ===== verification/Conf.thy ===== *)
theory Conf
  imports Conn
begin

text \<open>
  pkg/conf: the configuration types, server lookup, address parsing and (re)loading. A
  panic is the left value of a sum. net.SplitHostPort is modelled from the standard
  library; the YAML decoder is the parameter \<open>yaml\<close>, which updates the configuration it
  is given and says whether it succeeded.
\<close>

section \<open>Types\<close>

record BackendRoute =
  br_Forward :: "u32 list"
  br_RouteKey :: string
  br_RouteType :: string

record GatewayConfig =
  gc_JWTSecret :: string
  gc_Routes :: "(string, BackendRoute) fmap"

record GRPCSvcConfig =
  grpc_Port :: i64

record ServerNode =
  sn_ID :: string
  sn_TCPListen :: string
  sn_WSListen :: string
  sn_Listen :: string
  sn_PublicAddr :: string

type_synonym ServicesConfig = "(string, ServerNode list) fmap"

record Config =
  cf_Services :: ServicesConfig
  cf_Gateway :: GatewayConfig
  cf_GRPC :: "(string, GRPCSvcConfig) fmap"

definition empty_Config :: Config where
  "empty_Config = \<lparr>cf_Services = fmempty,
     cf_Gateway = \<lparr>gc_JWTSecret = '''', gc_Routes = fmempty\<rparr>, cf_GRPC = fmempty\<rparr>"

text \<open>Reading a service name that is not configured gives the nil slice.\<close>

definition services :: "Config \<Rightarrow> string \<Rightarrow> ServerNode list" where
  "services cfg svc = (case fmlookup (cf_Services cfg) svc of None \<Rightarrow> [] | Some ns \<Rightarrow> ns)"

datatype conf_panic = InvalidAddress | InvalidPort | NoneConfigured | IDNotFound

section \<open>Addresses\<close>

definition index_of :: "char \<Rightarrow> string \<Rightarrow> nat option" where
  "index_of c s = find_idx (\<lambda>x. x = c) s"

definition last_index_of :: "char \<Rightarrow> string \<Rightarrow> nat option" where
  "last_index_of c s = map_option (\<lambda>i. length s - 1 - i) (index_of c (rev s))"

datatype addr_error = MissingPort | TooManyColons | MissingBracket | UnexpectedOpen | UnexpectedClose

definition SplitHostPort :: "string \<Rightarrow> addr_error + string \<times> string" where
  "SplitHostPort hp =
     (let tail = (\<lambda>j k i host.
            if CHR ''['' \<in> set (drop j hp) then Inl UnexpectedOpen
            else if CHR '']'' \<in> set (drop k hp) then Inl UnexpectedClose
            else Inr (host, drop (i + 1) hp))
      in case last_index_of CHR '':'' hp of
        None \<Rightarrow> Inl MissingPort
      | Some i \<Rightarrow>
          if hd hp = CHR ''['' then
            (case index_of CHR '']'' hp of
               None \<Rightarrow> Inl MissingBracket
             | Some e \<Rightarrow>
                 if e + 1 = length hp then Inl MissingPort
                 else if e + 1 = i then tail 1 (e + 1) i (take (e - 1) (drop 1 hp))
                 else if hp ! (e + 1) = CHR '':'' then Inl TooManyColons
                 else Inl MissingPort)
          else if CHR '':'' \<in> set (take i hp) then Inl TooManyColons
          else tail 0 0 i (take i hp))"

definition ParseHostPort :: "string \<Rightarrow> conf_panic + string \<times> i64" where
  "ParseHostPort addr =
     (case SplitHostPort addr of
        Inl _ \<Rightarrow> Inl InvalidAddress
      | Inr (host, portStr) \<Rightarrow>
          (case Atoi portStr of
             (port, None) \<Rightarrow> Inr (host, port)
           | (_, Some _) \<Rightarrow> Inl InvalidPort))"

section \<open>Lookup\<close>

definition LookupServer :: "ServerNode list \<Rightarrow> string \<Rightarrow> conf_panic + ServerNode" where
  "LookupServer servers sid =
     (if servers = [] then Inl NoneConfigured
      else if sid \<noteq> '''' then
        (case find_idx (\<lambda>s. sn_ID s = sid) servers of
           Some i \<Rightarrow> Inr (servers ! i)
         | None \<Rightarrow> Inl IDNotFound)
      else Inr (hd servers))"

section \<open>Loading and watching\<close>

type_synonym yaml = "bytes \<Rightarrow> Config \<Rightarrow> Config \<times> bool"

datatype load_error = ReadConfig | ParseConfig

text \<open>
  The new value of the global configuration, which is cleared before the file is read, and
  the error. The file is \<open>None\<close> when it cannot be read.
\<close>

definition Load :: "yaml \<Rightarrow> bytes option \<Rightarrow> Config \<times> load_error option" where
  "Load yml file =
     (case file of
        None \<Rightarrow> (empty_Config, Some ReadConfig)
      | Some data \<Rightarrow>
          (case yml data empty_Config of
             (cfg, True) \<Rightarrow> (cfg, None)
           | (cfg, False) \<Rightarrow> (cfg, Some ParseConfig)))"

text \<open>
  One file event of the watcher goroutine: whether it writes or creates the file, and the
  content found. The third result is the configuration handed to \<open>onReload\<close>, if it is
  called.
\<close>

definition watch_event :: "yaml \<Rightarrow> bool \<Rightarrow> bytes option \<Rightarrow> Config \<Rightarrow> Config \<times> Config option" where
  "watch_event yml write_or_create file global =
     (if \<not> write_or_create then (global, None)
      else case Load yml file of
        (cfg, Some _) \<Rightarrow> (cfg, None)
      | (cfg, None) \<Rightarrow> (cfg, Some cfg))"

text \<open>What the watcher goroutine selects: a file event, an error, or the end of a channel.\<close>

datatype watch_input = FileEvent bool "bytes option" | WatcherError | ChannelClosed

text \<open>The global configuration at the end and the configurations handed to \<open>onReload\<close>, in order.\<close>

fun watch_loop :: "yaml \<Rightarrow> watch_input list \<Rightarrow> Config \<Rightarrow> Config \<times> Config list" where
  "watch_loop yml [] global = (global, [])"
| "watch_loop yml (ChannelClosed # ins) global = (global, [])"
| "watch_loop yml (WatcherError # ins) global = watch_loop yml ins global"
| "watch_loop yml (FileEvent wr file # ins) global =
     (case watch_event yml wr file global of
        (global1, handed) \<Rightarrow>
          (case watch_loop yml ins global1 of
             (global2, handed2) \<Rightarrow> (global2, (case handed of None \<Rightarrow> [] | Some cfg \<Rightarrow> [cfg]) @ handed2)))"

datatype watch_error = NewWatcher | AddPath

definition Watch :: "yaml \<Rightarrow> bool \<Rightarrow> bool \<Rightarrow> watch_input list \<Rightarrow> Config \<Rightarrow> watch_error + Config \<times> Config list" where
  "Watch yml created added ins global =
     (if \<not> created then Inl NewWatcher else if \<not> added then Inl AddPath else Inr (watch_loop yml ins global))"

section \<open>Lemmas\<close>

lemma index_of_append [simp]:
  "c \<notin> set s \<Longrightarrow> index_of c (s @ c # r) = Some (length s)"
  by (induction s) (auto simp: index_of_def)

lemma last_index_of_append:
  "c \<notin> set r \<Longrightarrow> last_index_of c (s @ c # r) = Some (length s)"
  by (simp add: last_index_of_def)

lemma FormatInt_chars: "c \<in> set (FormatInt n) \<Longrightarrow> is_digit c \<or> c = CHR ''-''"
  by (auto simp: FormatInt_def split: if_splits dest: format_nat_digits)

lemma SplitHostPort_join:
  assumes "set host \<inter> {CHR '':'', CHR ''['', CHR '']''} = {}"
    and "set port \<inter> {CHR '':'', CHR ''['', CHR '']''} = {}"
  shows "SplitHostPort (host @ CHR '':'' # port) = Inr (host, port)"
proof -
  have "last_index_of CHR '':'' (host @ CHR '':'' # port) = Some (length host)"
    using assms by (intro last_index_of_append) auto
  moreover have "hd (host @ CHR '':'' # port) \<noteq> CHR ''[''"
    using assms by (cases host) auto
  ultimately show ?thesis
    using assms by (auto simp: SplitHostPort_def Let_def)
qed

lemmas addr_defs = ParseHostPort_def SplitHostPort_def last_index_of_def index_of_def Atoi_def
  ParseInt_def ParseUint_def parse_sign_def is_digit_def digit_val_def maxUint64_def

lemma Load_fail: "Load yml file = (cfg, Some ReadConfig) \<Longrightarrow> cfg = empty_Config"
  by (auto simp: Load_def split: option.splits prod.splits bool.splits)

lemma watch_loop_append:
  assumes "ChannelClosed \<notin> set ins"
  shows "watch_loop yml (ins @ ins') global =
    (case watch_loop yml ins global of (g1, hs1) \<Rightarrow> case watch_loop yml ins' g1 of (g2, hs2) \<Rightarrow> (g2, hs1 @ hs2))"
  using assms by (induction yml ins global rule: watch_loop.induct) (auto split: prod.splits)

text \<open>
  A change of the file that cannot be read, whatever happened before, leaves the process
  with an empty configuration: the callback is not called, and every later lookup of a
  server panics.
\<close>

theorem failed_reload_empties:
  assumes "ChannelClosed \<notin> set ins" "Watch yml True True (ins @ [FileEvent True None]) global = Inr (cfg, handed)"
  shows "LookupServer (services cfg svc) sid = Inl NoneConfigured \<and> handed = snd (watch_loop yml ins global)"
proof -
  have "cfg = empty_Config" "handed = snd (watch_loop yml ins global)"
    using assms(2) by (auto simp: Watch_def watch_loop_append [OF assms(1)] watch_event_def Load_def split: prod.splits)
  then show ?thesis
    by (simp add: LookupServer_def services_def empty_Config_def)
qed

end
