(* ===== verification/Codec.thy ===== *)
theory Codec
  imports Protocol
begin

text \<open>
  The encoding of the messages over the fields of the protobuf library, which is the
  parameter \<open>wire\<close>; the struct tags of the generated files give the numbers and the types
  of the fields. The locale \<open>wire_codec\<close> holds the law of the library and the round trip
  of each message the services read.
\<close>

section \<open>Fields\<close>

datatype wval = Varint u64 | Fixed64 u64 | Len bytes | Fixed32 u32

type_synonym field = "nat \<times> wval"

record wire =
  enc :: "field list \<Rightarrow> bytes"
  dec :: "bytes \<Rightarrow> field list option"
  dec_prefix :: "bytes \<Rightarrow> field list"
  enc_packed :: "u64 list \<Rightarrow> bytes"
  dec_packed :: "bytes \<Rightarrow> u64 list option"
  str_ok :: "bytes \<Rightarrow> bool"

text \<open>Writing: proto3 leaves out the zero value of a scalar field.\<close>

definition vfield :: "nat \<Rightarrow> u64 \<Rightarrow> field list" where
  "vfield n x = (if x = 0 then [] else [(n, Varint x)])"

definition bfield :: "nat \<Rightarrow> bytes \<Rightarrow> field list" where
  "bfield n s = (if s = [] then [] else [(n, Len s)])"

definition ifield :: "nat \<Rightarrow> i64 \<Rightarrow> field list" where
  "ifield n x = vfield n (word_of_int x)"

definition boolfield :: "nat \<Rightarrow> bool \<Rightarrow> field list" where
  "boolfield n b = vfield n (if b then 1 else 0)"

definition pfield :: "wire \<Rightarrow> nat \<Rightarrow> u64 list \<Rightarrow> field list" where
  "pfield w n xs = (if xs = [] then [] else [(n, Len (enc_packed w xs))])"

text \<open>
  A map is one field per entry, each a message with the key as field 1 and the value as
  field 2, both always written. The library leaves the order of the entries open; it is
  the order of the keys here, and reading does not depend on it.
\<close>

definition entry_field :: "wire \<Rightarrow> nat \<Rightarrow> string \<times> string \<Rightarrow> field" where
  "entry_field w n kv = (n, Len (enc w [(1, Len (fst kv)), (2, Len (snd kv))]))"

definition mfield :: "wire \<Rightarrow> nat \<Rightarrow> gomap \<Rightarrow> field list" where
  "mfield w n m = (case m of None \<Rightarrow> [] | Some f \<Rightarrow> map (entry_field w n) (sorted_list_of_fmap f))"

text \<open>Reading: the last field with the number and the type of the target.\<close>

fun getv :: "nat \<Rightarrow> field list \<Rightarrow> u64 \<Rightarrow> u64" where
  "getv n [] a = a"
| "getv n ((k, v) # fs) a = getv n fs (case v of Varint x \<Rightarrow> (if k = n then x else a) | _ \<Rightarrow> a)"

fun getb :: "nat \<Rightarrow> field list \<Rightarrow> bytes \<Rightarrow> bytes" where
  "getb n [] a = a"
| "getb n ((k, v) # fs) a = getb n fs (case v of Len s \<Rightarrow> (if k = n then s else a) | _ \<Rightarrow> a)"

definition geti :: "nat \<Rightarrow> field list \<Rightarrow> i64" where
  "geti n fs = sint (getv n fs 0)"

definition getbool :: "nat \<Rightarrow> field list \<Rightarrow> bool" where
  "getbool n fs \<longleftrightarrow> getv n fs 0 \<noteq> 0"

text \<open>All occurrences of a string field are checked.\<close>

fun strs_valid :: "wire \<Rightarrow> nat list \<Rightarrow> field list \<Rightarrow> bool" where
  "strs_valid w ns [] \<longleftrightarrow> True"
| "strs_valid w ns ((k, v) # fs) \<longleftrightarrow>
     (case v of Len s \<Rightarrow> k \<in> set ns \<longrightarrow> str_ok w s | _ \<Rightarrow> True) \<and> strs_valid w ns fs"

fun getp :: "wire \<Rightarrow> nat \<Rightarrow> field list \<Rightarrow> u64 list option" where
  "getp w n [] = Some []"
| "getp w n ((k, v) # fs) =
     (case getp w n fs of None \<Rightarrow> None
      | Some xs \<Rightarrow>
          (if k \<noteq> n then Some xs
           else case v of Varint x \<Rightarrow> Some (x # xs)
             | Len s \<Rightarrow> map_option (\<lambda>ys. ys @ xs) (dec_packed w s)
             | _ \<Rightarrow> Some xs))"

definition dec_entry :: "wire \<Rightarrow> bytes \<Rightarrow> (string \<times> string) option" where
  "dec_entry w s = (case dec w s of None \<Rightarrow> None
     | Some fs \<Rightarrow> if strs_valid w [1, 2] fs then Some (getb 1 fs [], getb 2 fs []) else None)"

definition gom_upd :: "gomap \<Rightarrow> string \<Rightarrow> string \<Rightarrow> gomap" where
  "gom_upd m k v = Some (fmupd k v (case m of None \<Rightarrow> fmempty | Some f \<Rightarrow> f))"

fun getm :: "wire \<Rightarrow> nat \<Rightarrow> field list \<Rightarrow> gomap \<Rightarrow> gomap option" where
  "getm w n [] m = Some m"
| "getm w n ((k, v) # fs) m =
     (case v of
        Len s \<Rightarrow> if k = n
          then (case dec_entry w s of None \<Rightarrow> None
                | Some (a, b) \<Rightarrow> getm w n fs (gom_upd m a b))
          else getm w n fs m
      | _ \<Rightarrow> getm w n fs m)"

section \<open>Messages\<close>

definition mar_ChatReq :: "wire \<Rightarrow> ChatReq \<Rightarrow> bytes" where
  "mar_ChatReq w m = enc w (bfield 1 (chatreq_Content m) @ ifield 2 (chatreq_TargetPlayerId m))"

definition unm_ChatReq :: "wire \<Rightarrow> bytes \<Rightarrow> ChatReq option" where
  "unm_ChatReq w d = (case dec w d of None \<Rightarrow> None
     | Some fs \<Rightarrow> if strs_valid w [1] fs
         then Some \<lparr>chatreq_Content = getb 1 fs [], chatreq_TargetPlayerId = geti 2 fs\<rparr> else None)"

definition mar_ChatResp :: "wire \<Rightarrow> ChatResp \<Rightarrow> bytes" where
  "mar_ChatResp w m = enc w (ifield 1 (chatresp_SenderPlayerId m) @ bfield 2 (chatresp_Content m)
     @ ifield 3 (chatresp_Timestamp m) @ ifield 4 (chatresp_TargetPlayerId m))"

definition unm_ChatResp :: "wire \<Rightarrow> bytes \<Rightarrow> ChatResp option" where
  "unm_ChatResp w d = (case dec w d of None \<Rightarrow> None
     | Some fs \<Rightarrow> if strs_valid w [2] fs
         then Some \<lparr>chatresp_SenderPlayerId = geti 1 fs, chatresp_Content = getb 2 fs [],
           chatresp_Timestamp = geti 3 fs, chatresp_TargetPlayerId = geti 4 fs\<rparr> else None)"

definition mar_Envelope :: "wire \<Rightarrow> Envelope \<Rightarrow> bytes" where
  "mar_Envelope w m = enc w (vfield 1 (env_ConnId m) @ bfield 2 (env_Data m) @ mfield w 3 (env_ConnTags m))"

definition unm_Envelope :: "wire \<Rightarrow> bytes \<Rightarrow> Envelope option" where
  "unm_Envelope w d = (case dec w d of None \<Rightarrow> None
     | Some fs \<Rightarrow> (case getm w 3 fs None of None \<Rightarrow> None
         | Some tags \<Rightarrow> Some \<lparr>env_ConnId = getv 1 fs 0, env_Data = getb 2 fs [], env_ConnTags = tags\<rparr>))"

definition mar_ServiceHello :: "wire \<Rightarrow> ServiceHello \<Rightarrow> bytes" where
  "mar_ServiceHello w m = enc w (bfield 1 (hello_Service m)
     @ pfield w 2 (map ucast (hello_MsgIds m)) @ pfield w 3 (map ucast (hello_SendMsgIds m)))"

definition unm_ServiceHello :: "wire \<Rightarrow> bytes \<Rightarrow> ServiceHello option" where
  "unm_ServiceHello w d = (case dec w d of None \<Rightarrow> None
     | Some fs \<Rightarrow> if strs_valid w [1] fs
         then (case (getp w 2 fs, getp w 3 fs) of
             (Some xs, Some ys) \<Rightarrow> Some \<lparr>hello_Service = getb 1 fs [],
               hello_MsgIds = map ucast xs, hello_SendMsgIds = map ucast ys\<rparr>
           | _ \<Rightarrow> None)
         else None)"

definition mar_MatchEnterReq :: "wire \<Rightarrow> MatchEnterReq \<Rightarrow> bytes" where
  "mar_MatchEnterReq w m = enc w (bfield 1 (enterreq_MatchType m) @ ifield 2 (enterreq_Elo m))"

definition unm_MatchEnterReq :: "wire \<Rightarrow> bytes \<Rightarrow> MatchEnterReq option" where
  "unm_MatchEnterReq w d = (case dec w d of None \<Rightarrow> None
     | Some fs \<Rightarrow> if strs_valid w [1] fs
         then Some \<lparr>enterreq_MatchType = getb 1 fs [], enterreq_Elo = geti 2 fs\<rparr> else None)"

definition mar_MatchEnterResp :: "wire \<Rightarrow> MatchEnterResp \<Rightarrow> bytes" where
  "mar_MatchEnterResp w m = enc w (bfield 1 (enterresp_Status m) @ ifield 2 (enterresp_QueueSize m))"

definition mar_MatchResultPush :: "wire \<Rightarrow> MatchResultPush \<Rightarrow> bytes" where
  "mar_MatchResultPush w m = enc w (bfield 1 (result_MatchId m) @ bfield 2 (result_ServerId m)
     @ pfield w 3 (map word_of_int (result_Players m)) @ bfield 4 (result_MatchType m))"

definition mar_MatchAllocateReq :: "wire \<Rightarrow> MatchAllocateReq \<Rightarrow> bytes" where
  "mar_MatchAllocateReq w m = enc w (bfield 1 (allocreq_MatchId m))"

definition unm_MatchAllocateReq :: "wire \<Rightarrow> bytes \<Rightarrow> MatchAllocateReq option" where
  "unm_MatchAllocateReq w d = (case dec w d of None \<Rightarrow> None
     | Some fs \<Rightarrow> if strs_valid w [1] fs then Some \<lparr>allocreq_MatchId = getb 1 fs []\<rparr> else None)"

definition mar_MatchAllocateResp :: "wire \<Rightarrow> MatchAllocateResp \<Rightarrow> bytes" where
  "mar_MatchAllocateResp w m = enc w (bfield 1 (allocresp_MatchId m)
     @ bfield 2 (allocresp_ServerId m) @ bfield 3 (allocresp_Error m))"

definition mar_MatchQueryReq :: "wire \<Rightarrow> MatchQueryReq \<Rightarrow> bytes" where
  "mar_MatchQueryReq w m = enc w (bfield 1 (queryreq_MatchId m))"

definition unm_MatchQueryReq :: "wire \<Rightarrow> bytes \<Rightarrow> MatchQueryReq option" where
  "unm_MatchQueryReq w d = (case dec w d of None \<Rightarrow> None
     | Some fs \<Rightarrow> if strs_valid w [1] fs then Some \<lparr>queryreq_MatchId = getb 1 fs []\<rparr> else None)"

definition mar_MatchQueryResp :: "wire \<Rightarrow> MatchQueryResp \<Rightarrow> bytes" where
  "mar_MatchQueryResp w m = enc w (bfield 1 (queryresp_MatchId m)
     @ bfield 2 (queryresp_ServerId m) @ boolfield 3 (queryresp_Found m))"

definition mar_RoomJoinReq :: "wire \<Rightarrow> RoomJoinReq \<Rightarrow> bytes" where
  "mar_RoomJoinReq w m = enc w (bfield 1 (joinreq_MatchId m))"

definition unm_RoomJoinReq :: "wire \<Rightarrow> bytes \<Rightarrow> RoomJoinReq option" where
  "unm_RoomJoinReq w d = (case dec w d of None \<Rightarrow> None
     | Some fs \<Rightarrow> if strs_valid w [1] fs then Some \<lparr>joinreq_MatchId = getb 1 fs []\<rparr> else None)"

text \<open>The match id that a failed reading of a join request leaves behind.\<close>

definition partial_RoomJoinReq :: "wire \<Rightarrow> bytes \<Rightarrow> RoomJoinReq" where
  "partial_RoomJoinReq w d =
     \<lparr>joinreq_MatchId = getb 1 (takeWhile (\<lambda>f. strs_valid w [1] [f]) (dec_prefix w d)) []\<rparr>"

definition mar_RoomJoinResp :: "wire \<Rightarrow> RoomJoinResp \<Rightarrow> bytes" where
  "mar_RoomJoinResp w m = enc w (boolfield 1 (joinresp_Success m) @ bfield 2 (joinresp_MatchId m)
     @ bfield 3 (joinresp_ServerId m) @ bfield 4 (joinresp_Error m))"

definition mar_RoomLeaveReq :: "wire \<Rightarrow> RoomLeaveReq \<Rightarrow> bytes" where
  "mar_RoomLeaveReq w m = enc w (bfield 1 (leavereq_MatchId m))"

definition unm_RoomLeaveReq :: "wire \<Rightarrow> bytes \<Rightarrow> RoomLeaveReq option" where
  "unm_RoomLeaveReq w d = (case dec w d of None \<Rightarrow> None
     | Some fs \<Rightarrow> if strs_valid w [1] fs then Some \<lparr>leavereq_MatchId = getb 1 fs []\<rparr> else None)"

definition mar_RoomLeaveResp :: "wire \<Rightarrow> RoomLeaveResp \<Rightarrow> bytes" where
  "mar_RoomLeaveResp w m = enc w (boolfield 1 (leaveresp_Success m) @ bfield 2 (leaveresp_Error m))"

definition mar_RoomEventPush :: "wire \<Rightarrow> RoomEventPush \<Rightarrow> bytes" where
  "mar_RoomEventPush w m = enc w (bfield 1 (event_MatchId m) @ bfield 2 (event_PlayerId m)
     @ bfield 3 (event_Event m) @ ifield 4 (event_PlayerCount m))"

definition mar_RoomDestroyedPush :: "wire \<Rightarrow> RoomDestroyedPush \<Rightarrow> bytes" where
  "mar_RoomDestroyedPush w m = enc w (bfield 1 (destroyed_MatchId m))"

definition unm_RoomDestroyedPush :: "wire \<Rightarrow> bytes \<Rightarrow> RoomDestroyedPush option" where
  "unm_RoomDestroyedPush w d = (case dec w d of None \<Rightarrow> None
     | Some fs \<Rightarrow> if strs_valid w [1] fs then Some \<lparr>destroyed_MatchId = getb 1 fs []\<rparr> else None)"

definition mar_SessionData :: "wire \<Rightarrow> SessionData \<Rightarrow> bytes" where
  "mar_SessionData w m = enc w (ifield 1 (sd_PlayerId m) @ bfield 2 (sd_GatewayId m)
     @ mfield w 3 (sd_ConnTags m) @ ifield 4 (sd_DisconnectedAt m))"

definition unm_SessionData :: "wire \<Rightarrow> bytes \<Rightarrow> SessionData option" where
  "unm_SessionData w d = (case dec w d of None \<Rightarrow> None
     | Some fs \<Rightarrow> if strs_valid w [2] fs
         then (case getm w 3 fs None of None \<Rightarrow> None
           | Some tags \<Rightarrow> Some \<lparr>sd_PlayerId = geti 1 fs, sd_GatewayId = getb 2 fs [],
               sd_ConnTags = tags, sd_DisconnectedAt = geti 4 fs\<rparr>)
         else None)"

section \<open>Reading back a sequence of written fields\<close>

named_theorems field_simps0 \<open>reading past one written field\<close>

lemma zero_default [field_simps0]:
  "(if x = 0 then 0 else x) = (x :: u64)"
  "(if s = [] then [] else s) = s"
  by simp_all

lemma getv_field [field_simps0]:
  "getv n (vfield k x @ fs) a = getv n fs (if k = n then if x = 0 then a else x else a)"
  "getv n (bfield k s @ fs) a = getv n fs a"
  "getv n (pfield w k xs @ fs) a = getv n fs a"
  "getv n (vfield k x) a = (if k = n then if x = 0 then a else x else a)"
  "getv n (bfield k s) a = a"
  "getv n (pfield w k xs) a = a"
  by (simp_all add: vfield_def bfield_def pfield_def)

lemma getb_field [field_simps0]:
  "getb n (vfield k x @ fs) a = getb n fs a"
  "getb n (bfield k s @ fs) a = getb n fs (if k = n then if s = [] then a else s else a)"
  "k \<noteq> n \<Longrightarrow> getb n (pfield w k xs @ fs) a = getb n fs a"
  "getb n (vfield k x) a = a"
  "getb n (bfield k s) a = (if k = n then if s = [] then a else s else a)"
  "k \<noteq> n \<Longrightarrow> getb n (pfield w k xs) a = a"
  by (simp_all add: vfield_def bfield_def pfield_def)

lemma strs_valid_append [field_simps0]: "strs_valid w ns (fs @ gs) \<longleftrightarrow> strs_valid w ns fs \<and> strs_valid w ns gs"
  by (induction fs) auto

lemma strs_valid_field [field_simps0]:
  "strs_valid w ns (vfield k x)"
  "strs_valid w ns (bfield k s) \<longleftrightarrow> (k \<in> set ns \<and> s \<noteq> [] \<longrightarrow> str_ok w s)"
  "k \<notin> set ns \<Longrightarrow> strs_valid w ns (pfield v k xs)"
  by (auto simp: vfield_def bfield_def pfield_def)

lemma entries_skip:
  "getv n (map (entry_field w k) kvs @ fs) a = getv n fs a"
  "k \<noteq> n \<Longrightarrow> getb n (map (entry_field w k) kvs @ fs) b = getb n fs b"
  "k \<notin> set ns \<Longrightarrow> strs_valid w ns (map (entry_field w k) kvs)"
  by (induction kvs) (simp_all add: entry_field_def)

lemma mfield_skip [field_simps0]:
  "getv n (mfield w k m @ fs) a = getv n fs a"
  "getv n (mfield w k m) a = a"
  "k \<noteq> n \<Longrightarrow> getb n (mfield w k m @ fs) b = getb n fs b"
  "k \<noteq> n \<Longrightarrow> getb n (mfield w k m) b = b"
  "k \<notin> set ns \<Longrightarrow> strs_valid w ns (mfield w k m)"
  using entries_skip(1,2) [where fs = "[]"]
  by (simp_all add: mfield_def entries_skip split: option.splits)

lemma getm_field [field_simps0]:
  "getm w n (vfield k x @ fs) m = getm w n fs m"
  "k \<noteq> n \<Longrightarrow> getm w n (bfield k s @ fs) m = getm w n fs m"
  "getm w n (vfield k x) m = Some m"
  "k \<noteq> n \<Longrightarrow> getm w n (bfield k s) m = Some m"
  by (simp_all add: vfield_def bfield_def)

text \<open>A map is read back from its entries in whatever order they come.\<close>

definition upd_all :: "(string \<times> string) list \<Rightarrow> gomap \<Rightarrow> gomap" where
  "upd_all kvs m = fold (\<lambda>(k, v) m. gom_upd m k v) kvs m"

lemma upd_all_Some:
  "upd_all kvs (Some f) = Some (fold (\<lambda>(k, v) g. fmupd k v g) kvs f)"
  by (induction kvs arbitrary: f) (auto simp: upd_all_def gom_upd_def)

lemma fold_fmupd_lookup:
  "distinct (map fst kvs) \<Longrightarrow>
   fmlookup (fold (\<lambda>(k, v) g. fmupd k v g) kvs f) a
     = (case map_of kvs a of None \<Rightarrow> fmlookup f a | Some b \<Rightarrow> Some b)"
proof (induction kvs arbitrary: f)
  case Nil
  then show ?case by simp
next
  case (Cons kv kvs)
  obtain k v where kv: "kv = (k, v)" by (cases kv)
  with Cons.prems have "map_of kvs k = None" by (simp add: map_of_eq_None_iff)
  with Cons kv show ?case by (auto split: option.splits)
qed

lemma distinct_sorted_list_of_fmap: "distinct (map fst (sorted_list_of_fmap f))"
  by (simp add: sorted_list_of_fmap_def o_def sorted_list_of_fset.rep_eq)

lemma set_sorted_list_of_fmap: "set (sorted_list_of_fmap f) = {(k, v). fmlookup f k = Some v}"
  using map_of_sorted_list [of f] distinct_sorted_list_of_fmap [of f]
  by (auto simp: map_of_eq_Some_iff [symmetric])

lemma upd_all_sorted: "upd_all (sorted_list_of_fmap f) None = mnorm (Some f)"
proof (cases "sorted_list_of_fmap f")
  case Nil
  then have "fmlookup f = Map.empty" by (metis map_of.simps(1) map_of_sorted_list)
  then have "f = fmempty" by (intro fmap_ext) simp
  with Nil show ?thesis by (simp add: upd_all_def)
next
  case (Cons kv kvs)
  have start: "upd_all (sorted_list_of_fmap f) None = upd_all (sorted_list_of_fmap f) (Some fmempty)"
    using Cons by (cases kv) (simp add: upd_all_def gom_upd_def)
  have "fold (\<lambda>(k, v) g. fmupd k v g) (sorted_list_of_fmap f) fmempty = f"
    by (intro fmap_ext) (simp add: fold_fmupd_lookup distinct_sorted_list_of_fmap split: option.splits)
  then have "upd_all (sorted_list_of_fmap f) None = Some f"
    unfolding start upd_all_Some by simp
  moreover have "f \<noteq> fmempty"
    using Cons by (auto simp: sorted_list_of_fmap_def sorted_list_of_fset.rep_eq)
  ultimately show ?thesis by (simp add: mnorm_def)
qed

section \<open>The law of the library and the round trips\<close>

definition fields_ok :: "field list \<Rightarrow> bool" where
  "fields_ok fs \<longleftrightarrow> (\<forall>f\<in>set fs. 1 \<le> fst f \<and> fst f < 536870912)"

definition tags_ok :: "wire \<Rightarrow> gomap \<Rightarrow> bool" where
  "tags_ok w m \<longleftrightarrow> (case m of None \<Rightarrow> True
     | Some f \<Rightarrow> (\<forall>kv\<in>set (sorted_list_of_fmap f). str_ok w (fst kv) \<and> str_ok w (snd kv)))"

lemma fields_ok_field [field_simps0]:
  "fields_ok (fs @ gs) \<longleftrightarrow> fields_ok fs \<and> fields_ok gs"
  "1 \<le> n \<Longrightarrow> n < 536870912 \<Longrightarrow> fields_ok (vfield n x)"
  "1 \<le> n \<Longrightarrow> n < 536870912 \<Longrightarrow> fields_ok (bfield n s)"
  "1 \<le> n \<Longrightarrow> n < 536870912 \<Longrightarrow> fields_ok (pfield w n xs)"
  "1 \<le> n \<Longrightarrow> n < 536870912 \<Longrightarrow> fields_ok (mfield w n m)"
  by (auto simp: fields_ok_def vfield_def bfield_def pfield_def mfield_def entry_field_def
      split: option.splits)

lemma tags_ok_simps [simp]:
  "tags_ok w None"
  "tags_ok w (Some fmempty)"
  by (simp_all add: tags_ok_def sorted_list_of_fmap_def sorted_list_of_fset.rep_eq)

lemma tags_ok_alt:
  "tags_ok w (Some f) \<longleftrightarrow> (\<forall>k v. fmlookup f k = Some v \<longrightarrow> str_ok w k \<and> str_ok w v)"
  by (auto simp: tags_ok_def set_sorted_list_of_fmap)

lemma tags_ok_upd: "str_ok w k \<Longrightarrow> str_ok w v \<Longrightarrow> tags_ok w (Some f) \<Longrightarrow> tags_ok w (Some (fmupd k v f))"
  by (auto simp: tags_ok_alt)

lemma sint_word_of_int: "i64_ok n \<Longrightarrow> sint (word_of_int n :: u64) = n"
  by (auto simp: i64_ok_def i64_min_def i64_max_def signed_of_int intro!: signed_take_bit_int_eq_self)

lemma ucast_ucast_u32 [simp]: "(ucast (ucast (x :: u32) :: u64) :: u32) = x"
  by (rule ucast_up_ucast_id) (simp add: is_up)

locale wire_codec =
  fixes w :: wire
  assumes dec_enc: "fields_ok fs \<Longrightarrow> dec w (enc w fs) = Some fs"
    and dec_enc_packed: "dec_packed w (enc_packed w xs) = Some xs"
    and str_ok_nil: "str_ok w []"
begin

lemma dec_entry_field:
  "str_ok w k \<Longrightarrow> str_ok w v \<Longrightarrow> dec_entry w (enc w [(1, Len k), (2, Len v)]) = Some (k, v)"
  by (simp add: dec_entry_def dec_enc fields_ok_def)

lemma getm_entries:
  "\<forall>kv\<in>set kvs. str_ok w (fst kv) \<and> str_ok w (snd kv) \<Longrightarrow>
   getm w n (map (entry_field w n) kvs @ fs) m = getm w n fs (upd_all kvs m)"
  by (induction kvs arbitrary: m)
     (auto simp: entry_field_def dec_entry_field upd_all_def simp del: One_nat_def)

lemma getm_mfield:
  "tags_ok w m \<Longrightarrow> getm w n (mfield w n m @ fs) None = getm w n fs (mnorm m)"
  "tags_ok w m \<Longrightarrow> getm w n (mfield w n m) None = Some (mnorm m)"
  using getm_entries [of _ n fs None] getm_entries [of _ n "[]" None]
  by (auto simp: mfield_def tags_ok_def upd_all_sorted split: option.splits)

lemma getp_field:
  "k \<noteq> n \<Longrightarrow> getp w n (bfield k s @ fs) = getp w n fs"
  "k \<noteq> n \<Longrightarrow> getp w n (pfield w k xs @ fs) = getp w n fs"
  "getp w n (pfield w n xs @ fs) = map_option (\<lambda>ys. xs @ ys) (getp w n fs)"
  "k \<noteq> n \<Longrightarrow> getp w n (pfield w k xs) = Some []"
  "getp w n (pfield w n xs) = Some xs"
  by (auto simp: bfield_def pfield_def dec_enc_packed option.map_id split: option.splits)

lemmas read_simps = field_simps0 dec_enc getm_mfield getp_field geti_def getbool_def
  ifield_def boolfield_def sint_word_of_int

lemma ChatReq_roundtrip:
  "str_ok w (chatreq_Content m) \<Longrightarrow> i64_ok (chatreq_TargetPlayerId m) \<Longrightarrow>
   unm_ChatReq w (mar_ChatReq w m) = Some m"
  by (simp add: unm_ChatReq_def mar_ChatReq_def read_simps)

lemma ChatResp_roundtrip:
  "str_ok w (chatresp_Content m) \<Longrightarrow> i64_ok (chatresp_SenderPlayerId m) \<Longrightarrow> i64_ok (chatresp_Timestamp m) \<Longrightarrow>
   i64_ok (chatresp_TargetPlayerId m) \<Longrightarrow> unm_ChatResp w (mar_ChatResp w m) = Some m"
  by (simp add: unm_ChatResp_def mar_ChatResp_def read_simps)

lemma Envelope_roundtrip:
  "tags_ok w (env_ConnTags m) \<Longrightarrow>
   unm_Envelope w (mar_Envelope w m) = Some (m\<lparr>env_ConnTags := mnorm (env_ConnTags m)\<rparr>)"
  by (simp add: unm_Envelope_def mar_Envelope_def read_simps)

lemma ServiceHello_roundtrip:
  "str_ok w (hello_Service m) \<Longrightarrow> unm_ServiceHello w (mar_ServiceHello w m) = Some m"
  by (simp add: unm_ServiceHello_def mar_ServiceHello_def read_simps o_def)

lemma MatchEnterReq_roundtrip:
  "str_ok w (enterreq_MatchType m) \<Longrightarrow> i64_ok (enterreq_Elo m) \<Longrightarrow>
   unm_MatchEnterReq w (mar_MatchEnterReq w m) = Some m"
  by (simp add: unm_MatchEnterReq_def mar_MatchEnterReq_def read_simps)

lemma MatchAllocateReq_roundtrip:
  "str_ok w (allocreq_MatchId m) \<Longrightarrow> unm_MatchAllocateReq w (mar_MatchAllocateReq w m) = Some m"
  by (simp add: unm_MatchAllocateReq_def mar_MatchAllocateReq_def read_simps)

lemma MatchQueryReq_roundtrip:
  "str_ok w (queryreq_MatchId m) \<Longrightarrow> unm_MatchQueryReq w (mar_MatchQueryReq w m) = Some m"
  by (simp add: unm_MatchQueryReq_def mar_MatchQueryReq_def read_simps)

lemma RoomJoinReq_roundtrip:
  "str_ok w (joinreq_MatchId m) \<Longrightarrow> unm_RoomJoinReq w (mar_RoomJoinReq w m) = Some m"
  by (simp add: unm_RoomJoinReq_def mar_RoomJoinReq_def read_simps)

lemma RoomLeaveReq_roundtrip:
  "str_ok w (leavereq_MatchId m) \<Longrightarrow> unm_RoomLeaveReq w (mar_RoomLeaveReq w m) = Some m"
  by (simp add: unm_RoomLeaveReq_def mar_RoomLeaveReq_def read_simps)

lemma RoomDestroyedPush_roundtrip:
  "str_ok w (destroyed_MatchId m) \<Longrightarrow> unm_RoomDestroyedPush w (mar_RoomDestroyedPush w m) = Some m"
  by (simp add: unm_RoomDestroyedPush_def mar_RoomDestroyedPush_def read_simps)

lemma SessionData_roundtrip:
  "i64_ok (sd_PlayerId m) \<Longrightarrow> i64_ok (sd_DisconnectedAt m) \<Longrightarrow> str_ok w (sd_GatewayId m) \<Longrightarrow>
   tags_ok w (sd_ConnTags m) \<Longrightarrow>
   unm_SessionData w (mar_SessionData w m) = Some (m\<lparr>sd_ConnTags := mnorm (sd_ConnTags m)\<rparr>)"
  by (simp add: unm_SessionData_def mar_SessionData_def read_simps)

text \<open>What the decoder delivers: valid strings, integers in range, no empty non-nil map.\<close>

lemma getb_valid: "strs_valid w ns fs \<Longrightarrow> n \<in> set ns \<Longrightarrow> str_ok w a \<Longrightarrow> str_ok w (getb n fs a)"
  by (induction fs arbitrary: a) (auto split: wval.splits)

lemma getm_valid:
  "getm w n fs m = Some m' \<Longrightarrow> tags_ok w m \<Longrightarrow> m \<noteq> Some fmempty \<Longrightarrow> tags_ok w m' \<and> m' \<noteq> Some fmempty"
proof (induction fs arbitrary: m)
  case (Cons f fs)
  obtain k v where f: "f = (k, v)" by (cases f)
  show ?case
  proof (cases "\<exists>s. v = Len s \<and> k = n")
    case True
    then obtain s a b where s: "v = Len s" "k = n" "dec_entry w s = Some (a, b)"
      using Cons.prems(1) f by (auto split: option.splits)
    then have ab: "str_ok w a" "str_ok w b"
      by (auto simp: dec_entry_def str_ok_nil split: option.splits if_splits intro!: getb_valid)
    then have "tags_ok w (gom_upd m a b)"
      using Cons.prems(2) by (cases m) (auto simp: gom_upd_def intro!: tags_ok_upd)
    then show ?thesis
      using Cons.IH [of "gom_upd m a b"] Cons.prems(1) f s by (simp add: gom_upd_def)
  next
    case False
    then show ?thesis
      using Cons.IH [of m] Cons.prems f by (auto split: wval.splits if_splits)
  qed
qed simp

lemma geti_ok: "i64_ok (geti n fs)"
  using sint_greater_eq [of "getv n fs 0"] sint_less [of "getv n fs 0"]
  by (simp add: geti_def i64_ok_def i64_min_def i64_max_def)

lemma unm_SessionData_valid:
  assumes "unm_SessionData w b = Some d"
  shows "str_ok w (sd_GatewayId d)" "tags_ok w (sd_ConnTags d)" "sd_ConnTags d \<noteq> Some fmempty"
    "i64_ok (sd_PlayerId d)" "i64_ok (sd_DisconnectedAt d)"
  using assms getm_valid [of 3 _ None "sd_ConnTags d"]
  by (auto simp: unm_SessionData_def geti_ok str_ok_nil split: option.splits if_splits intro!: getb_valid)

lemma unm_ChatReq_valid:
  assumes "unm_ChatReq w b = Some r"
  shows "str_ok w (chatreq_Content r)" "i64_ok (chatreq_TargetPlayerId r)"
  using assms by (auto simp: unm_ChatReq_def geti_ok str_ok_nil split: option.splits if_splits intro!: getb_valid)

text \<open>
  Session data is also readable as an envelope, since the numbers and types of its first
  three fields agree. The room service relies on it, as its handler reads every request as
  an envelope first.
\<close>

lemma SessionData_as_Envelope:
  "tags_ok w (sd_ConnTags m) \<Longrightarrow>
   unm_Envelope w (mar_SessionData w m)
     = Some \<lparr>env_ConnId = word_of_int (sd_PlayerId m), env_Data = sd_GatewayId m,
         env_ConnTags = mnorm (sd_ConnTags m)\<rparr>"
  by (simp add: unm_Envelope_def mar_SessionData_def read_simps)

end

end
