(* ===== verification/Wire.thy ===== *)
theory Wire
  imports Codec
begin

text \<open>
  The documented protobuf wire format as one instance of the parameter \<open>wire\<close>: base 128
  varints, a tag of field number and type before each value, length-delimited bytes, UTF-8
  strings. It shows that the law of \<open>wire_codec\<close> can hold and is what the witnesses of the
  properties over encoded messages run on. Groups, deprecated in the format, are refused.
\<close>

section \<open>Varints and fixed-width values\<close>

fun uvar :: "nat \<Rightarrow> bytes" where
  "uvar n = (if n < 128 then [char_of n] else char_of (128 + n mod 128) # uvar (n div 128))"

declare uvar.simps [simp del]

fun rvar :: "bytes \<Rightarrow> (nat \<times> bytes) option" where
  "rvar [] = None"
| "rvar (c # cs) = (if (of_char c :: nat) < 128 then Some (of_char c, cs)
     else (case rvar cs of None \<Rightarrow> None | Some (n, r) \<Rightarrow> Some (of_char c - 128 + 128 * n, r)))"

fun le_bytes :: "nat \<Rightarrow> nat \<Rightarrow> bytes" where
  "le_bytes 0 n = []"
| "le_bytes (Suc k) n = char_of (n mod 256) # le_bytes k (n div 256)"

fun le_val :: "bytes \<Rightarrow> nat" where
  "le_val [] = 0"
| "le_val (c # cs) = of_char c + 256 * le_val cs"

lemma rvar_uvar [simp]: "rvar (uvar n @ r) = Some (n, r)"
proof (induction n rule: uvar.induct)
  case (1 n)
  show ?case
  proof (cases "n < 128")
    case True
    then show ?thesis by (simp add: uvar.simps [of n])
  next
    case False
    then have "(128 + n mod 128) mod 256 = 128 + n mod 128" by (intro mod_less) presburger
    with False "1.IH" show ?thesis by (simp add: uvar.simps [of n])
  qed
qed

lemma length_le_bytes [simp]: "length (le_bytes k n) = k"
  by (induction k arbitrary: n) simp_all

lemma le_val_bytes [simp]: "n < 256 ^ k \<Longrightarrow> le_val (le_bytes k n) = n"
  by (induction k arbitrary: n) (simp_all add: less_mult_imp_div_less mult.commute)

section \<open>Fields\<close>

fun enc_field :: "field \<Rightarrow> bytes" where
  "enc_field (n, Varint x) = uvar (n * 8) @ uvar (unat x)"
| "enc_field (n, Fixed64 x) = uvar (n * 8 + 1) @ le_bytes 8 (unat x)"
| "enc_field (n, Len s) = uvar (n * 8 + 2) @ uvar (length s) @ s"
| "enc_field (n, Fixed32 x) = uvar (n * 8 + 5) @ le_bytes 4 (unat x)"

definition dec_value :: "nat \<Rightarrow> bytes \<Rightarrow> (wval \<times> bytes) option" where
  "dec_value t r =
     (if t = 0 then (case rvar r of None \<Rightarrow> None
        | Some (x, r') \<Rightarrow> if x < 2 ^ 64 then Some (Varint (of_nat x), r') else None)
      else if t = 1 then (if length r < 8 then None else Some (Fixed64 (of_nat (le_val (take 8 r))), drop 8 r))
      else if t = 2 then (case rvar r of None \<Rightarrow> None
        | Some (k, r') \<Rightarrow> if length r' < k then None else Some (Len (take k r'), drop k r'))
      else if t = 5 then (if length r < 4 then None else Some (Fixed32 (of_nat (le_val (take 4 r))), drop 4 r))
      else None)"

definition dec_field :: "bytes \<Rightarrow> (field \<times> bytes) option" where
  "dec_field s = (case rvar s of None \<Rightarrow> None
     | Some (t, r) \<Rightarrow> if t div 8 < 1 \<or> 536870912 \<le> t div 8 then None
         else map_option (\<lambda>(v, r'). ((t div 8, v), r')) (dec_value (t mod 8) r))"

lemma dec_field_tag:
  assumes "1 \<le> n" and "n < 536870912" and "t < 8"
  shows "dec_field (uvar (n * 8 + t) @ r) = map_option (\<lambda>(v, r'). ((n, v), r')) (dec_value t r)"
proof -
  have "(n * 8 + t) div 8 = n" and "(n * 8 + t) mod 8 = t" using assms(3) by simp_all
  with assms show ?thesis by (simp add: dec_field_def del: One_nat_def)
qed

lemma dec_value_written:
  "dec_value 0 (uvar (unat x) @ r) = Some (Varint x, r)"
  "dec_value 1 (le_bytes 8 (unat x) @ r) = Some (Fixed64 x, r)"
  "dec_value 2 (uvar (length s) @ s @ r) = Some (Len s, r)"
  "dec_value 5 (le_bytes 4 (unat y) @ r) = Some (Fixed32 y, r)"
  using unsigned_less [of x, where ?'a = nat] unsigned_less [of y, where ?'a = nat]
  by (simp_all add: dec_value_def)

lemma dec_field_enc [simp]:
  assumes "1 \<le> fst f" and "fst f < 536870912"
  shows "dec_field (enc_field f @ r) = Some (f, r)"
  using assms dec_field_tag [of "fst f" 0]
  by (cases f rule: enc_field.cases) (simp_all add: dec_field_tag dec_value_written del: One_nat_def add_2_eq_Suc')

text \<open>
  A message is its fields one after the other. Each field takes at least one byte, so the
  length of the input is fuel enough for the loop.
\<close>

definition enc_fields :: "field list \<Rightarrow> bytes" where
  "enc_fields fs = concat (map enc_field fs)"

fun dec_loop :: "nat \<Rightarrow> bytes \<Rightarrow> field list \<times> bool" where
  "dec_loop 0 s = ([], s = [])"
| "dec_loop (Suc k) s =
     (if s = [] then ([], True)
      else case dec_field s of None \<Rightarrow> ([], False)
        | Some (f, r) \<Rightarrow> (case dec_loop k r of (fs, b) \<Rightarrow> (f # fs, b)))"

definition dec_fields :: "bytes \<Rightarrow> field list option" where
  "dec_fields s = (case dec_loop (length s) s of (fs, b) \<Rightarrow> if b then Some fs else None)"

lemma uvar_nonempty [simp]: "uvar n \<noteq> []"
  by (simp add: uvar.simps [of n])

lemma enc_field_nonempty [simp]: "enc_field f \<noteq> []"
  by (cases f rule: enc_field.cases) simp_all

lemma length_enc_field: "1 \<le> length (enc_field f)"
  by (metis One_nat_def Suc_leI enc_field_nonempty length_greater_0_conv)

lemma dec_loop_enc: "fields_ok fs \<Longrightarrow> length fs \<le> k \<Longrightarrow> dec_loop k (enc_fields fs) = (fs, True)"
proof (induction fs arbitrary: k)
  case Nil
  then show ?case by (cases k) (simp_all add: enc_fields_def)
next
  case (Cons f fs)
  then obtain k' where k: "k = Suc k'" and "length fs \<le> k'" by (cases k) auto
  moreover have "fields_ok fs" and "1 \<le> fst f" and "fst f < 536870912"
    using Cons.prems(1) by (simp_all add: fields_ok_def)
  ultimately show ?case
    using Cons.IH [of k'] by (simp add: enc_fields_def)
qed

lemma length_enc_fields: "length fs \<le> length (enc_fields fs)"
proof (induction fs)
  case Nil
  then show ?case by simp
next
  case (Cons f fs)
  then show ?case using length_enc_field [of f] by (simp add: enc_fields_def)
qed

lemma dec_fields_enc: "fields_ok fs \<Longrightarrow> dec_fields (enc_fields fs) = Some fs"
  by (simp add: dec_fields_def dec_loop_enc length_enc_fields)

section \<open>Packed integers\<close>

definition pack :: "u64 list \<Rightarrow> bytes" where
  "pack xs = concat (map (\<lambda>x. uvar (unat x)) xs)"

fun unpack_loop :: "nat \<Rightarrow> bytes \<Rightarrow> u64 list option" where
  "unpack_loop 0 s = (if s = [] then Some [] else None)"
| "unpack_loop (Suc k) s =
     (if s = [] then Some []
      else case rvar s of None \<Rightarrow> None
        | Some (x, r) \<Rightarrow> if x < 2 ^ 64 then map_option (\<lambda>xs. of_nat x # xs) (unpack_loop k r) else None)"

definition unpack :: "bytes \<Rightarrow> u64 list option" where
  "unpack s = unpack_loop (length s) s"

lemma unpack_loop_pack: "length xs \<le> k \<Longrightarrow> unpack_loop k (pack xs) = Some xs"
proof (induction xs arbitrary: k)
  case Nil
  then show ?case by (cases k) (simp_all add: pack_def)
next
  case (Cons x xs)
  then obtain k' where "k = Suc k'" and "length xs \<le> k'" by (cases k) auto
  moreover have "unat x < 2 ^ 64" using unsigned_less [of x, where ?'a = nat] by simp
  ultimately show ?case using Cons.IH [of k'] by (simp add: pack_def)
qed

lemma length_pack: "length xs \<le> length (pack xs)"
proof (induction xs)
  case Nil
  then show ?case by simp
next
  case (Cons x xs)
  have "1 \<le> length (uvar (unat x))" by (simp add: uvar.simps [of "unat x"])
  with Cons show ?case by (simp add: pack_def)
qed

lemma unpack_pack: "unpack (pack xs) = Some xs"
  by (simp add: unpack_def unpack_loop_pack length_pack)

section \<open>UTF-8\<close>

definition cont :: "nat \<Rightarrow> bool" where
  "cont b \<longleftrightarrow> 128 \<le> b \<and> b \<le> 191"

fun utf8_valid :: "nat list \<Rightarrow> bool" where
  "utf8_valid [] = True"
| "utf8_valid (a # bs) =
     (if a < 128 then utf8_valid bs
      else case bs of [] \<Rightarrow> False
      | b # cs \<Rightarrow>
        (if 194 \<le> a \<and> a \<le> 223 then cont b \<and> utf8_valid cs
         else case cs of [] \<Rightarrow> False
         | c # ds \<Rightarrow>
           (if 224 \<le> a \<and> a \<le> 239
            then cont b \<and> (a = 224 \<longrightarrow> 160 \<le> b) \<and> (a = 237 \<longrightarrow> b \<le> 159) \<and> cont c \<and> utf8_valid ds
            else case ds of [] \<Rightarrow> False
            | d # es \<Rightarrow>
              (240 \<le> a \<and> a \<le> 244 \<and> cont b \<and> (a = 240 \<longrightarrow> 144 \<le> b) \<and> (a = 244 \<longrightarrow> b \<le> 143)
               \<and> cont c \<and> cont d \<and> utf8_valid es))))"

definition utf8_ok :: "bytes \<Rightarrow> bool" where
  "utf8_ok s = utf8_valid (map of_char s)"

lemma utf8_ok_ascii: "\<forall>c\<in>set s. (of_char c :: nat) < 128 \<Longrightarrow> utf8_ok s"
  by (induction s) (simp_all add: utf8_ok_def)

section \<open>The instance\<close>

definition pb_wire :: wire where
  "pb_wire = \<lparr>enc = enc_fields, dec = dec_fields,
     dec_prefix = (\<lambda>s. fst (dec_loop (length s) s)),
     enc_packed = pack, dec_packed = unpack, str_ok = utf8_ok\<rparr>"

interpretation pb: wire_codec pb_wire
  by unfold_locales (simp_all add: pb_wire_def dec_fields_enc unpack_pack utf8_ok_def)

lemma pb_str_ok: "str_ok pb_wire s = utf8_ok s"
  by (simp add: pb_wire_def)

lemma utf8_ok_format_nat: "utf8_ok (format_nat n)"
  by (rule utf8_ok_ascii) (auto dest: format_nat_digits simp: is_digit_def)

lemma utf8_ok_FormatInt: "utf8_ok (FormatInt n)"
  using utf8_ok_format_nat by (simp add: FormatInt_def utf8_ok_def)

end
