(* ===== verification/MatchSvr.thy ===== *)
theory MatchSvr
  imports Conf Wire
begin

text \<open>
  apps/matchsvr/internal/router/match_router.go: the matchmaking queues, the directory of
  active matches and the load counts of the room servers. The configuration, the clock in
  nanoseconds, and the message library are arguments of the handlers.
\<close>

section \<open>State\<close>

record matchDir =
  md_ServerID :: string
  md_MatchType :: string
  md_CreatedAt :: i64

record queuedPlayer =
  qp_playerID :: i64
  qp_elo :: i64
  qp_conn :: conn
  qp_senderID :: u64

record match_state =
  activeMatches :: "(string, matchDir) fmap"
  queues :: "(string, queuedPlayer list) fmap"
  loadCounts :: "(string, i64) fmap"

definition match_init :: match_state where
  "match_init = \<lparr>activeMatches = fmempty, queues = fmempty, loadCounts = fmempty\<rparr>"

section \<open>Helpers\<close>

definition load_of :: "(string, i64) fmap \<Rightarrow> string \<Rightarrow> i64" where
  "load_of lc s = (case fmlookup lc s of None \<Rightarrow> 0 | Some n \<Rightarrow> n)"

fun pick_loop :: "(string, i64) fmap \<Rightarrow> ServerNode list \<Rightarrow> string \<Rightarrow> i64 \<Rightarrow> string" where
  "pick_loop lc [] best minCount = best"
| "pick_loop lc (srv # servers) best minCount =
     (let count = load_of lc (sn_ID srv)
      in if count < minCount then pick_loop lc servers (sn_ID srv) count
         else pick_loop lc servers best minCount)"

definition pickLeastLoaded :: "Config \<Rightarrow> string \<Rightarrow> (string, i64) fmap \<Rightarrow> string" where
  "pickLeastLoaded cfg service lc =
     (let servers = services cfg service
      in if servers = [] then '''' else pick_loop lc servers '''' i64_max)"

definition incLoad :: "string \<Rightarrow> match_state \<Rightarrow> match_state" where
  "incLoad s st = st\<lparr>loadCounts := fmupd s (i64_wrap (load_of (loadCounts st) s + 1)) (loadCounts st)\<rparr>"

definition decLoad :: "string \<Rightarrow> match_state \<Rightarrow> match_state" where
  "decLoad s st =
     (case fmlookup (loadCounts st) s of
        None \<Rightarrow> st
      | Some v \<Rightarrow>
          let count = i64_wrap (v - 1)
          in if count \<le> 0 then st\<lparr>loadCounts := fmdrop s (loadCounts st)\<rparr>
             else st\<lparr>loadCounts := fmupd s count (loadCounts st)\<rparr>)"

definition playerIDs :: "queuedPlayer list \<Rightarrow> i64 list" where
  "playerIDs pool = map qp_playerID pool"

definition requiredPlayers :: "string \<Rightarrow> nat" where
  "requiredPlayers matchType =
     (if matchType = ''1v1'' then 2 else if matchType = ''2v2'' then 4 else if matchType = ''3v3'' then 6
      else if matchType = ''5v5'' then 10 else 2)"

section \<open>Entering a queue\<close>

definition match_id :: "string \<Rightarrow> i64 \<Rightarrow> string" where
  "match_id matchType nano = ''match-'' @ matchType @ ''-'' @ FormatInt nano"

definition result_push :: "wire \<Rightarrow> string \<Rightarrow> string \<Rightarrow> string \<Rightarrow> i64 list \<Rightarrow> queuedPlayer \<Rightarrow> sent" where
  "result_push w matchID serverID matchType players p =
     Sent (qp_conn p) (msg_number MATCH_RESULT_PUSH)
       (mar_Envelope w \<lparr>env_ConnId = qp_senderID p,
          env_Data = mar_MatchResultPush w \<lparr>result_MatchId = matchID, result_ServerId = serverID,
            result_Players = players, result_MatchType = matchType\<rparr>,
          env_ConnTags = Some (fmupd TagMatchID matchID (fmupd TagRoomSvrID serverID fmempty))\<rparr>)"

definition matchPool :: "wire \<Rightarrow> Config \<Rightarrow> i64 \<Rightarrow> string \<Rightarrow> queuedPlayer list \<Rightarrow> match_state \<Rightarrow> match_state \<times> sent list" where
  "matchPool w cfg nano matchType pool st =
     (let serverID = pickLeastLoaded cfg SvcRoomSvr (loadCounts st);
          matchID = match_id matchType nano;
          st1 = st\<lparr>activeMatches := fmupd matchID
            \<lparr>md_ServerID = serverID, md_MatchType = matchType, md_CreatedAt = nano\<rparr> (activeMatches st)\<rparr>
      in (incLoad serverID st1,
          map (result_push w matchID serverID matchType (playerIDs pool)) pool))"

definition queue_of :: "match_state \<Rightarrow> string \<Rightarrow> queuedPlayer list" where
  "queue_of st t = (case fmlookup (queues st) t of None \<Rightarrow> [] | Some q \<Rightarrow> q)"

definition handleEnter :: "wire \<Rightarrow> Config \<Rightarrow> i64 \<Rightarrow> Envelope \<Rightarrow> conn \<Rightarrow> match_state \<Rightarrow> match_state \<times> sent list" where
  "handleEnter w cfg nano env c st =
     (case unm_MatchEnterReq w (env_Data env) of
        None \<Rightarrow> (st, [])
      | Some req \<Rightarrow>
          let t = enterreq_MatchType req;
              player = \<lparr>qp_playerID = parse_int (mget (env_ConnTags env) TagPlayerID),
                qp_elo = enterreq_Elo req, qp_conn = c, qp_senderID = env_ConnId env\<rparr>;
              pool = queue_of st t @ [player];
              st1 = st\<lparr>queues := fmupd t pool (queues st)\<rparr>;
              needed = requiredPlayers t
          in if needed \<le> length pool
             then (case matchPool w cfg nano t (take needed pool) st1 of
                (st2, out) \<Rightarrow> (st2\<lparr>queues := fmupd t (drop needed pool) (queues st2)\<rparr>, out))
             else (st1, [Sent c (msg_number MATCH_ENTER_RESP)
                (mar_Envelope w \<lparr>env_ConnId = env_ConnId env,
                   env_Data = mar_MatchEnterResp w \<lparr>enterresp_Status = ''waiting'', enterresp_QueueSize = int (length pool)\<rparr>,
                   env_ConnTags = None\<rparr>)]))"

section \<open>The match directory\<close>

definition sendAllocateResp :: "wire \<Rightarrow> conn \<Rightarrow> u64 \<Rightarrow> string \<Rightarrow> string \<Rightarrow> string \<Rightarrow> sent list" where
  "sendAllocateResp w c senderID matchID serverID errMsg =
     (let tags0 = fmempty;
          tags1 = (if serverID \<noteq> '''' then fmupd TagRoomSvrID serverID tags0 else tags0);
          tags2 = (if matchID \<noteq> '''' then fmupd TagMatchID matchID tags1 else tags1)
      in [Sent c (msg_number MATCH_ALLOCATE_RESP)
           (mar_Envelope w \<lparr>env_ConnId = senderID,
              env_Data = mar_MatchAllocateResp w \<lparr>allocresp_MatchId = matchID, allocresp_ServerId = serverID, allocresp_Error = errMsg\<rparr>,
              env_ConnTags = Some tags2\<rparr>)])"

definition handleAllocate :: "wire \<Rightarrow> Config \<Rightarrow> i64 \<Rightarrow> Envelope \<Rightarrow> conn \<Rightarrow> match_state \<Rightarrow> match_state \<times> sent list" where
  "handleAllocate w cfg nano env c st =
     (case unm_MatchAllocateReq w (env_Data env) of
        None \<Rightarrow> (st, [])
      | Some req \<Rightarrow>
          let m = allocreq_MatchId req
          in if fmlookup (activeMatches st) m \<noteq> None
             then (st, sendAllocateResp w c (env_ConnId env) m '''' ''already exists'')
             else let serverID = pickLeastLoaded cfg SvcRoomSvr (loadCounts st)
                  in if serverID = '''' then (st, sendAllocateResp w c (env_ConnId env) m '''' ''no roomsvr available'')
                     else (incLoad serverID (st\<lparr>activeMatches := fmupd m
                             \<lparr>md_ServerID = serverID, md_MatchType = ''allocated'', md_CreatedAt = nano\<rparr> (activeMatches st)\<rparr>),
                           sendAllocateResp w c (env_ConnId env) m serverID ''''))"

definition handleQuery :: "wire \<Rightarrow> Envelope \<Rightarrow> conn \<Rightarrow> match_state \<Rightarrow> sent list" where
  "handleQuery w env c st =
     (case unm_MatchQueryReq w (env_Data env) of
        None \<Rightarrow> []
      | Some req \<Rightarrow>
          let m = queryreq_MatchId req;
              resp = (case fmlookup (activeMatches st) m of
                  None \<Rightarrow> \<lparr>queryresp_MatchId = m, queryresp_ServerId = '''', queryresp_Found = False\<rparr>
                | Some d \<Rightarrow> \<lparr>queryresp_MatchId = m, queryresp_ServerId = md_ServerID d, queryresp_Found = True\<rparr>);
              tags = (if queryresp_Found resp
                then fmupd TagMatchID m (fmupd TagRoomSvrID (queryresp_ServerId resp) fmempty) else fmempty)
          in [Sent c (msg_number MATCH_QUERY_RESP)
               (mar_Envelope w \<lparr>env_ConnId = env_ConnId env, env_Data = mar_MatchQueryResp w resp, env_ConnTags = Some tags\<rparr>)])"

definition handleDestroyed :: "wire \<Rightarrow> Envelope \<Rightarrow> match_state \<Rightarrow> match_state" where
  "handleDestroyed w env st =
     (case unm_RoomDestroyedPush w (env_Data env) of
        None \<Rightarrow> st
      | Some push \<Rightarrow>
         (case fmlookup (activeMatches st) (destroyed_MatchId push) of
            None \<Rightarrow> st
          | Some d \<Rightarrow> decLoad (md_ServerID d)
              (st\<lparr>activeMatches := fmdrop (destroyed_MatchId push) (activeMatches st)\<rparr>)))"

definition handleForceLeaveQueue :: "wire \<Rightarrow> bytes \<Rightarrow> match_state \<Rightarrow> match_state" where
  "handleForceLeaveQueue w body st =
     (case unm_SessionData w body of
        None \<Rightarrow> st
      | Some data \<Rightarrow>
          let t = mget (sd_ConnTags data) TagMatchType
          in case fmlookup (queues st) t of
            None \<Rightarrow> st
          | Some pool \<Rightarrow>
             (case find_idx (\<lambda>p. qp_playerID p = sd_PlayerId data) pool of
                None \<Rightarrow> st
              | Some i \<Rightarrow> st\<lparr>queues := fmupd t (remove_at i pool) (queues st)\<rparr>))"

definition MatchRouter_Handle ::
  "wire \<Rightarrow> Config \<Rightarrow> i64 \<Rightarrow> conn \<Rightarrow> u32 \<Rightarrow> bytes \<Rightarrow> match_state \<Rightarrow> match_state \<times> sent list" where
  "MatchRouter_Handle w cfg nano c msgID body st =
     (if msgID = msg_number SESSION_FORCE_LEAVE_QUEUE then (handleForceLeaveQueue w body st, [])
      else case unm_Envelope w body of
        None \<Rightarrow> (st, [])
      | Some env \<Rightarrow>
          if msgID = msg_number MATCH_ENTER_REQ then handleEnter w cfg nano env c st
          else if msgID = msg_number MATCH_ALLOCATE_REQ then handleAllocate w cfg nano env c st
          else if msgID = msg_number MATCH_QUERY_REQ then (st, handleQuery w env c st)
          else if msgID = msg_number ROOM_DESTROYED_PUSH then (handleDestroyed w env st, [])
          else (st, []))"

section \<open>Picking a server\<close>

lemma pick_loop_min:
  "\<forall>x\<in>set servers. load_of lc (sn_ID x) < i64_max \<Longrightarrow> load_of lc best = minCount \<or> minCount = i64_max \<and> servers \<noteq> [] \<Longrightarrow>
   (pick_loop lc servers best minCount = best \<or> pick_loop lc servers best minCount \<in> sn_ID ` set servers) \<and>
   (minCount = i64_max \<and> servers \<noteq> [] \<longrightarrow> pick_loop lc servers best minCount \<in> sn_ID ` set servers) \<and>
   load_of lc (pick_loop lc servers best minCount) \<le> minCount \<and>
   (\<forall>x\<in>set servers. load_of lc (pick_loop lc servers best minCount) \<le> load_of lc (sn_ID x))"
proof (induction servers arbitrary: best minCount)
  case (Cons srv servers)
  let ?n = "load_of lc (sn_ID srv)"
  have lt: "?n < i64_max" using Cons.prems(1) by simp
  show ?case
  proof (cases "?n < minCount")
    case True
    have "\<forall>x\<in>set servers. load_of lc (sn_ID x) < i64_max" using Cons.prems(1) by simp
    from Cons.IH [OF this, of "sn_ID srv" ?n] True show ?thesis
      by (auto simp: Let_def)
  next
    case False
    then have "minCount \<noteq> i64_max" using lt by auto
    then have "load_of lc best = minCount" using Cons.prems(2) by auto
    then show ?thesis
      using Cons.IH [of best minCount] Cons.prems(1) False \<open>minCount \<noteq> i64_max\<close> by (auto simp: Let_def)
  qed
qed auto

text \<open>
  The server picked for a match is one of the configured ones, and no configured server
  has fewer matches; with no server configured the pick is empty.
\<close>

theorem pickLeastLoaded_least:
  assumes "\<forall>x\<in>set (services cfg service). load_of lc (sn_ID x) < i64_max"
  shows "(services cfg service = [] \<longrightarrow> pickLeastLoaded cfg service lc = '''') \<and>
    (services cfg service \<noteq> [] \<longrightarrow>
      pickLeastLoaded cfg service lc \<in> sn_ID ` set (services cfg service) \<and>
      (\<forall>srv\<in>set (services cfg service). load_of lc (pickLeastLoaded cfg service lc) \<le> load_of lc (sn_ID srv)))"
  using pick_loop_min [OF assms, of "''''" i64_max] by (auto simp: pickLeastLoaded_def Let_def)

section \<open>Load counts\<close>

definition hosted :: "(string, matchDir) fmap \<Rightarrow> string \<Rightarrow> string set" where
  "hosted am s = {m. \<exists>d. fmlookup am m = Some d \<and> md_ServerID d = s}"

lemma finite_hosted [simp]: "finite (hosted am s)"
  by (rule finite_subset [of _ "fset (fmdom am)"]) (auto simp: hosted_def dest: fmdomI)

lemma hosted_upd:
  "fmlookup am m = None \<Longrightarrow> hosted (fmupd m d am) s = (if md_ServerID d = s then insert m (hosted am s) else hosted am s)"
  by (auto simp: hosted_def)

lemma hosted_drop:
  "fmlookup am m = Some d \<Longrightarrow> hosted (fmdrop m am) s = (if md_ServerID d = s then hosted am s - {m} else hosted am s)"
  by (auto simp: hosted_def split: if_splits)

lemma card_hosted_drop:
  assumes "fmlookup am m = Some d"
  shows "card (hosted (fmdrop m am) s) = (if md_ServerID d = s then card (hosted am s) - 1 else card (hosted am s))"
proof -
  have "m \<in> hosted am (md_ServerID d)"
    using assms by (simp add: hosted_def)
  then show ?thesis
    by (auto simp: hosted_drop [OF assms])
qed

text \<open>
  The count of a server is the number of active matches on it, and servers without matches
  have no entry.
\<close>

definition loads_ok :: "match_state \<Rightarrow> bool" where
  "loads_ok st \<longleftrightarrow> (\<forall>s. load_of (loadCounts st) s = int (card (hosted (activeMatches st) s))) \<and>
     fmpred (\<lambda>_ n. 0 < n) (loadCounts st)"

lemma load_of_upd [simp]: "load_of (fmupd s n lc) s' = (if s = s' then n else load_of lc s')"
  by (simp add: load_of_def)

lemma load_of_drop [simp]: "load_of (fmdrop s lc) s' = (if s = s' then 0 else load_of lc s')"
  by (simp add: load_of_def)

lemma loads_ok_start:
  assumes "loads_ok st" "fmlookup (activeMatches st) m = None" "md_ServerID d = s"
    and "int (card (hosted (activeMatches st) s)) < i64_max"
  shows "loads_ok (incLoad s (st\<lparr>activeMatches := fmupd m d (activeMatches st)\<rparr>))"
proof -
  have load: "load_of (loadCounts st) s = int (card (hosted (activeMatches st) s))"
    using assms(1) by (simp add: loads_ok_def)
  have "m \<notin> hosted (activeMatches st) s"
    using assms(2) by (simp add: hosted_def)
  moreover have "i64_wrap (load_of (loadCounts st) s + 1) = int (card (hosted (activeMatches st) s)) + 1"
    using assms(4) unfolding load by (intro i64_wrap_id) (simp add: i64_ok_def i64_min_def i64_max_def)
  ultimately show ?thesis
    using assms(1-3) by (auto simp: loads_ok_def incLoad_def hosted_upd fmpred_upd)
qed

lemma loads_ok_end:
  assumes "loads_ok st" "fmlookup (activeMatches st) m = Some d"
    and "int (card (hosted (activeMatches st) (md_ServerID d))) \<le> i64_max"
  shows "loads_ok (decLoad (md_ServerID d) (st\<lparr>activeMatches := fmdrop m (activeMatches st)\<rparr>))"
proof -
  let ?s = "md_ServerID d" and ?n = "card (hosted (activeMatches st) (md_ServerID d))"
  have in_h: "m \<in> hosted (activeMatches st) ?s"
    using assms(2) by (simp add: hosted_def)
  then have pos: "0 < ?n" by (auto simp: card_gt_0_iff)
  have load: "load_of (loadCounts st) s = int (card (hosted (activeMatches st) s))" for s
    using assms(1) by (simp add: loads_ok_def)
  then obtain v where v: "fmlookup (loadCounts st) ?s = Some v" "v = int ?n"
    using pos load [of ?s] by (cases "fmlookup (loadCounts st) ?s") (auto simp: load_of_def)
  have wrap: "i64_wrap (v - 1) = int ?n - 1"
    unfolding v(2) using assms(3) pos by (intro i64_wrap_id) (simp add: i64_ok_def i64_min_def i64_max_def)
  show ?thesis
    using assms(1) pos load v(1)
    by (auto simp: loads_ok_def decLoad_def wrap Let_def card_hosted_drop [OF assms(2)] fmpred_upd fmpred_iff of_nat_diff
        split: if_splits)
qed

lemma loads_ok_queues [simp]: "loads_ok (st\<lparr>queues := q\<rparr>) = loads_ok st"
  by (simp add: loads_ok_def)

lemma loads_ok_Handle:
  assumes "loads_ok st" "\<And>s. int (card (hosted (activeMatches st) s)) < i64_max"
    and "\<And>t. fmlookup (activeMatches st) (match_id t nano) = None"
  shows "loads_ok (fst (MatchRouter_Handle w cfg nano c msgID body st))"
proof -
  have enter: "loads_ok (fst (handleEnter w cfg nano env c st))" for env
    using assms loads_ok_start [of "st\<lparr>queues := q\<rparr>" for q]
    by (auto simp: handleEnter_def matchPool_def Let_def split: option.splits prod.splits)
  have alloc: "loads_ok (fst (handleAllocate w cfg nano env c st))" for env
    using assms(1,2) by (auto simp: handleAllocate_def Let_def intro!: loads_ok_start split: option.split)
  have "loads_ok (handleDestroyed w env st)" for env
    using assms(1,2) by (auto simp: handleDestroyed_def less_imp_le intro!: loads_ok_end split: option.split)
  moreover have "loads_ok (handleForceLeaveQueue w body st)"
    using assms(1) by (auto simp: handleForceLeaveQueue_def Let_def split: option.split)
  ultimately show ?thesis
    using enter alloc assms(1) by (auto simp: MatchRouter_Handle_def split: option.split)
qed

section \<open>Queues\<close>

definition queues_ok :: "match_state \<Rightarrow> bool" where
  "queues_ok st \<longleftrightarrow> (\<forall>t. length (queue_of st t) < requiredPlayers t)"

lemma requiredPlayers_ge2: "2 \<le> requiredPlayers t"
  by (simp add: requiredPlayers_def)

lemma queue_of_upd [simp]: "queue_of (st\<lparr>queues := fmupd t q (queues st')\<rparr>) t' = (if t = t' then q else queue_of st' t')"
  by (simp add: queue_of_def)

lemma queue_of_other [simp]:
  "queue_of (st\<lparr>activeMatches := am\<rparr>) t = queue_of st t"
  "queue_of (st\<lparr>loadCounts := lc\<rparr>) t = queue_of st t"
  by (simp_all add: queue_of_def)

lemma queue_of_incLoad [simp]: "queue_of (incLoad s st) t = queue_of st t"
  by (simp add: incLoad_def)

lemma queues_incLoad [simp]: "queues (incLoad s st) = queues st"
  by (simp add: incLoad_def)

lemma queue_of_decLoad [simp]: "queue_of (decLoad s st) t = queue_of st t"
  by (simp add: decLoad_def Let_def split: option.split)

lemma queues_ok_enter:
  assumes "queues_ok st"
  shows "queues_ok (fst (handleEnter w cfg nano env c st))"
proof -
  have lt: "length (queue_of st t) < requiredPlayers t" for t
    using assms by (simp add: queues_ok_def)
  have pos: "0 < requiredPlayers t" for t
    using requiredPlayers_ge2 [of t] by linarith
  show ?thesis
    using lt pos
    by (auto simp: handleEnter_def queues_ok_def matchPool_def Let_def Suc_le_eq split: option.split)
      (metis Suc_diff_le diff_is_0_eq' le_SucE less_imp_le_nat not_less pos)+
qed

lemma queues_ok_leave:
  assumes "queues_ok st"
  shows "queues_ok (handleForceLeaveQueue w body st)"
proof -
  have "length (remove_at i pool) < requiredPlayers t" if "fmlookup (queues st) t = Some pool" for t pool i
    using assms that by (auto simp: queues_ok_def queue_of_def remove_at_def dest!: spec [of _ t])
  then show ?thesis
    using assms by (auto simp: handleForceLeaveQueue_def queues_ok_def Let_def split: option.splits)
qed

lemma queues_ok_Handle:
  assumes "queues_ok st"
  shows "queues_ok (fst (MatchRouter_Handle w cfg nano c msgID body st))"
proof -
  have "queues_ok (fst (handleAllocate w cfg nano env c st))" "queues_ok (handleDestroyed w env st)" for env
    using assms by (auto simp: handleAllocate_def handleDestroyed_def queues_ok_def Let_def split: option.split)
  then show ?thesis
    using assms queues_ok_enter queues_ok_leave by (auto simp: MatchRouter_Handle_def split: option.split)
qed

section \<open>Reachable states\<close>

text \<open>
  The states of a service that handles any sequence of requests, one at a time, where the
  clock never gives the same match identifier twice among the active matches, and fewer
  matches than the largest integer are active on a server.
\<close>

inductive match_reach :: "wire \<Rightarrow> match_state \<Rightarrow> bool" for w where
  start: "match_reach w match_init"
| handle: "match_reach w st \<Longrightarrow> (\<And>t. fmlookup (activeMatches st) (match_id t nano) = None) \<Longrightarrow>
    (\<And>s. int (card (hosted (activeMatches st) s)) < i64_max) \<Longrightarrow>
    match_reach w (fst (MatchRouter_Handle w cfg nano c msgID body st))"

lemma match_reach_ok: "match_reach w st \<Longrightarrow> loads_ok st \<and> queues_ok st"
proof (induction rule: match_reach.induct)
  case start
  have "0 < requiredPlayers t" for t
    using requiredPlayers_ge2 [of t] by linarith
  then show ?case
    by (simp add: match_init_def loads_ok_def queues_ok_def queue_of_def load_of_def hosted_def)
next
  case (handle st nano cfg c msgID body)
  then show ?case
    using loads_ok_Handle queues_ok_Handle by blast
qed

text \<open>
  C4: In every reachable state the load count of a server is the number of active matches
  assigned to it, servers without matches have no count, and every queue is shorter than
  the number of players its match type needs.
\<close>

theorem match_invariant:
  assumes "match_reach w st"
  shows "(\<forall>s. load_of (loadCounts st) s = int (card (hosted (activeMatches st) s))) \<and>
    fmpred (\<lambda>_ n. 0 < n) (loadCounts st) \<and>
    (\<forall>t. length (queue_of st t) < requiredPlayers t)"
  using match_reach_ok [OF assms] by (simp add: loads_ok_def queues_ok_def)

text \<open>A destroyed room frees its match, and its server carries one match less.\<close>

lemma destroyed_frees:
  assumes "unm_Envelope w body = Some env" "unm_RoomDestroyedPush w (env_Data env) = Some \<lparr>destroyed_MatchId = m\<rparr>"
    and "match_reach w st" "fmlookup (activeMatches st) m = Some d" "load_of (loadCounts st) (md_ServerID d) \<le> i64_max"
    and "st' = fst (MatchRouter_Handle w cfg nano c (msg_number ROOM_DESTROYED_PUSH) body st)"
  shows "activeMatches st' = fmdrop m (activeMatches st) \<and>
    load_of (loadCounts st') (md_ServerID d) = load_of (loadCounts st) (md_ServerID d) - 1"
proof -
  have ok: "loads_ok st" using match_reach_ok [OF assms(3)] by simp
  have st': "st' = decLoad (md_ServerID d) (st\<lparr>activeMatches := fmdrop m (activeMatches st)\<rparr>)"
    using assms by (simp add: MatchRouter_Handle_def handleDestroyed_def)
  then have act: "activeMatches st' = fmdrop m (activeMatches st)"
    by (simp add: decLoad_def Let_def split: option.split)
  have "loads_ok st'"
    unfolding st' using ok assms(4,5) by (intro loads_ok_end) (simp_all add: loads_ok_def)
  then have "load_of (loadCounts st') (md_ServerID d) = int (card (hosted (activeMatches st) (md_ServerID d)) - 1)"
    using act card_hosted_drop [OF assms(4), of "md_ServerID d"] by (simp add: loads_ok_def)
  moreover have "m \<in> hosted (activeMatches st) (md_ServerID d)"
    using assms(4) by (simp add: hosted_def)
  then have "0 < card (hosted (activeMatches st) (md_ServerID d))"
    by (auto simp: card_gt_0_iff)
  ultimately show ?thesis
    using act ok by (simp add: loads_ok_def of_nat_diff)
qed

section \<open>Matching\<close>

text \<open>
  C16: The player who completes a queue starts a match: all queued players, in the order in
  which they came and the new one last, get one result on the connection and for the
  client they came from, the queue is empty, and the match is in the directory under the
  server that was picked and the identifier that the results carry.
\<close>

theorem enter_completes_match:
  assumes "unm_MatchEnterReq w (env_Data env) = Some req" "t = enterreq_MatchType req"
    and "Suc (length (queue_of st t)) = requiredPlayers t"
    and "pool = queue_of st t @ [\<lparr>qp_playerID = parse_int (mget (env_ConnTags env) TagPlayerID),
      qp_elo = enterreq_Elo req, qp_conn = c, qp_senderID = env_ConnId env\<rparr>]"
    and "handleEnter w cfg nano env c st = (st', out)"
  shows "out = map (\<lambda>p. Sent (qp_conn p) (msg_number MATCH_RESULT_PUSH) (mar_Envelope w
        \<lparr>env_ConnId = qp_senderID p,
         env_Data = mar_MatchResultPush w \<lparr>result_MatchId = match_id t nano,
           result_ServerId = pickLeastLoaded cfg SvcRoomSvr (loadCounts st),
           result_Players = map qp_playerID pool, result_MatchType = t\<rparr>,
         env_ConnTags = Some (fmupd TagMatchID (match_id t nano)
           (fmupd TagRoomSvrID (pickLeastLoaded cfg SvcRoomSvr (loadCounts st)) fmempty))\<rparr>)) pool \<and>
    queue_of st' t = [] \<and>
    fmlookup (activeMatches st') (match_id t nano) = Some \<lparr>md_ServerID = pickLeastLoaded cfg SvcRoomSvr (loadCounts st),
      md_MatchType = t, md_CreatedAt = nano\<rparr>"
  using assms
  by (auto simp: handleEnter_def matchPool_def Let_def result_push_def playerIDs_def incLoad_def)

text \<open>
  A player who does not complete the queue waits: the player is added at the end of the
  queue of the requested type, no other queue, match or count changes, and the reply says
  so with the length of the queue.
\<close>

theorem enter_waits:
  assumes "unm_MatchEnterReq w (env_Data env) = Some req" "t = enterreq_MatchType req"
    and "Suc (length (queue_of st t)) < requiredPlayers t"
    and "handleEnter w cfg nano env c st = (st', out)"
  shows "(\<exists>p. qp_playerID p = parse_int (mget (env_ConnTags env) TagPlayerID) \<and> qp_conn p = c \<and>
        qp_senderID p = env_ConnId env \<and> queue_of st' t = queue_of st t @ [p]) \<and>
    (\<forall>t'. t' \<noteq> t \<longrightarrow> queue_of st' t' = queue_of st t') \<and>
    activeMatches st' = activeMatches st \<and> loadCounts st' = loadCounts st \<and>
    out = [Sent c (msg_number MATCH_ENTER_RESP) (mar_Envelope w \<lparr>env_ConnId = env_ConnId env,
      env_Data = mar_MatchEnterResp w \<lparr>enterresp_Status = ''waiting'', enterresp_QueueSize = int (length (queue_of st t)) + 1\<rparr>,
      env_ConnTags = None\<rparr>)]"
  using assms by (auto simp: handleEnter_def Let_def add.commute)

text \<open>
  With no room server configured a full queue is still turned into a match: the players
  are told a match on the server with the empty identifier.
\<close>

theorem match_without_server:
  assumes "services cfg SvcRoomSvr = []"
  shows "\<exists>st'. matchPool w cfg nano t pool st =
      (st', map (result_push w (match_id t nano) '''' t (playerIDs pool)) pool) \<and>
    fmlookup (activeMatches st') (match_id t nano) = Some \<lparr>md_ServerID = '''', md_MatchType = t, md_CreatedAt = nano\<rparr>"
  using assms by (simp add: matchPool_def pickLeastLoaded_def Let_def incLoad_def)

section \<open>Allocating and querying\<close>

text \<open>
  An allocation that finds the identifier unused and a server puts the match on the
  server that the reply names, and a query for it then finds that server; once the room
  reports that it was destroyed, the match is gone and a query does not find it.
\<close>

theorem allocate_query_destroy:
  assumes "unm_MatchAllocateReq w (env_Data env) = Some \<lparr>allocreq_MatchId = m\<rparr>"
    and "unm_MatchQueryReq w (env_Data q) = Some \<lparr>queryreq_MatchId = m\<rparr>"
    and "unm_RoomDestroyedPush w (env_Data x) = Some \<lparr>destroyed_MatchId = m\<rparr>"
    and "fmlookup (activeMatches st) m = None"
    and "s = pickLeastLoaded cfg SvcRoomSvr (loadCounts st)" "s \<noteq> ''''"
    and "handleAllocate w cfg nano env c st = (st', out)"
  shows "out = sendAllocateResp w c (env_ConnId env) m s '''' \<and>
    handleQuery w q c' st' = [Sent c' (msg_number MATCH_QUERY_RESP) (mar_Envelope w \<lparr>env_ConnId = env_ConnId q,
      env_Data = mar_MatchQueryResp w \<lparr>queryresp_MatchId = m, queryresp_ServerId = s, queryresp_Found = True\<rparr>,
      env_ConnTags = Some (fmupd TagMatchID m (fmupd TagRoomSvrID s fmempty))\<rparr>)] \<and>
    activeMatches (handleDestroyed w x st') = activeMatches st \<and>
    handleQuery w q c' (handleDestroyed w x st') = [Sent c' (msg_number MATCH_QUERY_RESP) (mar_Envelope w \<lparr>env_ConnId = env_ConnId q,
      env_Data = mar_MatchQueryResp w \<lparr>queryresp_MatchId = m, queryresp_ServerId = '''', queryresp_Found = False\<rparr>,
      env_ConnTags = Some fmempty\<rparr>)]"
proof -
  let ?d = "\<lparr>md_ServerID = s, md_MatchType = ''allocated'', md_CreatedAt = nano\<rparr>"
  have st': "st' = incLoad s (st\<lparr>activeMatches := fmupd m ?d (activeMatches st)\<rparr>)"
    and out: "out = sendAllocateResp w c (env_ConnId env) m s ''''"
    using assms by (auto simp: handleAllocate_def Let_def)
  have am: "activeMatches st' = fmupd m ?d (activeMatches st)"
    by (simp add: st' incLoad_def)
  have "activeMatches (decLoad s st'') = activeMatches st''" for st''
    by (simp add: decLoad_def Let_def split: option.split)
  then have am2: "activeMatches (handleDestroyed w x st') = fmdrop m (fmupd m ?d (activeMatches st))"
    by (simp add: handleDestroyed_def assms(3) am)
  moreover have "fmdrop m (fmupd m ?d (activeMatches st)) = activeMatches st"
    by (rule fmap_ext) (use assms(4) in auto)
  ultimately show ?thesis
    using assms(2,4) out by (simp add: handleQuery_def am Let_def)
qed

text \<open>
  When the session of a queued player has expired, the force-leave message takes the
  player's first entry out of the queue it names and keeps the order of the others; other
  queues, the directory and the counts stay as they are.
\<close>

theorem force_leave_queue:
  assumes "unm_SessionData w body = Some d" "t = mget (sd_ConnTags d) TagMatchType"
    and "queue_of st t = xs @ p # ys" "qp_playerID p = sd_PlayerId d" "\<forall>x\<in>set xs. qp_playerID x \<noteq> sd_PlayerId d"
  shows "fst (MatchRouter_Handle w cfg nano c (msg_number SESSION_FORCE_LEAVE_QUEUE) body st) =
    st\<lparr>queues := fmupd t (xs @ ys) (queues st)\<rparr>"
proof -
  obtain pool where pool: "fmlookup (queues st) t = Some pool" "pool = xs @ p # ys"
    using assms(3) by (auto simp: queue_of_def split: option.splits)
  have "find_idx (\<lambda>p. qp_playerID p = sd_PlayerId d) (xs @ p # ys) = Some (length xs)"
    using assms(4,5) by (induction xs) auto
  then show ?thesis
    using assms(1,2) pool
    by (simp add: MatchRouter_Handle_def handleForceLeaveQueue_def Let_def remove_at_def)
qed

section \<open>Concrete runs\<close>

definition match_cfg :: Config where
  "match_cfg = empty_Config\<lparr>cf_Services := fmupd SvcRoomSvr
     [\<lparr>sn_ID = ''r1'', sn_TCPListen = '''', sn_WSListen = '''', sn_Listen = ''gs:1'', sn_PublicAddr = ''''\<rparr>,
      \<lparr>sn_ID = ''r2'', sn_TCPListen = '''', sn_WSListen = '''', sn_Listen = ''gs:2'', sn_PublicAddr = ''''\<rparr>] fmempty\<rparr>"

definition enter_env :: "i64 \<Rightarrow> Envelope" where
  "enter_env pid = \<lparr>env_ConnId = 3, env_Data = mar_MatchEnterReq pb_wire \<lparr>enterreq_MatchType = ''1v1'', enterreq_Elo = 0\<rparr>,
     env_ConnTags = Some (fmupd TagPlayerID (FormatInt pid) fmempty)\<rparr>"

lemma enter_env_read:
  "unm_MatchEnterReq pb_wire (env_Data (enter_env pid)) = Some \<lparr>enterreq_MatchType = ''1v1'', enterreq_Elo = 0\<rparr>"
  by (simp add: enter_env_def pb.MatchEnterReq_roundtrip pb_str_ok utf8_ok_def i64_ok_def i64_min_def i64_max_def)

definition one_waiting :: match_state where
  "one_waiting = match_init\<lparr>queues := fmupd ''1v1'' [\<lparr>qp_playerID = 7, qp_elo = 0, qp_conn = 1, qp_senderID = 2\<rparr>] fmempty,
     loadCounts := fmupd ''r1'' 1 fmempty\<rparr>"

lemma match_cfg_services [simp]: "map sn_ID (services match_cfg SvcRoomSvr) = [''r1'', ''r2'']"
  by (simp add: match_cfg_def services_def)

lemma match_cfg_pick: "pickLeastLoaded match_cfg SvcRoomSvr (loadCounts one_waiting) = ''r2''"
  by (simp add: pickLeastLoaded_def match_cfg_def services_def one_waiting_def load_of_def i64_max_def Let_def)

theorem pickLeastLoaded_least_witness:
  "pickLeastLoaded match_cfg SvcRoomSvr (loadCounts one_waiting) = ''r2'' \<and>
   list_all (\<lambda>srv. load_of (loadCounts one_waiting) ''r2'' \<le> load_of (loadCounts one_waiting) (sn_ID srv)) (services match_cfg SvcRoomSvr)"
proof -
  have "\<forall>x\<in>set (services match_cfg SvcRoomSvr). load_of (loadCounts one_waiting) (sn_ID x) < i64_max"
    "services match_cfg SvcRoomSvr \<noteq> []"
    by (simp_all add: match_cfg_def services_def one_waiting_def load_of_def i64_max_def)
  then show ?thesis
    using pickLeastLoaded_least [of match_cfg SvcRoomSvr "loadCounts one_waiting"] match_cfg_pick by (simp add: list_all_iff)
qed

theorem match_invariant_witness:
  "\<exists>st. match_reach pb_wire st \<and> queue_of st ''1v1'' \<noteq> [] \<and> length (queue_of st ''1v1'') < requiredPlayers ''1v1''"
proof -
  let ?st = "fst (MatchRouter_Handle pb_wire match_cfg 5 1 (msg_number MATCH_ENTER_REQ) (mar_Envelope pb_wire (enter_env 8)) match_init)"
  have reach: "match_reach pb_wire ?st"
    by (rule match_reach.handle [OF match_reach.start]) (simp_all add: match_init_def hosted_def i64_max_def)
  have tags: "tags_ok pb_wire (env_ConnTags (enter_env 8))"
    using utf8_ok_ascii [of TagPlayerID]
    by (simp add: enter_env_def) (intro tags_ok_upd, simp_all add: pb_str_ok utf8_ok_FormatInt TagPlayerID_def)
  have "queue_of ?st ''1v1'' \<noteq> []"
    using enter_env_read [of 8] tags
    by (auto simp: MatchRouter_Handle_def pb.Envelope_roundtrip handleEnter_def Let_def requiredPlayers_def queue_of_def match_init_def)
  then show ?thesis
    using reach match_invariant [OF reach] by blast
qed

theorem enter_completes_match_witness:
  "\<exists>st' out. handleEnter pb_wire match_cfg 5 (enter_env 8) 4 one_waiting = (st', out) \<and>
     map sent_to out = [1, 4] \<and> queue_of st' ''1v1'' = [] \<and>
     fmlookup (activeMatches st') (match_id ''1v1'' 5) = Some \<lparr>md_ServerID = ''r2'', md_MatchType = ''1v1'', md_CreatedAt = 5\<rparr>"
proof -
  obtain st' out where run: "handleEnter pb_wire match_cfg 5 (enter_env 8) 4 one_waiting = (st', out)"
    by fastforce
  have "Suc (length (queue_of one_waiting ''1v1'')) = requiredPlayers ''1v1''"
    by (simp add: queue_of_def one_waiting_def requiredPlayers_def)
  from enter_completes_match [OF enter_env_read _ _ refl run] this show ?thesis
    using run match_cfg_pick by (auto simp: queue_of_def one_waiting_def)
qed

theorem enter_waits_witness:
  "\<exists>st' out. handleEnter pb_wire match_cfg 5 (enter_env 8) 4 match_init = (st', out) \<and>
     length (queue_of st' ''1v1'') = 1 \<and> activeMatches st' = fmempty"
proof -
  obtain st' out where run: "handleEnter pb_wire match_cfg 5 (enter_env 8) 4 match_init = (st', out)"
    by fastforce
  have "Suc (length (queue_of match_init ''1v1'')) < requiredPlayers ''1v1''"
    by (simp add: queue_of_def match_init_def requiredPlayers_def)
  from enter_waits [OF enter_env_read _ _ run] this show ?thesis
    using run by (auto simp: queue_of_def match_init_def)
qed

theorem match_without_server_witness:
  "\<exists>st'. matchPool pb_wire empty_Config 5 ''1v1'' [] match_init = (st', []) \<and>
     fmlookup (activeMatches st') (match_id ''1v1'' 5) = Some \<lparr>md_ServerID = '''', md_MatchType = ''1v1'', md_CreatedAt = 5\<rparr>"
  using match_without_server [of empty_Config pb_wire 5 "''1v1''" "[]" match_init]
  by (simp add: services_def empty_Config_def)

theorem allocate_query_destroy_witness:
  "\<exists>st' out. handleAllocate pb_wire match_cfg 5
       \<lparr>env_ConnId = 3, env_Data = mar_MatchAllocateReq pb_wire \<lparr>allocreq_MatchId = ''m''\<rparr>, env_ConnTags = None\<rparr> 4 one_waiting = (st', out) \<and>
     out = sendAllocateResp pb_wire 4 3 ''m'' ''r2'' ''''"
proof -
  let ?env = "\<lambda>b. \<lparr>env_ConnId = 3, env_Data = b, env_ConnTags = None\<rparr>"
  obtain st' out where run: "handleAllocate pb_wire match_cfg 5 (?env (mar_MatchAllocateReq pb_wire \<lparr>allocreq_MatchId = ''m''\<rparr>)) 4 one_waiting = (st', out)"
    by fastforce
  have ok: "str_ok pb_wire ''m''"
    by (simp add: pb_str_ok utf8_ok_def)
  have "out = sendAllocateResp pb_wire 4 3 ''m'' ''r2'' ''''"
    using allocate_query_destroy [of pb_wire "?env (mar_MatchAllocateReq pb_wire \<lparr>allocreq_MatchId = ''m''\<rparr>)" "''m''"
        "?env (mar_MatchQueryReq pb_wire \<lparr>queryreq_MatchId = ''m''\<rparr>)"
        "?env (mar_RoomDestroyedPush pb_wire \<lparr>destroyed_MatchId = ''m''\<rparr>)" one_waiting "''r2''" match_cfg 5 4 st' out 4] run
    by (simp add: ok pb.MatchAllocateReq_roundtrip pb.MatchQueryReq_roundtrip pb.RoomDestroyedPush_roundtrip match_cfg_pick)
      (simp add: one_waiting_def match_init_def)
  then show ?thesis
    using run by blast
qed

theorem force_leave_queue_witness:
  "fst (MatchRouter_Handle pb_wire match_cfg 5 1 (msg_number SESSION_FORCE_LEAVE_QUEUE)
      (mar_SessionData pb_wire \<lparr>sd_PlayerId = 7, sd_GatewayId = '''', sd_ConnTags = Some (fmupd TagMatchType ''1v1'' fmempty),
        sd_DisconnectedAt = 0\<rparr>) one_waiting) = one_waiting\<lparr>queues := fmupd ''1v1'' [] (queues one_waiting)\<rparr>"
proof -
  let ?d = "\<lparr>sd_PlayerId = 7, sd_GatewayId = '''', sd_ConnTags = Some (fmupd TagMatchType ''1v1'' fmempty), sd_DisconnectedAt = 0\<rparr>"
  have "tags_ok pb_wire (Some (fmupd TagMatchType ''1v1'' fmempty))"
    by (intro tags_ok_upd) (simp_all add: pb_str_ok TagMatchType_def utf8_ok_def)
  then have read: "unm_SessionData pb_wire (mar_SessionData pb_wire ?d) = Some ?d"
    by (simp add: pb.SessionData_roundtrip i64_ok_def i64_min_def i64_max_def pb_str_ok utf8_ok_def)
  from force_leave_queue [OF read, of "''1v1''" one_waiting "[]" "\<lparr>qp_playerID = 7, qp_elo = 0, qp_conn = 1, qp_senderID = 2\<rparr>" "[]"]
  show ?thesis
    by (simp add: queue_of_def one_waiting_def)
qed

end
