(* ===== verification/Pool.thy ===== *)
theory Pool
  imports Conf
begin

text \<open>
  pkg/pool.go: the routing strategies and the pool of backend connections. Go's random
  choice and the outcome of each connection attempt are arguments; an attempt that
  succeeds delivers a new connection object. The callbacks of the network client are the
  parts of the operations that run when the connection comes up or goes down. The result
  of an operation carries the connection properties, the messages sent and the
  connections stopped, where it changes them.
\<close>

section \<open>Routing strategies\<close>

fun DirectRoute :: "props \<Rightarrow> string \<Rightarrow> conn list \<Rightarrow> conn option" where
  "DirectRoute ps key [] = None"
| "DirectRoute ps key (c # healthy) =
     (case GetProperty ps c PropServerID of
        Some v \<Rightarrow> if Sprint v = key then Some c else DirectRoute ps key healthy
      | None \<Rightarrow> DirectRoute ps key healthy)"

text \<open>The 32 bit FNV-1a hash of hash/fnv.\<close>

definition fnv32a :: "bytes \<Rightarrow> u32" where
  "fnv32a s = fold (\<lambda>c h. (h XOR of_nat (of_char c)) * 16777619) s 2166136261"

definition HashRoute :: "string \<Rightarrow> conn list \<Rightarrow> conn option" where
  "HashRoute key healthy =
     (if healthy = [] then None else Some (healthy ! (unat (fnv32a key) mod length healthy)))"

text \<open>The number drawn is reduced to the range that rand.Intn promises.\<close>

definition RandomRoute :: "nat \<Rightarrow> string \<Rightarrow> conn list \<Rightarrow> conn option" where
  "RandomRoute rnd key healthy =
     (if healthy = [] then None else Some (healthy ! (rnd mod length healthy)))"

datatype RouteFunc = ByHash | ByRandom | ByServerID

definition RouteFuncFor :: "string \<Rightarrow> RouteFunc" where
  "RouteFuncFor routeType =
     (if routeType = ''random'' then ByRandom
      else if routeType = ''direct'' then ByServerID
      else ByHash)"

definition apply_route :: "RouteFunc \<Rightarrow> nat \<Rightarrow> props \<Rightarrow> string \<Rightarrow> conn list \<Rightarrow> conn option" where
  "apply_route f rnd ps key healthy =
     (case f of ByHash \<Rightarrow> HashRoute key healthy
      | ByRandom \<Rightarrow> RandomRoute rnd key healthy
      | ByServerID \<Rightarrow> DirectRoute ps key healthy)"

section \<open>Pool state\<close>

type_synonym router_table = "(u32 \<times> router) list"

record connEntry =
  ce_addr :: string
  ce_routers :: router_table
  ce_identity :: string
  ce_client :: "router_table option"
  ce_conn :: "conn option"
  ce_healthy :: bool
  ce_stopped :: bool
  ce_backoff :: i64
  ce_reconnecting :: bool
  ce_failLogged :: bool

record Pool =
  pool_conns :: "connEntry list"
  pool_routeFn :: RouteFunc

definition reconnectMaxBackoff :: i64 where
  "reconnectMaxBackoff = 5000000000"

definition reconnectInitBackoff :: i64 where
  "reconnectInitBackoff = 200000000"

definition dialBackoff :: i64 where
  "dialBackoff = 1000000000"

definition new_entry :: "string \<Rightarrow> router_table \<Rightarrow> string \<Rightarrow> i64 \<Rightarrow> connEntry" where
  "new_entry addr routers ident backoff = \<lparr>ce_addr = addr, ce_routers = routers, ce_identity = ident,
     ce_client = None, ce_conn = None, ce_healthy = False, ce_stopped = False, ce_backoff = backoff,
     ce_reconnecting = False, ce_failLogged = False\<rparr>"

definition NewPool :: "conn option list \<Rightarrow> ServerNode list \<Rightarrow> router_table \<Rightarrow> RouteFunc \<Rightarrow> Pool option" where
  "NewPool conns servers routers f =
     (if length servers < length conns then None
      else Some \<lparr>pool_conns =
          map2 (\<lambda>c s. (new_entry (sn_Listen s) routers '''' reconnectInitBackoff)
                  \<lparr>ce_conn := c, ce_healthy := (c \<noteq> None)\<rparr>) conns servers,
        pool_routeFn = f\<rparr>)"

section \<open>Reading the pool\<close>

definition live :: "connEntry \<Rightarrow> bool" where
  "live e \<longleftrightarrow> ce_healthy e \<and> ce_conn e \<noteq> None \<and> \<not> ce_stopped e"

definition HealthyConns :: "Pool \<Rightarrow> conn list" where
  "HealthyConns p = map (\<lambda>e. the (ce_conn e)) (filter live (pool_conns p))"

definition ServerAddrs :: "Pool \<Rightarrow> string list" where
  "ServerAddrs p = map ce_addr (filter (\<lambda>e. \<not> ce_stopped e) (pool_conns p))"

definition Route :: "nat \<Rightarrow> props \<Rightarrow> Pool \<Rightarrow> string \<Rightarrow> conn option" where
  "Route rnd ps p key = apply_route (pool_routeFn p) rnd ps key (HealthyConns p)"

section \<open>Connection events\<close>

definition identity_msg :: "string \<Rightarrow> conn \<Rightarrow> sent list" where
  "identity_msg ident c = (if ident \<noteq> '''' then [Sent c (msg_number SERVICE_IDENTITY) ident] else [])"

definition upd_entry :: "nat \<Rightarrow> (connEntry \<Rightarrow> connEntry) \<Rightarrow> Pool \<Rightarrow> Pool" where
  "upd_entry i f p = p\<lparr>pool_conns := (pool_conns p)[i := f (pool_conns p ! i)]\<rparr>"

definition mark_down :: "connEntry \<Rightarrow> connEntry" where
  "mark_down e =
     (let e1 = e\<lparr>ce_healthy := False, ce_conn := None\<rparr>
      in if ce_reconnecting e1 \<or> ce_stopped e1 then e1 else e1\<lparr>ce_reconnecting := True\<rparr>)"

text \<open>
  The flag says whether a reconnect loop is started. An index outside of the pool, which
  panics, is \<open>None\<close>.
\<close>

definition OnDisconnect :: "nat \<Rightarrow> Pool \<Rightarrow> (Pool \<times> bool) option" where
  "OnDisconnect idx p =
     (if length (pool_conns p) \<le> idx then None
      else let e = pool_conns p ! idx
           in Some (upd_entry idx mark_down p, \<not> ce_reconnecting e \<and> \<not> ce_stopped e))"

text \<open>
  One round of the reconnect loop after its sleep: the connection the attempt delivered,
  or \<open>None\<close> for a timeout or a connection dropped at once. The flag says whether the loop
  goes on.
\<close>

definition reconnect_success :: "conn \<Rightarrow> connEntry \<Rightarrow> connEntry" where
  "reconnect_success c e = e\<lparr>ce_conn := Some c, ce_client := Some (ce_routers e), ce_healthy := True,
     ce_backoff := reconnectInitBackoff, ce_reconnecting := False, ce_failLogged := False\<rparr>"

definition reconnect_failure :: "connEntry \<Rightarrow> connEntry" where
  "reconnect_failure e =
     (if ce_stopped e then e
      else e\<lparr>ce_failLogged := True,
             ce_backoff := (if ce_backoff e < reconnectMaxBackoff then ce_backoff e * 2 else ce_backoff e)\<rparr>)"

definition reconnect_round :: "conn option \<Rightarrow> nat \<Rightarrow> Pool \<Rightarrow> Pool \<times> sent list \<times> bool" where
  "reconnect_round attempt idx p =
     (let e = pool_conns p ! idx
      in case attempt of
        Some c \<Rightarrow> (upd_entry idx (reconnect_success c) p, identity_msg (ce_identity e) c, False)
      | None \<Rightarrow> (upd_entry idx reconnect_failure p, [], \<not> ce_stopped e))"

text \<open>
  The loop over the outcomes of its attempts, with the time it has slept; the flag says that it
  still runs when the given attempts are used up.
\<close>

fun reconnectLoop :: "conn option list \<Rightarrow> nat \<Rightarrow> Pool \<Rightarrow> Pool \<times> sent list \<times> i64 \<times> bool" where
  "reconnectLoop [] idx p = (p, [], 0, True)"
| "reconnectLoop (attempt # attempts) idx p =
     (let delay = ce_backoff (pool_conns p ! idx)
      in case reconnect_round attempt idx p of
           (p1, out, False) \<Rightarrow> (p1, out, delay, False)
         | (p1, out, True) \<Rightarrow>
            (case reconnectLoop attempts idx p1 of (p2, out2, slept, go) \<Rightarrow> (p2, out @ out2, delay + slept, go)))"

section \<open>Dialing\<close>

text \<open>
  The entry of one server when Dial returns: connected, or waiting for a reconnect loop
  that Dial started after its timeout.
\<close>

definition dial_entry :: "router_table \<Rightarrow> string \<Rightarrow> ServerNode \<Rightarrow> conn option \<Rightarrow> connEntry" where
  "dial_entry routers ident srv attempt =
     (let e = new_entry (sn_Listen srv) routers ident dialBackoff
      in case attempt of
        Some c \<Rightarrow> e\<lparr>ce_conn := Some c, ce_client := Some routers, ce_healthy := True\<rparr>
      | None \<Rightarrow> mark_down e)"

definition dial_props :: "(ServerNode \<times> conn option) list \<Rightarrow> props \<Rightarrow> props" where
  "dial_props xs ps =
     fold (\<lambda>(srv, a) ps. case a of None \<Rightarrow> ps | Some c \<Rightarrow> SetProperty c PropServerID (PStr (sn_ID srv)) ps) xs ps"

definition Dial ::
  "Config \<Rightarrow> string \<Rightarrow> router_table \<Rightarrow> RouteFunc \<Rightarrow> string \<Rightarrow> conn option list \<Rightarrow> props
   \<Rightarrow> conf_panic + Pool \<times> props \<times> sent list" where
  "Dial cfg service routers f ident attempts ps =
     (let servers = services cfg service
      in if servers = [] then Inl NoneConfigured
         else case filter (\<lambda>s. isl (ParseHostPort (sn_Listen s))) servers of
           s # _ \<Rightarrow> Inl (projl (ParseHostPort (sn_Listen s)))
         | [] \<Rightarrow>
             let xs = zip servers attempts
             in Inr (\<lparr>pool_conns = map (\<lambda>(srv, a). dial_entry routers ident srv a) xs, pool_routeFn = f\<rparr>,
                     dial_props xs ps,
                     concat (map (\<lambda>(srv, a). case a of None \<Rightarrow> [] | Some c \<Rightarrow> identity_msg ident c) xs)))"

section \<open>Changing the pool\<close>

definition client_owns :: "conn \<Rightarrow> connEntry \<Rightarrow> bool" where
  "client_owns c e \<longleftrightarrow> ce_conn e = Some c \<and> ce_client e \<noteq> None"

definition AddConnectionRouter :: "conn \<Rightarrow> u32 \<Rightarrow> router \<Rightarrow> Pool \<Rightarrow> Pool" where
  "AddConnectionRouter c msgID router p =
     (case find_idx (client_owns c) (pool_conns p) of
        None \<Rightarrow> p
      | Some i \<Rightarrow> upd_entry i (\<lambda>e. e\<lparr>ce_client := map_option (\<lambda>t. t @ [(msgID, router)]) (ce_client e),
                                      ce_routers := ce_routers e @ [(msgID, router)]\<rparr>) p)"

text \<open>A server whose address does not parse panics; a timeout leaves a stopped entry.\<close>

definition AddServer ::
  "ServerNode \<Rightarrow> router_table \<Rightarrow> RouteFunc \<Rightarrow> string \<Rightarrow> conn option \<Rightarrow> Pool \<Rightarrow> props
   \<Rightarrow> conf_panic + Pool \<times> props \<times> sent list" where
  "AddServer srv routers f ident attempt p ps =
     (let e = new_entry (sn_Listen srv) routers ident reconnectInitBackoff
      in case ParseHostPort (sn_Listen srv) of
        Inl err \<Rightarrow> Inl err
      | Inr _ \<Rightarrow>
         (case attempt of
            Some c \<Rightarrow> Inr (\<lparr>pool_conns = pool_conns p
                              @ [e\<lparr>ce_conn := Some c, ce_client := Some routers, ce_healthy := True\<rparr>],
                            pool_routeFn = f\<rparr>,
                          SetProperty c PropServerID (PStr (sn_ID srv)) ps, identity_msg ident c)
          | None \<Rightarrow> Inr (\<lparr>pool_conns = pool_conns p @ [e\<lparr>ce_stopped := True\<rparr>], pool_routeFn = f\<rparr>, ps, [])))"

text \<open>The last result is the connection that is stopped, if any.\<close>

definition RemoveServer :: "string \<Rightarrow> Pool \<Rightarrow> Pool \<times> conn option" where
  "RemoveServer addr p =
     (case find_idx (\<lambda>e. ce_addr e = addr \<and> \<not> ce_stopped e) (pool_conns p) of
        None \<Rightarrow> (p, None)
      | Some i \<Rightarrow> (upd_entry i (\<lambda>e. e\<lparr>ce_stopped := True\<rparr>) p, ce_conn (pool_conns p ! i)))"

definition PoolClose :: "Pool \<Rightarrow> Pool \<times> conn list" where
  "PoolClose p = (p\<lparr>pool_conns := map (\<lambda>e. e\<lparr>ce_stopped := True\<rparr>) (pool_conns p)\<rparr>,
     List.map_filter ce_conn (pool_conns p))"

text \<open>
  Sync ranges over two maps; the orders are \<open>ws\<close>, the wanted addresses, and \<open>cs\<close>, the
  current ones. The attempt for a new server is looked up by address.
\<close>

definition wanted_map :: "ServerNode list \<Rightarrow> (string, ServerNode) fmap" where
  "wanted_map servers = fold (\<lambda>srv m. fmupd (sn_Listen srv) srv m) servers fmempty"

fun sync_add ::
  "string list \<Rightarrow> (string, ServerNode) fmap \<Rightarrow> string list \<Rightarrow> router_table \<Rightarrow> RouteFunc \<Rightarrow> string
   \<Rightarrow> (string \<Rightarrow> conn option) \<Rightarrow> Pool \<Rightarrow> props \<Rightarrow> conf_panic + Pool \<times> props \<times> sent list" where
  "sync_add current wanted [] routers f ident att p ps = Inr (p, ps, [])"
| "sync_add current wanted (a # ws) routers f ident att p ps =
     (if a \<in> set current then sync_add current wanted ws routers f ident att p ps
      else case fmlookup wanted a of
        None \<Rightarrow> sync_add current wanted ws routers f ident att p ps
      | Some srv \<Rightarrow>
          (case AddServer srv routers f ident (att a) p ps of
             Inl err \<Rightarrow> Inl err
           | Inr (p1, ps1, out) \<Rightarrow>
               (case sync_add current wanted ws routers f ident att p1 ps1 of
                  Inl err \<Rightarrow> Inl err
                | Inr (p2, ps2, out2) \<Rightarrow> Inr (p2, ps2, out @ out2))))"

fun sync_remove :: "(string, ServerNode) fmap \<Rightarrow> string list \<Rightarrow> Pool \<Rightarrow> Pool \<times> conn list" where
  "sync_remove wanted [] p = (p, [])"
| "sync_remove wanted (a # cs) p =
     (if a |\<in>| fmdom wanted then sync_remove wanted cs p
      else (case RemoveServer a p of (p1, c) \<Rightarrow>
        (case sync_remove wanted cs p1 of (p2, stopped) \<Rightarrow>
          (p2, (case c of None \<Rightarrow> stopped | Some x \<Rightarrow> x # stopped)))))"

definition Sync ::
  "ServerNode list \<Rightarrow> router_table \<Rightarrow> RouteFunc \<Rightarrow> string \<Rightarrow> string list \<Rightarrow> string list
   \<Rightarrow> (string \<Rightarrow> conn option) \<Rightarrow> Pool \<Rightarrow> props \<Rightarrow> conf_panic + Pool \<times> props \<times> sent list \<times> conn list" where
  "Sync servers routers f ident ws cs att p ps =
     (let wanted = wanted_map servers
      in case sync_add (ServerAddrs p) wanted ws routers f ident att p ps of
        Inl err \<Rightarrow> Inl err
      | Inr (p1, ps1, out) \<Rightarrow>
          (case sync_remove wanted cs p1 of (p2, stopped) \<Rightarrow> Inr (p2\<lparr>pool_routeFn := f\<rparr>, ps1, out, stopped)))"

section \<open>Strategies as an interface\<close>

text \<open>
  A strategy only ever picks one of the connections it is offered. The two that do not look
  at the connections pick one whenever there is one.
\<close>

locale strategy =
  fixes route :: "string \<Rightarrow> conn list \<Rightarrow> conn option"
  assumes route_in: "route key healthy = Some c \<Longrightarrow> c \<in> set healthy"
begin

lemma routes_live:
  assumes "route key (HealthyConns p) = Some c"
  shows "\<exists>e\<in>set (pool_conns p). live e \<and> ce_conn e = Some c"
  using route_in [OF assms] by (auto simp: HealthyConns_def live_def)

lemma routes_none: "HealthyConns p = [] \<Longrightarrow> route key (HealthyConns p) = None"
  using route_in [of key "[]"] by (cases "route key []") auto

end

locale total_strategy = strategy +
  assumes route_some: "healthy \<noteq> [] \<Longrightarrow> route key healthy \<noteq> None"
begin

lemma routes_iff: "route key (HealthyConns p) = None \<longleftrightarrow> (\<forall>e\<in>set (pool_conns p). \<not> live e)"
proof -
  have "HealthyConns p = [] \<longleftrightarrow> (\<forall>e\<in>set (pool_conns p). \<not> live e)"
    by (auto simp: HealthyConns_def filter_empty_conv)
  then show ?thesis
    using route_some [of "HealthyConns p" key] routes_none [of p key] by blast
qed

end

interpretation hash: total_strategy HashRoute
  by unfold_locales (auto simp: HashRoute_def split: if_splits)

interpretation rand: total_strategy "RandomRoute rnd" for rnd
  by unfold_locales (auto simp: RandomRoute_def split: if_splits)

lemma DirectRoute_find:
  "DirectRoute ps key healthy = find (\<lambda>c. map_option Sprint (GetProperty ps c PropServerID) = Some key) healthy"
  by (induction healthy) (auto split: option.splits)

interpretation direct: strategy "DirectRoute ps" for ps
  by unfold_locales (auto simp: DirectRoute_find find_Some_iff)

interpretation route: strategy "apply_route f rnd ps" for f rnd ps
  by unfold_locales
    (auto simp: apply_route_def dest: hash.route_in rand.route_in direct.route_in split: RouteFunc.splits)

section \<open>Removing and synchronizing\<close>

lemma addrs_stop_first:
  "find_idx (\<lambda>e. ce_addr e = a \<and> \<not> ce_stopped e) es = Some i \<Longrightarrow>
   map ce_addr (filter (\<lambda>e. \<not> ce_stopped e) (es[i := (es ! i)\<lparr>ce_stopped := True\<rparr>]))
     = remove1 a (map ce_addr (filter (\<lambda>e. \<not> ce_stopped e) es))"
  by (induction es arbitrary: i) (auto split: if_splits)

lemma ServerAddrs_Remove: "ServerAddrs (fst (RemoveServer a p)) = remove1 a (ServerAddrs p)"
proof (cases "find_idx (\<lambda>e. ce_addr e = a \<and> \<not> ce_stopped e) (pool_conns p)")
  case None
  then have "a \<notin> set (ServerAddrs p)"
    by (auto simp: ServerAddrs_def)
  then show ?thesis
    unfolding RemoveServer_def None by (simp add: remove1_idem)
next
  case (Some i)
  then show ?thesis
    using addrs_stop_first [OF Some] by (simp add: RemoveServer_def ServerAddrs_def upd_entry_def)
qed

lemma ServerAddrs_Add:
  "AddServer srv routers f ident a p ps = Inr (p', ps', out) \<Longrightarrow>
   ServerAddrs p' = ServerAddrs p @ (if a = None then [] else [sn_Listen srv])"
  by (auto simp: AddServer_def Let_def ServerAddrs_def new_entry_def split: sum.splits option.splits)

lemma wanted_map_lookup:
  "fmlookup (fold (\<lambda>srv m. fmupd (sn_Listen srv) srv m) servers m) a = Some srv \<Longrightarrow>
   (\<And>b x. fmlookup m b = Some x \<Longrightarrow> sn_Listen x = b) \<Longrightarrow> sn_Listen srv = a"
proof (induction servers arbitrary: m)
  case (Cons s servers)
  show ?case
    by (rule Cons.IH [of "fmupd (sn_Listen s) s m"]) (use Cons.prems in \<open>auto split: if_splits\<close>)
qed simp

lemma wanted_map_Listen: "fmlookup (wanted_map servers) a = Some srv \<Longrightarrow> sn_Listen srv = a"
  using wanted_map_lookup [of servers fmempty] by (simp add: wanted_map_def)

lemma fmdom_wanted_fold:
  "fset (fmdom (fold (\<lambda>srv m. fmupd (sn_Listen srv) srv m) servers m)) = sn_Listen ` set servers \<union> fset (fmdom m)"
  by (induction servers arbitrary: m) auto

lemma fmdom_wanted_map: "fset (fmdom (wanted_map servers)) = sn_Listen ` set servers"
  by (simp add: wanted_map_def fmdom_wanted_fold)

lemma ServerAddrs_sync_add:
  "sync_add current (wanted_map servers) ws routers f ident att p ps = Inr (p', ps', out) \<Longrightarrow>
   ServerAddrs p' = ServerAddrs p @
     filter (\<lambda>a. a \<notin> set current \<and> a |\<in>| fmdom (wanted_map servers) \<and> att a \<noteq> None) ws"
proof (induction ws arbitrary: p ps p' ps' out)
  case (Cons a ws)
  show ?case
  proof (cases "a \<in> set current \<or> fmlookup (wanted_map servers) a = None")
    case True
    then show ?thesis
      using Cons by (auto simp: fmlookup_dom_iff split: if_splits dest: fmdom_notI)
  next
    case False
    then obtain srv where srv: "fmlookup (wanted_map servers) a = Some srv" "a \<notin> set current"
      by auto
    with Cons.prems obtain p1 ps1 o1 p2 ps2 o2 where
      add: "AddServer srv routers f ident (att a) p ps = Inr (p1, ps1, o1)" and
      rest: "sync_add current (wanted_map servers) ws routers f ident att p1 ps1 = Inr (p', ps2, o2)"
      by (auto split: sum.splits)
    show ?thesis
      using Cons.IH [OF rest] ServerAddrs_Add [OF add] srv wanted_map_Listen [OF srv(1)]
      by (auto dest: fmdomI)
  qed
qed simp

lemma fold_remove1:
  "distinct xs \<Longrightarrow> fold (\<lambda>a xs. if a \<in> D then xs else remove1 a xs) cs xs = filter (\<lambda>a. a \<in> D \<or> a \<notin> set cs) xs"
proof (induction cs arbitrary: xs)
  case (Cons c cs)
  then show ?case
    by (auto simp: distinct_remove1_removeAll removeAll_filter_not_eq intro!: filter_cong)
qed simp

lemma ServerAddrs_sync_remove:
  "ServerAddrs (fst (sync_remove wanted cs p)) =
     fold (\<lambda>a xs. if a \<in> fset (fmdom wanted) then xs else remove1 a xs) cs (ServerAddrs p)"
proof (induction cs arbitrary: p)
  case (Cons a cs)
  then show ?case
    using ServerAddrs_Remove [of a p] by (auto split: prod.splits) (metis fst_conv)+
qed simp

text \<open>
  C18: After Sync has run to its end, the servers of the pool are the old ones that are still
  configured, followed by the newly configured ones that could be connected, each once, in
  whatever order the two maps were ranged over.
\<close>

theorem Sync_addrs:
  assumes "Sync servers routers f ident ws cs att p ps = Inr (p', ps', out, stopped)"
    and "distinct (ServerAddrs p)" "distinct ws" "set ws = sn_Listen ` set servers"
    and "set cs = set (ServerAddrs p)"
  shows "ServerAddrs p' = filter (\<lambda>a. a \<in> sn_Listen ` set servers) (ServerAddrs p)
      @ filter (\<lambda>a. a \<notin> set (ServerAddrs p) \<and> att a \<noteq> None) ws
    \<and> distinct (ServerAddrs p') \<and> pool_routeFn p' = f"
proof -
  let ?D = "sn_Listen ` set servers"
  obtain p1 where add: "sync_add (ServerAddrs p) (wanted_map servers) ws routers f ident att p ps = Inr (p1, ps', out)"
    and p': "p' = (fst (sync_remove (wanted_map servers) cs p1))\<lparr>pool_routeFn := f\<rparr>"
    using assms(1) by (auto simp: Sync_def Let_def split: sum.splits prod.splits)
  let ?N = "filter (\<lambda>a. a \<notin> set (ServerAddrs p) \<and> att a \<noteq> None) ws"
  have p1: "ServerAddrs p1 = ServerAddrs p @ ?N"
    using ServerAddrs_sync_add [OF add] assms(4) by (auto simp: fmdom_wanted_map intro!: filter_cong)
  have "ServerAddrs p' = ServerAddrs (fst (sync_remove (wanted_map servers) cs p1))"
    by (simp add: p' ServerAddrs_def)
  also have "\<dots> = filter (\<lambda>a. a \<in> ?D \<or> a \<notin> set cs) (ServerAddrs p @ ?N)"
    unfolding ServerAddrs_sync_remove fmdom_wanted_map p1
    using assms(2,3) by (intro fold_remove1) auto
  also have "\<dots> = filter (\<lambda>a. a \<in> ?D) (ServerAddrs p) @ ?N"
    using assms(4,5) by (auto intro!: arg_cong2 [where f = append] filter_cong)
  finally show ?thesis
    using assms(2,3) by (auto simp: p')
qed

definition sample_node :: ServerNode where
  "sample_node = \<lparr>sn_ID = ''r2'', sn_TCPListen = '''', sn_WSListen = '''', sn_Listen = ''gs:2'', sn_PublicAddr = ''''\<rparr>"

definition sample_pool :: Pool where
  "sample_pool = \<lparr>pool_conns = [(new_entry ''gs:1'' [] '''' dialBackoff)\<lparr>ce_conn := Some 1, ce_healthy := True\<rparr>],
     pool_routeFn = ByHash\<rparr>"

theorem Sync_addrs_witness:
  "\<exists>p' ps' out stopped. Sync [sample_node] [] ByServerID ''sessionsvr'' [''gs:2''] [''gs:1''] (\<lambda>_. Some 7) sample_pool fmempty
       = Inr (p', ps', out, stopped) \<and> ServerAddrs p' = [''gs:2'']"
proof -
  have "ParseHostPort ''gs:2'' = Inr (''gs'', 2)" by (simp add: addr_defs)
  then obtain p' ps' out stopped where
    "Sync [sample_node] [] ByServerID ''sessionsvr'' [''gs:2''] [''gs:1''] (\<lambda>_. Some 7) sample_pool fmempty = Inr (p', ps', out, stopped)"
    by (simp add: Sync_def Let_def wanted_map_def sample_node_def sample_pool_def ServerAddrs_def
        new_entry_def AddServer_def RemoveServer_def)
  from Sync_addrs [OF this] this show ?thesis
    by (auto simp: sample_node_def sample_pool_def ServerAddrs_def new_entry_def)
qed

section \<open>Routing properties\<close>

text \<open>
  C19: Route only returns a connection of an entry of the pool that is connected, healthy
  and not removed; with the hash and random strategies it returns one whenever the pool
  has such an entry, and with the direct strategy exactly when one of them has the key as
  its server identifier, which the returned connection then has.
\<close>

theorem Route_sound_complete:
  "(Route rnd ps p key = Some c \<longrightarrow> (\<exists>e\<in>set (pool_conns p). live e \<and> ce_conn e = Some c)) \<and>
   (pool_routeFn p \<noteq> ByServerID \<longrightarrow> (Route rnd ps p key = None \<longleftrightarrow> (\<forall>e\<in>set (pool_conns p). \<not> live e))) \<and>
   (pool_routeFn p = ByServerID \<longrightarrow>
     Route rnd ps p key = find (\<lambda>c. map_option Sprint (GetProperty ps c PropServerID) = Some key) (HealthyConns p))"
  using route.routes_live [of "pool_routeFn p" rnd ps key p c] hash.routes_iff [of key p] rand.routes_iff [of rnd key p]
  by (auto simp: Route_def apply_route_def DirectRoute_find split: RouteFunc.splits)

theorem Route_sound_complete_witness:
  "Route 0 fmempty sample_pool ''room-1'' = Some 1 \<and>
   (\<exists>e\<in>set (pool_conns sample_pool). live e \<and> ce_conn e = Some 1)"
proof -
  have "Route 0 fmempty sample_pool ''room-1'' = Some 1"
    by (simp add: Route_def sample_pool_def apply_route_def HashRoute_def HealthyConns_def live_def new_entry_def)
  then show ?thesis
    using Route_sound_complete [of 0 fmempty sample_pool "''room-1''" 1] by blast
qed

lemma HealthyConns_Close: "HealthyConns (fst (PoolClose p)) = []"
  by (simp add: HealthyConns_def PoolClose_def filter_map o_def live_def)

section \<open>Reconnecting\<close>

lemma reconnect_failures:
  assumes "\<not> ce_stopped e"
  shows "\<not> ce_stopped ((reconnect_failure ^^ n) e)"
  using assms by (induction n) (simp_all add: reconnect_failure_def)

lemma reconnect_failure_backoff:
  "\<not> ce_stopped e \<Longrightarrow>
   ce_backoff (reconnect_failure e) = (if ce_backoff e < reconnectMaxBackoff then ce_backoff e * 2 else ce_backoff e)"
  by (simp add: reconnect_failure_def)


lemma failure_delay:
  assumes "ce_backoff e = reconnectInitBackoff * 2 ^ min k 5" "\<not> ce_stopped e"
  shows "ce_backoff (reconnect_failure e) = reconnectInitBackoff * 2 ^ min (Suc k) 5"
proof (cases "k < 5")
  case True
  then have "k \<in> {0, 1, 2, 3, 4}" by auto
  then show ?thesis
    using assms by (auto simp: reconnect_failure_def reconnectInitBackoff_def reconnectMaxBackoff_def)
qed (use assms in \<open>simp add: reconnect_failure_def reconnectInitBackoff_def reconnectMaxBackoff_def min_def\<close>)

lemma upd_entry_same:
  assumes "idx < length (pool_conns p)"
  shows "pool_conns (upd_entry idx f p) ! idx = f (pool_conns p ! idx)" "length (pool_conns (upd_entry idx f p)) = length (pool_conns p)"
  using assms by (simp_all add: upd_entry_def)

lemma reconnectLoop_length: "length (pool_conns (fst (reconnectLoop attempts idx p))) = length (pool_conns p)"
proof (induction attempts arbitrary: p)
  case (Cons a attempts)
  show ?case
    using Cons.IH [of "fst (reconnect_round a idx p)"]
    by (auto simp: reconnect_round_def upd_entry_def Let_def split: prod.splits bool.splits option.splits)
qed simp

lemma reconnectLoop_run:
  assumes "idx < length (pool_conns p)" "e = pool_conns p ! idx" "\<not> ce_stopped e"
    and "ce_backoff e = reconnectInitBackoff * 2 ^ min k 5"
    and "reconnectLoop (replicate n None @ Some c # rest) idx p = (p', out, slept, go)"
  shows "\<not> go \<and> out = identity_msg (ce_identity e) c \<and> length (pool_conns p') = length (pool_conns p) \<and>
    pool_conns p' ! idx = e\<lparr>ce_conn := Some c, ce_client := Some (ce_routers e), ce_healthy := True,
      ce_backoff := reconnectInitBackoff, ce_reconnecting := False, ce_failLogged := False\<rparr> \<and>
    slept = (\<Sum>i = k..k + n. reconnectInitBackoff * 2 ^ min i 5)"
  using assms
proof (induction n arbitrary: p e k p' out slept go)
  case 0
  then show ?case
    by (auto simp: reconnect_round_def Let_def upd_entry_same reconnect_success_def)
next
  case (Suc n)
  let ?p = "upd_entry idx reconnect_failure p" and ?e = "reconnect_failure e"
  obtain out1 t where rest: "reconnectLoop (replicate n None @ Some c # rest) idx ?p = (p', out1, t, go)"
      "out = out1" "slept = reconnectInitBackoff * 2 ^ min k 5 + t"
    using Suc.prems by (auto simp: reconnect_round_def Let_def split: prod.splits)
  have e: "?e = pool_conns ?p ! idx" "\<not> ce_stopped ?e" "idx < length (pool_conns ?p)"
      "ce_identity ?e = ce_identity e" "ce_routers ?e = ce_routers e"
    using Suc.prems(1-3) by (simp_all add: upd_entry_same reconnect_failure_def)
  have "(\<Sum>i = k..k + Suc n. reconnectInitBackoff * 2 ^ min i 5) =
      reconnectInitBackoff * 2 ^ min k 5 + (\<Sum>i = Suc k..Suc k + n. reconnectInitBackoff * 2 ^ min i 5)"
    by (simp add: sum.atLeast_Suc_atMost)
  then show ?case
    using Suc.IH [OF e(3,1,2) failure_delay [OF Suc.prems(4,3)] rest(1)] rest(2,3) e(4,5) Suc.prems(1,3)
    by (simp add: upd_entry_same reconnect_failure_def)
qed



text \<open>
  A connection that a reconnect loop brings back is new and has no properties, and the
  loop does not set its server identifier: the direct strategy never selects it.
\<close>

theorem reconnected_not_direct:
  assumes "reconnect_round (Some c) idx p = (p', out, go)" "fmlookup ps c = None"
  shows "Route rnd ps (p'\<lparr>pool_routeFn := ByServerID\<rparr>) key \<noteq> Some c"
proof
  assume "Route rnd ps (p'\<lparr>pool_routeFn := ByServerID\<rparr>) key = Some c"
  then have "map_option Sprint (GetProperty ps c PropServerID) = Some key"
    by (auto simp: Route_def apply_route_def DirectRoute_find find_Some_iff)
  with assms(2) show False
    by (simp add: GetProperty_def)
qed

theorem reconnected_not_direct_witness:
  "Route 0 fmempty ((fst (reconnect_round (Some 9) 0 sample_pool))\<lparr>pool_routeFn := ByServerID\<rparr>) ''room-1'' \<noteq> Some 9"
proof -
  obtain p' out go where run: "reconnect_round (Some 9) 0 sample_pool = (p', out, go)"
    by (cases "reconnect_round (Some 9) 0 sample_pool")
  then show ?thesis
    using reconnected_not_direct [OF run, of fmempty 0 "''room-1''"] by simp
qed

text \<open>
  The events of a pool with the number of reconnect loops that run for each entry.
\<close>

type_synonym loops = "nat \<Rightarrow> nat"

inductive pool_step :: "Pool \<times> loops \<Rightarrow> Pool \<times> loops \<Rightarrow> bool" where
  down: "OnDisconnect i p = Some (p', start) \<Longrightarrow>
    pool_step (p, L) (p', if start then L(i := Suc (L i)) else L)"
| round: "i < length (pool_conns p) \<Longrightarrow> 0 < L i \<Longrightarrow> reconnect_round a i p = (p', out, go) \<Longrightarrow>
    pool_step (p, L) (p', if go then L else L(i := L i - 1))"
| add: "AddServer srv routers f ident a p ps = Inr (p', ps', out) \<Longrightarrow> pool_step (p, L) (p', L)"
| remove: "pool_step (p, L) (fst (RemoveServer addr p), L)"
| add_router: "pool_step (p, L) (AddConnectionRouter c m r p, L)"
| close: "pool_step (p, L) (fst (PoolClose p), L)"

definition loops_ok :: "Pool \<times> loops \<Rightarrow> bool" where
  "loops_ok s \<longleftrightarrow> (case s of (p, L) \<Rightarrow>
     (\<forall>i. 0 < L i \<longrightarrow> i < length (pool_conns p) \<and> L i = 1 \<and> ce_reconnecting (pool_conns p ! i)))"

lemma loops_okD:
  "loops_ok (p, L) \<Longrightarrow> 0 < L i \<Longrightarrow> i < length (pool_conns p) \<and> L i = 1 \<and> ce_reconnecting (pool_conns p ! i)"
  by (simp add: loops_ok_def)

lemma loops_okI:
  "(\<And>i. 0 < L i \<Longrightarrow> i < length (pool_conns p) \<and> L i = 1 \<and> ce_reconnecting (pool_conns p ! i)) \<Longrightarrow> loops_ok (p, L)"
  by (simp add: loops_ok_def)

lemma upd_entry_nth:
  "length (pool_conns (upd_entry i f p)) = length (pool_conns p)"
  "k < length (pool_conns p) \<Longrightarrow>
     pool_conns (upd_entry i f p) ! k = (if k = i then f (pool_conns p ! k) else pool_conns p ! k)"
  by (simp_all add: upd_entry_def nth_list_update)

lemma loops_ok_keep:
  assumes "loops_ok (p, L)" "length (pool_conns p) \<le> length (pool_conns p')"
    and "\<And>i. i < length (pool_conns p) \<Longrightarrow> ce_reconnecting (pool_conns p ! i) \<Longrightarrow> ce_reconnecting (pool_conns p' ! i)"
  shows "loops_ok (p', L)"
  using assms by (intro loops_okI) (auto dest: loops_okD)

lemma loops_ok_step: "pool_step s s' \<Longrightarrow> loops_ok s \<Longrightarrow> loops_ok s'"
proof (induction rule: pool_step.induct)
  case (down i p p' start L)
  then have i: "i < length (pool_conns p)" and p': "p' = upd_entry i mark_down p"
    and start: "start \<longleftrightarrow> \<not> ce_reconnecting (pool_conns p ! i) \<and> \<not> ce_stopped (pool_conns p ! i)"
    by (auto simp: OnDisconnect_def Let_def split: if_splits)
  have keep: "loops_ok (p', L)"
    by (rule loops_ok_keep [OF down.prems]) (auto simp: p' upd_entry_nth mark_down_def Let_def)
  show ?case
  proof (cases start)
    case True
    then have "L i = 0"
      using loops_okD [OF down.prems, of i] start by auto
    moreover have "ce_reconnecting (pool_conns p' ! i)"
      using True start i by (simp add: p' upd_entry_nth mark_down_def Let_def)
    ultimately have "loops_ok (p', L(i := Suc (L i)))"
      using i by (intro loops_okI) (auto simp: p' upd_entry_nth split: if_splits dest: loops_okD [OF keep])
    with True show ?thesis by simp
  qed (use keep in simp)
next
  case (round i p L a p' out go)
  then have L: "L i = 1"
    using loops_okD by blast
  show ?case
  proof (cases a)
    case None
    then have p': "p' = upd_entry i reconnect_failure p"
      using round by (simp add: reconnect_round_def Let_def)
    have "loops_ok (p', L)"
      by (rule loops_ok_keep [OF round.prems]) (auto simp: p' upd_entry_nth reconnect_failure_def)
    then show ?thesis
      using L by (auto intro!: loops_okI split: if_splits dest: loops_okD)
  next
    case (Some c)
    then have p': "p' = upd_entry i (reconnect_success c) p" and "\<not> go"
      using round by (simp_all add: reconnect_round_def Let_def)
    have "loops_ok (p', L(i := L i - 1))"
    proof (rule loops_okI)
      fix k assume "0 < (L(i := L i - 1)) k"
      then have "k \<noteq> i" "0 < L k"
        using L by (auto split: if_splits)
      then show "k < length (pool_conns p') \<and> (L(i := L i - 1)) k = 1 \<and> ce_reconnecting (pool_conns p' ! k)"
        using loops_okD [OF round.prems, of k] by (simp add: p' upd_entry_nth)
    qed
    with \<open>\<not> go\<close> show ?thesis by simp
  qed
next
  case (add srv routers f ident a p ps p' ps' out L)
  then show ?case
    by (intro loops_ok_keep [OF add.prems])
      (auto simp: AddServer_def Let_def nth_append split: sum.splits option.splits)
next
  case (remove p L addr)
  then show ?case
    by (intro loops_ok_keep [OF remove.prems])
      (auto simp: RemoveServer_def upd_entry_nth split: option.splits)
next
  case (add_router p L c m r)
  then show ?case
    by (intro loops_ok_keep [OF add_router.prems])
      (auto simp: AddConnectionRouter_def upd_entry_nth split: option.splits)
next
  case (close p L)
  then show ?case
    by (intro loops_ok_keep [OF close.prems]) (auto simp: PoolClose_def)
qed

text \<open>
  C20: However connections come and go and servers are added and removed, at most one
  reconnect loop runs for an entry of a pool.
\<close>

theorem single_reconnect_loop:
  assumes "pool_step\<^sup>*\<^sup>* (p, \<lambda>_. 0) (p', L)"
  shows "L i \<le> 1"
proof -
  have "loops_ok (p, \<lambda>_. 0)"
    by (simp add: loops_ok_def)
  with assms have "loops_ok (p', L)"
    by (induction rule: rtranclp_induct) (auto intro: loops_ok_step)
  then show ?thesis
    using loops_okD [of p' L i] by (cases "L i = 0") auto
qed

theorem single_reconnect_loop_witness:
  "\<exists>p' L. pool_step\<^sup>*\<^sup>* (sample_pool, \<lambda>_. 0) (p', L) \<and> L 0 = 1 \<and> L 0 \<le> 1"
proof -
  let ?p = "upd_entry 0 mark_down sample_pool"
  have "OnDisconnect 0 sample_pool = Some (?p, True)"
    by (simp add: OnDisconnect_def sample_pool_def new_entry_def)
  from pool_step.down [OF this, of "\<lambda>_. 0"]
  have step: "pool_step\<^sup>*\<^sup>* (sample_pool, \<lambda>_. 0) (?p, (\<lambda>_. 0)(0 := 1))"
    by auto
  from single_reconnect_loop [OF step, of 0] step show ?thesis
    by (intro exI [of _ ?p] exI [of _ "(\<lambda>_. 0)(0 := 1)"] conjI) simp_all
qed

end
