(* ===== verification/Registry.thy ===== *)
theory Registry
  imports Pool
begin

text \<open>
  pkg/registry.go: the pools of a service by backend name. The order in which
  CleanupBackends ranges over the map of pools only affects the order in which
  connections are stopped; it is the list \<open>names\<close>.
\<close>

record Registry =
  reg_backends :: "(string, Pool) fmap"
  reg_identity :: string

definition NewRegistry :: "string \<Rightarrow> Registry" where
  "NewRegistry ident = \<lparr>reg_backends = fmempty, reg_identity = ident\<rparr>"

definition RegistryDial ::
  "Config \<Rightarrow> string \<Rightarrow> router_table \<Rightarrow> RouteFunc \<Rightarrow> conn option list \<Rightarrow> Registry \<Rightarrow> props
   \<Rightarrow> conf_panic + Registry \<times> props \<times> sent list" where
  "RegistryDial cfg service routers f attempts r ps =
     (case Dial cfg service routers f (reg_identity r) attempts ps of
        Inl e \<Rightarrow> Inl e
      | Inr (pool, ps', out) \<Rightarrow> Inr (r\<lparr>reg_backends := fmupd service pool (reg_backends r)\<rparr>, ps', out))"

definition RouteTo :: "nat \<Rightarrow> props \<Rightarrow> Registry \<Rightarrow> string \<Rightarrow> string \<Rightarrow> conn option" where
  "RouteTo rnd ps r backend key =
     (case fmlookup (reg_backends r) backend of
        None \<Rightarrow> None
      | Some p \<Rightarrow> Route rnd ps p key)"

definition RegistryPool :: "Registry \<Rightarrow> string \<Rightarrow> Pool option" where
  "RegistryPool r backend = fmlookup (reg_backends r) backend"

fun CleanupBackends :: "string list \<Rightarrow> string set \<Rightarrow> Registry \<Rightarrow> Registry \<times> conn list" where
  "CleanupBackends [] keep r = (r, [])"
| "CleanupBackends (name # names) keep r =
     (case fmlookup (reg_backends r) name of
        None \<Rightarrow> CleanupBackends names keep r
      | Some pool \<Rightarrow>
          if name \<in> keep then CleanupBackends names keep r
          else (case CleanupBackends names keep (r\<lparr>reg_backends := fmdrop name (reg_backends r)\<rparr>) of
            (r', stopped) \<Rightarrow> (r', snd (PoolClose pool) @ stopped)))"

definition SyncBackend ::
  "Config \<Rightarrow> string \<Rightarrow> router_table \<Rightarrow> RouteFunc \<Rightarrow> string list \<Rightarrow> string list \<Rightarrow> (string \<Rightarrow> conn option)
   \<Rightarrow> Registry \<Rightarrow> props \<Rightarrow> conf_panic + Registry \<times> props \<times> sent list \<times> conn list" where
  "SyncBackend cfg service routers f ws cs att r ps =
     (case fmlookup (reg_backends r) service of
        None \<Rightarrow> Inr (r, ps, [], [])
      | Some pool \<Rightarrow>
          (case Sync (services cfg service) routers f (reg_identity r) ws cs att pool ps of
             Inl e \<Rightarrow> Inl e
           | Inr (pool', ps', out, stopped) \<Rightarrow>
               Inr (r\<lparr>reg_backends := fmupd service pool' (reg_backends r)\<rparr>, ps', out, stopped)))"

section \<open>Lemmas\<close>

lemma RouteTo_live:
  assumes "RouteTo rnd ps r backend key = Some c"
  shows "\<exists>p. RegistryPool r backend = Some p \<and> (\<exists>e\<in>set (pool_conns p). live e \<and> ce_conn e = Some c)"
proof -
  obtain p where p: "fmlookup (reg_backends r) backend = Some p" "Route rnd ps p key = Some c"
    using assms by (auto simp: RouteTo_def split: option.splits)
  then show ?thesis
    using route.routes_live [of "pool_routeFn p" rnd ps key p c] by (auto simp: Route_def RegistryPool_def)
qed

lemma CleanupBackends_lookup:
  "fmlookup (reg_backends (fst (CleanupBackends names keep r))) n =
     (if n \<in> set names \<and> n \<notin> keep then None else fmlookup (reg_backends r) n)"
  by (induction names keep r rule: CleanupBackends.induct) (auto split: option.splits prod.splits)

text \<open>
  After CleanupBackends has ranged over all pools, exactly the pools of the kept
  services are left, unchanged, and every connection of a removed pool is stopped.
\<close>

theorem CleanupBackends_keeps:
  assumes "set names = fset (fmdom (reg_backends r))" "CleanupBackends names keep r = (r', stopped)"
  shows "reg_backends r' = fmfilter (\<lambda>n. n \<in> keep) (reg_backends r) \<and>
    (\<forall>n p e c. n \<notin> keep \<and> RegistryPool r n = Some p \<and> e \<in> set (pool_conns p) \<and> ce_conn e = Some c
       \<longrightarrow> c \<in> set stopped)"
proof
  have "fmlookup (reg_backends r') n = fmlookup (fmfilter (\<lambda>n. n \<in> keep) (reg_backends r)) n" for n
    using CleanupBackends_lookup [of names keep r n] assms by (auto dest: fmdom_notD)
  then show "reg_backends r' = fmfilter (\<lambda>n. n \<in> keep) (reg_backends r)"
    by (rule fmap_ext)
  have "n \<in> set names \<Longrightarrow> n \<notin> keep \<Longrightarrow> fmlookup (reg_backends r) n = Some p \<Longrightarrow> e \<in> set (pool_conns p) \<Longrightarrow>
      ce_conn e = Some c \<Longrightarrow> c \<in> set (snd (CleanupBackends names keep r))" for n p e c
  proof (induction names keep r rule: CleanupBackends.induct)
    case (2 name names keep r)
    show ?case
    proof (cases "name = n")
      case True
      then have "c \<in> set (snd (PoolClose p))"
        using 2 by (force simp: PoolClose_def List.map_filter_def)
      then show ?thesis
        using 2 True by (auto split: prod.splits)
    next
      case False
      then show ?thesis
        using 2 by (auto split: prod.splits option.splits)
    qed
  qed simp
  then show "\<forall>n p e c. n \<notin> keep \<and> RegistryPool r n = Some p \<and> e \<in> set (pool_conns p) \<and> ce_conn e = Some c
       \<longrightarrow> c \<in> set stopped"
    using assms fmdomI [of "reg_backends r"] unfolding RegistryPool_def by (metis snd_conv)
qed

definition sample_registry :: Registry where
  "sample_registry = \<lparr>reg_backends = fmupd ''roomsvr'' sample_pool fmempty, reg_identity = ''gateway''\<rparr>"

theorem CleanupBackends_keeps_witness:
  "\<exists>r' stopped. CleanupBackends [''roomsvr''] {} sample_registry = (r', stopped) \<and>
     reg_backends r' = fmempty \<and> 1 \<in> set stopped"
proof -
  obtain r' stopped where run: "CleanupBackends [''roomsvr''] {} sample_registry = (r', stopped)"
    by fastforce
  have "set [''roomsvr''] = fset (fmdom (reg_backends sample_registry))"
    by (simp add: sample_registry_def)
  note keeps = CleanupBackends_keeps [OF this run]
  have "RegistryPool sample_registry ''roomsvr'' = Some sample_pool"
    "\<exists>e\<in>set (pool_conns sample_pool). ce_conn e = Some 1"
    by (simp_all add: sample_registry_def sample_pool_def RegistryPool_def)
  then have "1 \<in> set stopped"
    using keeps by blast
  moreover have "reg_backends r' = fmempty"
    using keeps by (simp add: sample_registry_def)
  ultimately show ?thesis
    using run by blast
qed

end
