(* ===== verification/Broadcast.thy ===== *)
theory Broadcast
  imports Conn Wire
begin

text \<open>
  pkg/broadcast.go, pkg/corouter and pkg/server: pushes to the gateways connected to a
  backend server, and the routers that every backend server has. The connections of the
  server, in the order in which its connection manager ranges over them, are a list.
\<close>

section \<open>Broadcaster\<close>

definition is_gateway :: "props \<Rightarrow> conn \<Rightarrow> bool" where
  "is_gateway ps c \<longleftrightarrow> GetProperty ps c PropConnType = Some (PStr SvcGateway)"

fun sendToAll :: "props \<Rightarrow> conn list \<Rightarrow> u32 \<Rightarrow> bytes \<Rightarrow> sent list" where
  "sendToAll ps [] msgID data = []"
| "sendToAll ps (c # cs) msgID data =
     (if is_gateway ps c then Sent c msgID data # sendToAll ps cs msgID data else sendToAll ps cs msgID data)"

definition ToAll :: "wire \<Rightarrow> props \<Rightarrow> conn list \<Rightarrow> u32 \<Rightarrow> bytes \<Rightarrow> sent list" where
  "ToAll w ps conns msgID payload =
     sendToAll ps conns msgID (mar_Envelope w \<lparr>env_ConnId = 0, env_Data = payload, env_ConnTags = None\<rparr>)"

definition ToPlayer :: "wire \<Rightarrow> props \<Rightarrow> conn list \<Rightarrow> u32 \<Rightarrow> i64 \<Rightarrow> bytes \<Rightarrow> sent list" where
  "ToPlayer w ps conns msgID targetPlayerID payload =
     sendToAll ps conns msgID (mar_Envelope w \<lparr>env_ConnId = 0, env_Data = payload,
       env_ConnTags = Some (fmupd TagTargetPlayerID (FormatInt targetPlayerID) fmempty)\<rparr>)"

definition ToConn :: "wire \<Rightarrow> u32 \<Rightarrow> u64 \<Rightarrow> bytes \<Rightarrow> conn \<Rightarrow> sent list" where
  "ToConn w msgID connID payload gatewayConn =
     [Sent gatewayConn msgID (mar_Envelope w \<lparr>env_ConnId = connID, env_Data = payload, env_ConnTags = None\<rparr>)]"

section \<open>Common routers\<close>

definition PingRouter_Handle :: "conn \<Rightarrow> sent list" where
  "PingRouter_Handle c = [Sent c (msg_number PONG) ''pong-server'']"

record ServiceIdentityRouter =
  sir_Service :: string
  sir_ForwardMsgIDs :: "u32 list"
  sir_SendMsgIDs :: "u32 list"

definition ServiceIdentityRouter_Handle ::
  "wire \<Rightarrow> ServiceIdentityRouter \<Rightarrow> conn \<Rightarrow> bytes \<Rightarrow> props \<Rightarrow> props \<times> sent list" where
  "ServiceIdentityRouter_Handle w r c data ps =
     (let ps' = SetProperty c PropConnType (PStr data) ps
      in if sir_ForwardMsgIDs r = [] \<and> sir_SendMsgIDs r = [] then (ps', [])
         else (ps', [Sent c (msg_number SERVICE_HELLO)
           (mar_ServiceHello w \<lparr>hello_Service = sir_Service r, hello_MsgIds = sir_ForwardMsgIDs r,
              hello_SendMsgIds = sir_SendMsgIDs r\<rparr>)]))"

text \<open>The routers of a new backend server, by message number.\<close>

definition server_New :: "(u32 \<times> router) list" where
  "server_New = [(msg_number PING, ''PingRouter''), (msg_number SERVICE_IDENTITY, ''ServiceIdentityRouter'')]"

section \<open>Lemmas\<close>

lemma sendToAll_eq: "sendToAll ps conns msgID data = map (\<lambda>c. Sent c msgID data) (filter (is_gateway ps) conns)"
  by (induction conns) auto

text \<open>
  A push to a player is sent once to every gateway connection and to no other
  connection, as an envelope from which the gateway reads back the payload and the player.
\<close>

theorem ToPlayer_reaches_gateways:
  assumes "wire_codec w" "str_ok w TagTargetPlayerID" "str_ok w (FormatInt pid)"
  shows "ToPlayer w ps conns msgID pid payload =
     map (\<lambda>c. Sent c msgID (mar_Envelope w \<lparr>env_ConnId = 0, env_Data = payload,
        env_ConnTags = Some (fmupd TagTargetPlayerID (FormatInt pid) fmempty)\<rparr>)) (filter (is_gateway ps) conns) \<and>
   list_all (\<lambda>x. \<exists>env. unm_Envelope w (sent_body x) = Some env \<and> env_Data env = payload \<and>
        env_ConnId env = 0 \<and> mget (env_ConnTags env) TagTargetPlayerID = FormatInt pid)
     (ToPlayer w ps conns msgID pid payload)"
proof -
  have "tags_ok w (Some (fmupd TagTargetPlayerID (FormatInt pid) fmempty))"
    using assms by (intro tags_ok_upd) simp_all
  then show ?thesis
    by (auto simp: ToPlayer_def sendToAll_eq wire_codec.Envelope_roundtrip [OF assms(1)] list_all_iff)
qed

theorem ToPlayer_reaches_gateways_witness:
  "map sent_to (ToPlayer pb_wire (SetProperty 2 PropConnType (PStr SvcGateway) fmempty) [1, 2, 3] 7 42 ''hi'') = [2]"
proof -
  have "str_ok pb_wire TagTargetPlayerID" "str_ok pb_wire (FormatInt 42)"
    by (simp_all add: pb_str_ok utf8_ok_FormatInt) (simp add: utf8_ok_def TagTargetPlayerID_def)
  from ToPlayer_reaches_gateways [OF pb.wire_codec_axioms this,
      of "SetProperty 2 PropConnType (PStr SvcGateway) fmempty" "[1, 2, 3]" 7 "''hi''"]
  show ?thesis
    by (simp add: is_gateway_def GetProperty_def SetProperty_def Sprint_def)
qed

end
