(* ===== verification/RoomSvr.thy ===== *)
theory RoomSvr
  imports Registry Broadcast
begin

text \<open>
  apps/roomsvr/internal/router/room_router.go: the rooms of a room server, their members,
  and the messages that joining, leaving, reconnecting and forced leaving send. The
  registry through which the match service is notified is an argument, \<open>None\<close> when the
  router has none.
\<close>

section \<open>State\<close>

record roomPlayer =
  rp_playerID :: string
  rp_conn :: conn
  rp_senderID :: u64

type_synonym rooms = "(string, roomPlayer list) fmap"

record room_env =
  re_reg :: "Registry option"
  re_props :: props
  re_rnd :: nat

section \<open>Messages\<close>

definition sendJoinResp :: "wire \<Rightarrow> conn \<Rightarrow> u64 \<Rightarrow> string \<Rightarrow> bool \<Rightarrow> string \<Rightarrow> sent list" where
  "sendJoinResp w c senderID matchID success errMsg =
     [Sent c (msg_number ROOM_JOIN_RESP)
        (mar_Envelope w \<lparr>env_ConnId = senderID,
           env_Data = mar_RoomJoinResp w \<lparr>joinresp_Success = success, joinresp_MatchId = matchID, joinresp_ServerId = '''', joinresp_Error = errMsg\<rparr>,
           env_ConnTags = None\<rparr>)]"

definition notifyMatchSvr :: "wire \<Rightarrow> room_env \<Rightarrow> string \<Rightarrow> sent list" where
  "notifyMatchSvr w re matchID =
     (case re_reg re of
        None \<Rightarrow> []
      | Some reg \<Rightarrow>
         (case RouteTo (re_rnd re) (re_props re) reg SvcMatchSvr matchID of
            None \<Rightarrow> []
          | Some c \<Rightarrow> [Sent c (msg_number ROOM_DESTROYED_PUSH)
              (mar_Envelope w \<lparr>env_ConnId = 0, env_Data = mar_RoomDestroyedPush w \<lparr>destroyed_MatchId = matchID\<rparr>, env_ConnTags = None\<rparr>)]))"

definition broadcastRoomEvent :: "wire \<Rightarrow> string \<Rightarrow> roomPlayer list \<Rightarrow> string \<Rightarrow> string \<Rightarrow> nat \<Rightarrow> sent list" where
  "broadcastRoomEvent w matchID members playerID event count =
     (let push = mar_RoomEventPush w \<lparr>event_MatchId = matchID, event_PlayerId = playerID, event_Event = event,
            event_PlayerCount = int count\<rparr>
      in concat (map (\<lambda>p. ToConn w (msg_number ROOM_EVENT_PUSH) (rp_senderID p) push (rp_conn p)) members))"

definition leave_resp :: "wire \<Rightarrow> conn \<Rightarrow> u64 \<Rightarrow> sent list" where
  "leave_resp w c senderID =
     [Sent c (msg_number ROOM_LEAVE_RESP)
        (mar_Envelope w \<lparr>env_ConnId = senderID,
           env_Data = mar_RoomLeaveResp w \<lparr>leaveresp_Success = True, leaveresp_Error = ''''\<rparr>, env_ConnTags = None\<rparr>)]"

section \<open>Handlers\<close>

text \<open>The value of \<open>rooms.LoadOrStore(m, []roomPlayer{})\<close>.\<close>

definition members :: "rooms \<Rightarrow> string \<Rightarrow> roomPlayer list" where
  "members rs m = (case fmlookup rs m of None \<Rightarrow> [] | Some ps \<Rightarrow> ps)"

definition handleJoin :: "wire \<Rightarrow> Envelope \<Rightarrow> conn \<Rightarrow> rooms \<Rightarrow> rooms \<times> sent list" where
  "handleJoin w env c rs =
     (case unm_RoomJoinReq w (env_Data env) of
        None \<Rightarrow> (rs, sendJoinResp w c (env_ConnId env) (joinreq_MatchId (partial_RoomJoinReq w (env_Data env))) False ''invalid request'')
      | Some req \<Rightarrow>
          let m = joinreq_MatchId req;
              playerID = mget (env_ConnTags env) TagPlayerID;
              players = members rs m;
              rs1 = fmupd m players rs
          in if find_idx (\<lambda>p. rp_playerID p = playerID) players \<noteq> None
             then (rs1, sendJoinResp w c (env_ConnId env) m False ''already in room'')
             else let players' = players @ [\<lparr>rp_playerID = playerID, rp_conn = c, rp_senderID = env_ConnId env\<rparr>]
                  in (fmupd m players' rs1,
                      sendJoinResp w c (env_ConnId env) m True ''''
                      @ (if 1 < length players'
                         then broadcastRoomEvent w m (take (length players' - 1) players') playerID ''joined'' (length players')
                         else [])))"

text \<open>
  Taking a player out of a room, shared by the two leave handlers, which differ in where
  the match and the player come from.
\<close>

definition remove_player :: "wire \<Rightarrow> room_env \<Rightarrow> string \<Rightarrow> string \<Rightarrow> conn \<Rightarrow> rooms \<Rightarrow> rooms \<times> sent list" where
  "remove_player w re m playerID c rs =
     (case fmlookup rs m of
        None \<Rightarrow> (rs, [])
      | Some players \<Rightarrow>
         (case find_idx (\<lambda>p. rp_playerID p = playerID) players of
            None \<Rightarrow> (rs, [])
          | Some idx \<Rightarrow>
              let leftPlayer = players ! idx;
                  players' = remove_at idx players
              in if players' = []
                 then (fmdrop m rs, notifyMatchSvr w re m @ leave_resp w c (rp_senderID leftPlayer))
                 else (fmupd m players' rs,
                       broadcastRoomEvent w m players' playerID ''left'' (length players')
                       @ leave_resp w c (rp_senderID leftPlayer))))"

definition handleLeave :: "wire \<Rightarrow> room_env \<Rightarrow> Envelope \<Rightarrow> conn \<Rightarrow> rooms \<Rightarrow> rooms \<times> sent list" where
  "handleLeave w re env c rs =
     (case unm_RoomLeaveReq w (env_Data env) of
        None \<Rightarrow> (rs, [])
      | Some req \<Rightarrow> remove_player w re (leavereq_MatchId req) (mget (env_ConnTags env) TagPlayerID) c rs)"

definition handleReconnected :: "wire \<Rightarrow> conn \<Rightarrow> bytes \<Rightarrow> rooms \<Rightarrow> rooms" where
  "handleReconnected w c body rs =
     (case unm_SessionData w body of
        None \<Rightarrow> rs
      | Some data \<Rightarrow>
          let m = mget (sd_ConnTags data) TagMatchID;
              playerID = mget (sd_ConnTags data) TagPlayerID;
              senderID = parse_uint (mget (sd_ConnTags data) TagSenderID)
          in case fmlookup rs m of
            None \<Rightarrow> rs
          | Some players \<Rightarrow>
             (case find_idx (\<lambda>p. rp_playerID p = playerID) players of
                None \<Rightarrow> rs
              | Some i \<Rightarrow> fmupd m (players[i := (players ! i)\<lparr>rp_conn := c, rp_senderID := senderID\<rparr>]) rs))"

definition handleForceLeave :: "wire \<Rightarrow> room_env \<Rightarrow> conn \<Rightarrow> bytes \<Rightarrow> rooms \<Rightarrow> rooms \<times> sent list" where
  "handleForceLeave w re c body rs =
     (case unm_SessionData w body of
        None \<Rightarrow> (rs, [])
      | Some data \<Rightarrow> remove_player w re (mget (sd_ConnTags data) TagMatchID) (FormatInt (sd_PlayerId data)) c rs)"

definition RoomRouter_Handle :: "wire \<Rightarrow> room_env \<Rightarrow> conn \<Rightarrow> u32 \<Rightarrow> bytes \<Rightarrow> rooms \<Rightarrow> rooms \<times> sent list" where
  "RoomRouter_Handle w re c msgID body rs =
     (case unm_Envelope w body of
        None \<Rightarrow> (rs, [])
      | Some env \<Rightarrow>
          if msgID = msg_number ROOM_JOIN_REQ then handleJoin w env c rs
          else if msgID = msg_number ROOM_LEAVE_REQ then handleLeave w re env c rs
          else if msgID = msg_number SESSION_RECONNECTED then (handleReconnected w c body rs, [])
          else if msgID = msg_number SESSION_FORCE_LEAVE then handleForceLeave w re c body rs
          else (rs, []))"

section \<open>Invariant\<close>

definition room_ok :: "roomPlayer list \<Rightarrow> bool" where
  "room_ok ps \<longleftrightarrow> ps \<noteq> [] \<and> distinct (map rp_playerID ps)"

definition rooms_ok :: "rooms \<Rightarrow> bool" where
  "rooms_ok rs \<longleftrightarrow> fmpred (\<lambda>_. room_ok) rs"

lemma rooms_ok_lookup: "rooms_ok rs \<Longrightarrow> fmlookup rs m = Some ps \<Longrightarrow> room_ok ps"
  by (auto simp: rooms_ok_def dest: fmpredD)

lemma rooms_ok_upd: "rooms_ok rs \<Longrightarrow> room_ok ps \<Longrightarrow> rooms_ok (fmupd m ps rs)"
  by (simp add: rooms_ok_def fmpred_upd)

lemma rooms_ok_drop: "rooms_ok rs \<Longrightarrow> rooms_ok (fmdrop m rs)"
  by (auto simp: rooms_ok_def fmpred_iff)

lemma fmupd_idem: "fmlookup rs m = Some ps \<Longrightarrow> fmupd m ps rs = rs"
  by (rule fmap_ext) auto

lemma fmupd_twice: "fmupd m a (fmupd m b rs) = fmupd m a rs"
  by (rule fmap_ext) auto

lemma members_ok: "rooms_ok rs \<Longrightarrow> members rs m \<noteq> [] \<Longrightarrow> room_ok (members rs m)"
  by (auto simp: members_def split: option.splits dest: rooms_ok_lookup)

lemma members_nonempty: "members rs m \<noteq> [] \<Longrightarrow> fmupd m (members rs m) rs = rs"
  by (auto simp: members_def fmupd_idem split: option.splits)

text \<open>The result of a join request that can be read.\<close>

lemma handleJoin_cases:
  assumes "unm_RoomJoinReq w (env_Data env) = Some req" "m = joinreq_MatchId req"
    and "pid = mget (env_ConnTags env) TagPlayerID"
  shows "pid \<in> rp_playerID ` set (members rs m) \<Longrightarrow>
      handleJoin w env c rs = (rs, sendJoinResp w c (env_ConnId env) m False ''already in room'')"
    and "pid \<notin> rp_playerID ` set (members rs m) \<Longrightarrow>
      handleJoin w env c rs =
        (fmupd m (members rs m @ [\<lparr>rp_playerID = pid, rp_conn = c, rp_senderID = env_ConnId env\<rparr>]) rs,
         sendJoinResp w c (env_ConnId env) m True '''' @
           (if members rs m = [] then []
            else broadcastRoomEvent w m (members rs m) pid ''joined'' (Suc (length (members rs m)))))"
proof -
  assume pid: "pid \<in> rp_playerID ` set (members rs m)"
  then have "members rs m \<noteq> []"
    by auto
  then show "handleJoin w env c rs = (rs, sendJoinResp w c (env_ConnId env) m False ''already in room'')"
    unfolding handleJoin_def assms(1) option.case Let_def assms(2,3) [symmetric]
    using pid members_nonempty by auto
next
  assume "pid \<notin> rp_playerID ` set (members rs m)"
  then have "find_idx (\<lambda>p. rp_playerID p = pid) (members rs m) = None"
    by auto
  then show "handleJoin w env c rs =
        (fmupd m (members rs m @ [\<lparr>rp_playerID = pid, rp_conn = c, rp_senderID = env_ConnId env\<rparr>]) rs,
         sendJoinResp w c (env_ConnId env) m True '''' @
           (if members rs m = [] then []
            else broadcastRoomEvent w m (members rs m) pid ''joined'' (Suc (length (members rs m)))))"
    unfolding handleJoin_def assms(1) option.case Let_def assms(2,3) [symmetric] fmupd_twice by simp
qed

lemma rooms_ok_join:
  assumes "rooms_ok rs"
  shows "rooms_ok (fst (handleJoin w env c rs))"
proof (cases "unm_RoomJoinReq w (env_Data env)")
  case (Some req)
  let ?m = "joinreq_MatchId req" and ?pid = "mget (env_ConnTags env) TagPlayerID"
  show ?thesis
  proof (cases "?pid \<in> rp_playerID ` set (members rs ?m)")
    case True
    then show ?thesis
      using handleJoin_cases(1) [OF Some refl refl, of rs c] assms by simp
  next
    case False
    then have "room_ok (members rs ?m @ [\<lparr>rp_playerID = ?pid, rp_conn = c, rp_senderID = env_ConnId env\<rparr>])"
      using members_ok [OF assms, of ?m] by (cases "members rs ?m = []") (auto simp: room_ok_def)
    then show ?thesis
      using handleJoin_cases(2) [OF Some refl refl, of rs c] False assms by (simp add: rooms_ok_upd)
  qed
qed (simp add: handleJoin_def assms)

lemma rooms_ok_remove:
  assumes "rooms_ok rs"
  shows "rooms_ok (fst (remove_player w re m pid c rs))"
proof (cases "fmlookup rs m")
  case (Some ps)
  then have "room_ok ps" using assms by (rule rooms_ok_lookup [rotated])
  then have "remove_at i ps \<noteq> [] \<Longrightarrow> room_ok (remove_at i ps)" for i
    by (auto simp: room_ok_def map_remove_at distinct_remove_at)
  then show ?thesis
    using assms Some by (auto simp: remove_player_def Let_def intro!: rooms_ok_upd rooms_ok_drop split: option.split)
qed (simp add: remove_player_def assms)

lemma rooms_ok_reconnected:
  assumes "rooms_ok rs"
  shows "rooms_ok (handleReconnected w c body rs)"
proof -
  have "room_ok (ps[i := (ps ! i)\<lparr>rp_conn := c, rp_senderID := s\<rparr>])" if "fmlookup rs m = Some ps" for m ps i s
  proof -
    have "map rp_playerID (ps[i := (ps ! i)\<lparr>rp_conn := c, rp_senderID := s\<rparr>]) = map rp_playerID ps"
      by (cases "i < length ps") (simp_all add: map_update list_update_same_conv list_update_beyond)
    then show ?thesis
      using rooms_ok_lookup [OF assms that] by (simp add: room_ok_def)
  qed
  then show ?thesis
    using assms by (auto simp: handleReconnected_def Let_def intro!: rooms_ok_upd split: option.splits)
qed

text \<open>The result of taking out a player who is in the room, or is not.\<close>

lemma remove_player_cases:
  assumes "fmlookup rs m = Some (xs @ p # ys)" "rp_playerID p = pid" "\<forall>x\<in>set xs. rp_playerID x \<noteq> pid"
  shows "remove_player w re m pid c rs =
    (if xs @ ys = [] then (fmdrop m rs, notifyMatchSvr w re m @ leave_resp w c (rp_senderID p))
     else (fmupd m (xs @ ys) rs, broadcastRoomEvent w m (xs @ ys) pid ''left'' (length (xs @ ys)) @ leave_resp w c (rp_senderID p)))"
proof -
  have "find_idx (\<lambda>p. rp_playerID p = pid) (xs @ p # ys) = Some (length xs)"
    using assms(2,3) by (induction xs) auto
  then show ?thesis
    using assms(1) by (simp add: remove_player_def Let_def remove_at_def nth_append)
qed

lemma remove_player_absent:
  "pid \<notin> rp_playerID ` set (members rs m) \<Longrightarrow> remove_player w re m pid c rs = (rs, [])"
proof (cases "fmlookup rs m")
  case (Some ps)
  assume "pid \<notin> rp_playerID ` set (members rs m)"
  then have "find_idx (\<lambda>p. rp_playerID p = pid) ps = None"
    using Some by (auto simp: members_def)
  with Some show ?thesis
    by (simp add: remove_player_def del: find_idx_None)
qed (simp add: remove_player_def)

lemma rooms_ok_Handle:
  assumes "rooms_ok rs"
  shows "rooms_ok (fst (RoomRouter_Handle w re c msgID body rs))"
  using assms rooms_ok_join rooms_ok_remove rooms_ok_reconnected
  by (simp add: RoomRouter_Handle_def handleLeave_def handleForceLeave_def split: option.split)

section \<open>Properties\<close>

text \<open>Rooms after a sequence of requests, with whatever registry state each of them finds.\<close>

fun room_run :: "wire \<Rightarrow> (room_env \<times> conn \<times> u32 \<times> bytes) list \<Rightarrow> rooms \<Rightarrow> rooms" where
  "room_run w [] rs = rs"
| "room_run w ((re, c, msgID, body) # xs) rs = room_run w xs (fst (RoomRouter_Handle w re c msgID body rs))"

text \<open>
  C7: After any sequence of requests, every room of a room server that started empty has at
  least one member, and no player is in a room twice.
\<close>

theorem room_invariant:
  "fmpred (\<lambda>_ ps. ps \<noteq> [] \<and> distinct (map rp_playerID ps)) (room_run w xs fmempty)"
proof -
  have "rooms_ok rs \<Longrightarrow> rooms_ok (room_run w xs rs)" for rs
    by (induction xs arbitrary: rs) (auto simp: rooms_ok_Handle)
  from this [of fmempty] show ?thesis
    by (simp add: rooms_ok_def room_ok_def fmpred_iff)
qed

text \<open>
  C23: A join request of a player who is not in the room adds the player as the last member,
  is confirmed to the caller, and is announced to exactly the members who were there
  before, with the new number of members; a player who is in the room is refused, and no
  room changes.
\<close>

theorem join_adds_and_announces:
  assumes "unm_RoomJoinReq w (env_Data env) = Some req" "m = joinreq_MatchId req"
    and "pid = mget (env_ConnTags env) TagPlayerID" "handleJoin w env c rs = (rs', out)"
  shows "(pid \<in> rp_playerID ` set (members rs m) \<longrightarrow>
      rs' = rs \<and> out = sendJoinResp w c (env_ConnId env) m False ''already in room'') \<and>
    (pid \<notin> rp_playerID ` set (members rs m) \<longrightarrow>
      members rs' m = members rs m @ [\<lparr>rp_playerID = pid, rp_conn = c, rp_senderID = env_ConnId env\<rparr>] \<and>
      (\<forall>m'. m' \<noteq> m \<longrightarrow> members rs' m' = members rs m') \<and>
      out = sendJoinResp w c (env_ConnId env) m True '''' @
        map (\<lambda>p. Sent (rp_conn p) (msg_number ROOM_EVENT_PUSH) (mar_Envelope w \<lparr>env_ConnId = rp_senderID p,
          env_Data = mar_RoomEventPush w \<lparr>event_MatchId = m, event_PlayerId = pid, event_Event = ''joined'',
            event_PlayerCount = int (length (members rs' m))\<rparr>, env_ConnTags = None\<rparr>)) (members rs m))"
  using handleJoin_cases [OF assms(1-3), of rs c] assms(4)
  by (auto simp: members_def broadcastRoomEvent_def ToConn_def Let_def split: option.splits)


text \<open>
  After a reconnect message, the member's messages go to the connection and client that
  the message came from and names; the members, their order and all other rooms stay.
\<close>

theorem reconnected_redirects:
  assumes "rooms_ok rs" "unm_SessionData w body = Some d" "m = mget (sd_ConnTags d) TagMatchID"
    and "p \<in> set (members rs m)" "rp_playerID p = mget (sd_ConnTags d) TagPlayerID"
    and "rs' = handleReconnected w c body rs"
  shows "members rs' m = map (\<lambda>q. if rp_playerID q = rp_playerID p
        then q\<lparr>rp_conn := c, rp_senderID := parse_uint (mget (sd_ConnTags d) TagSenderID)\<rparr> else q) (members rs m) \<and>
    (\<forall>m'. m' \<noteq> m \<longrightarrow> fmlookup rs' m' = fmlookup rs m')"
proof -
  obtain xs ys where split: "members rs m = xs @ p # ys"
    using assms(4) by (auto simp: in_set_conv_decomp)
  then have lookup: "fmlookup rs m = Some (xs @ p # ys)"
    by (auto simp: members_def split: option.splits)
  have "distinct (map rp_playerID (xs @ p # ys))"
    using rooms_ok_lookup [OF assms(1) lookup] by (simp add: room_ok_def)
  then have other: "\<forall>x\<in>set xs. rp_playerID x \<noteq> rp_playerID p" "\<forall>x\<in>set ys. rp_playerID x \<noteq> rp_playerID p"
    by (auto simp: image_iff)
  then have "find_idx (\<lambda>q. rp_playerID q = mget (sd_ConnTags d) TagPlayerID) (xs @ p # ys) = Some (length xs)"
    unfolding assms(5) [symmetric] by (induction xs) auto
  then have rs': "rs' = fmupd m (xs @ p\<lparr>rp_conn := c, rp_senderID := parse_uint (mget (sd_ConnTags d) TagSenderID)\<rparr> # ys) rs"
    using assms(2,3,6) lookup by (simp add: handleReconnected_def Let_def nth_append)
  show ?thesis
    using other unfolding rs' split by (auto simp: members_def intro!: map_idI [symmetric])
qed

text \<open>
  A player who joins a room and leaves it again leaves all rooms as they were.
\<close>

theorem join_then_leave:
  assumes "rooms_ok rs" "unm_RoomJoinReq w (env_Data e1) = Some \<lparr>joinreq_MatchId = m\<rparr>"
    and "unm_RoomLeaveReq w (env_Data e2) = Some \<lparr>leavereq_MatchId = m\<rparr>"
    and "pid = mget (env_ConnTags e1) TagPlayerID" "pid = mget (env_ConnTags e2) TagPlayerID"
    and "pid \<notin> rp_playerID ` set (members rs m)"
  shows "fst (handleLeave w re e2 c2 (fst (handleJoin w e1 c1 rs))) = rs"
proof -
  let ?p = "\<lparr>rp_playerID = pid, rp_conn = c1, rp_senderID = env_ConnId e1\<rparr>"
  let ?rs1 = "fmupd m (members rs m @ [?p]) rs"
  have join: "fst (handleJoin w e1 c1 rs) = ?rs1"
    using handleJoin_cases(2) [OF assms(2) _ assms(4), of m rs c1] assms(6) by simp
  have look: "fmlookup ?rs1 m = Some (members rs m @ ?p # [])"
    by simp
  have "\<forall>x\<in>set (members rs m). rp_playerID x \<noteq> pid"
    using assms(6) by auto
  note leave = remove_player_cases [OF look _ this, of w re c2]
  show ?thesis
  proof (cases "members rs m = []")
    case True
    then have "fmlookup rs m = None"
      using rooms_ok_lookup [OF assms(1), of m "[]"] by (auto simp: members_def room_ok_def split: option.splits)
    then have "fmdrop m ?rs1 = rs"
      by (intro fmap_ext) auto
    then show ?thesis
      using leave True by (simp add: join handleLeave_def assms(3) assms(5) [symmetric])
  next
    case False
    then show ?thesis
      using leave members_nonempty [OF False]
      by (simp add: join handleLeave_def assms(3) assms(5) [symmetric] fmupd_twice)
  qed
qed

section \<open>What a room server promises\<close>

text \<open>
  The abstract view of the rooms: the players of each match in the order in which they
  joined. A request is a join, a leave, or of no effect on who is where.
\<close>

type_synonym seats = "string \<Rightarrow> string list"

datatype room_req = Join string string | Leave string string | Stay

fun seat_step :: "room_req \<Rightarrow> seats \<Rightarrow> seats" where
  "seat_step (Join m p) A = (if p \<in> set (A m) then A else A(m := A m @ [p]))"
| "seat_step (Leave m p) A = A(m := removeAll p (A m))"
| "seat_step Stay A = A"

definition seats_of :: "rooms \<Rightarrow> seats" where
  "seats_of rs = (\<lambda>m. map rp_playerID (members rs m))"

text \<open>What a message asks for.\<close>

definition room_req_of :: "wire \<Rightarrow> u32 \<Rightarrow> bytes \<Rightarrow> room_req" where
  "room_req_of w msgID body =
     (case unm_Envelope w body of
        None \<Rightarrow> Stay
      | Some env \<Rightarrow>
          let p = mget (env_ConnTags env) TagPlayerID
          in if msgID = msg_number ROOM_JOIN_REQ
             then (case unm_RoomJoinReq w (env_Data env) of None \<Rightarrow> Stay | Some req \<Rightarrow> Join (joinreq_MatchId req) p)
             else if msgID = msg_number ROOM_LEAVE_REQ
             then (case unm_RoomLeaveReq w (env_Data env) of None \<Rightarrow> Stay | Some req \<Rightarrow> Leave (leavereq_MatchId req) p)
             else if msgID = msg_number SESSION_FORCE_LEAVE
             then (case unm_SessionData w body of None \<Rightarrow> Stay
                | Some d \<Rightarrow> Leave (mget (sd_ConnTags d) TagMatchID) (FormatInt (sd_PlayerId d)))
             else Stay)"

lemma members_upd: "members (fmupd m ps rs) m' = (if m = m' then ps else members rs m')"
  by (simp add: members_def)

lemma members_drop: "members (fmdrop m rs) m' = (if m = m' then [] else members rs m')"
  by (simp add: members_def)

lemma seats_join:
  "seats_of (fst (handleJoin w env c rs)) =
     (case unm_RoomJoinReq w (env_Data env) of None \<Rightarrow> seats_of rs
      | Some req \<Rightarrow> seat_step (Join (joinreq_MatchId req) (mget (env_ConnTags env) TagPlayerID)) (seats_of rs))"
proof (cases "unm_RoomJoinReq w (env_Data env)")
  case (Some req)
  show ?thesis
    using handleJoin_cases [OF Some refl refl, of rs c]
    by (cases "mget (env_ConnTags env) TagPlayerID \<in> rp_playerID ` set (members rs (joinreq_MatchId req))")
      (auto simp: Some seats_of_def members_upd)
qed (simp add: handleJoin_def)

lemma seats_remove:
  assumes "rooms_ok rs"
  shows "seats_of (fst (remove_player w re m pid c rs)) = seat_step (Leave m pid) (seats_of rs)"
proof (cases "pid \<in> rp_playerID ` set (members rs m)")
  case True
  then obtain p where p: "p \<in> set (members rs m)" "rp_playerID p = pid" by auto
  then obtain xs ys where split: "members rs m = xs @ p # ys"
    by (auto simp: in_set_conv_decomp)
  then have lookup: "fmlookup rs m = Some (xs @ p # ys)"
    by (auto simp: members_def split: option.splits)
  have "distinct (map rp_playerID (xs @ p # ys))"
    using rooms_ok_lookup [OF assms lookup] by (simp add: room_ok_def)
  then have other: "pid \<notin> rp_playerID ` set xs" "pid \<notin> rp_playerID ` set ys"
    using p(2) by auto
  then have "\<forall>x\<in>set xs. rp_playerID x \<noteq> pid" by auto
  note remove_player_cases [OF lookup p(2) this, of w re c]
  then show ?thesis
    using other p(2) by (auto simp: seats_of_def members_upd members_drop split removeAll_id)
next
  case False
  then show ?thesis
    using remove_player_absent [OF False] by (auto simp: seats_of_def removeAll_id)
qed

lemma seats_reconnected: "seats_of (handleReconnected w c body rs) = seats_of rs"
proof -
  have "map rp_playerID (ps[i := (ps ! i)\<lparr>rp_conn := c, rp_senderID := s\<rparr>]) = map rp_playerID ps" for ps i s
    by (cases "i < length ps") (simp_all add: map_update list_update_same_conv list_update_beyond)
  then show ?thesis
    by (auto simp: handleReconnected_def Let_def seats_of_def members_upd members_def fun_eq_iff split: option.splits)
qed

lemma seats_Handle:
  assumes "rooms_ok rs"
  shows "seats_of (fst (RoomRouter_Handle w re c msgID body rs)) = seat_step (room_req_of w msgID body) (seats_of rs)"
  using seats_join seats_remove [OF assms] seats_reconnected
  by (auto simp: RoomRouter_Handle_def room_req_of_def handleLeave_def handleForceLeave_def Let_def split: option.split)

text \<open>
  C12: A room server implements its abstract specification. For every sequence of requests,
  with whatever connections and registries, the players of the rooms are those that the
  joins and leaves of the sequence give in the abstract view, where joining twice has no
  effect and leaving removes exactly the player; and a room exists exactly for the matches
  that have players.
\<close>

theorem room_refines_seats:
  "seats_of (room_run w xs fmempty) = fold (\<lambda>(re, c, msgID, body). seat_step (room_req_of w msgID body)) xs (\<lambda>_. []) \<and>
   fset (fmdom (room_run w xs fmempty)) = {m. seats_of (room_run w xs fmempty) m \<noteq> []}"
proof -
  have "rooms_ok rs \<Longrightarrow> rooms_ok (room_run w xs rs) \<and> seats_of (room_run w xs rs) =
      fold (\<lambda>(re, c, msgID, body). seat_step (room_req_of w msgID body)) xs (seats_of rs)" for rs
    by (induction xs arbitrary: rs) (auto simp: rooms_ok_Handle seats_Handle)
  from this [of fmempty] have run: "rooms_ok (room_run w xs fmempty)" "seats_of (room_run w xs fmempty) =
      fold (\<lambda>(re, c, msgID, body). seat_step (room_req_of w msgID body)) xs (\<lambda>_. [])"
    by (simp_all add: rooms_ok_def seats_of_def members_def)
  have "m \<in> fset (fmdom rs) \<longleftrightarrow> seats_of rs m \<noteq> []" if "rooms_ok rs" for rs m
    using rooms_ok_lookup [OF that, of m] by (auto simp: seats_of_def members_def room_ok_def fmlookup_dom_iff split: option.splits)
  then show ?thesis
    using run by blast
qed

section \<open>Concrete runs\<close>

definition room_msg :: "bytes \<Rightarrow> string \<Rightarrow> u64 \<Rightarrow> Envelope" where
  "room_msg data pid connID = \<lparr>env_ConnId = connID, env_Data = data, env_ConnTags = Some (fmupd TagPlayerID pid fmempty)\<rparr>"

definition join_msg :: "string \<Rightarrow> u64 \<Rightarrow> Envelope" where
  "join_msg = room_msg (mar_RoomJoinReq pb_wire \<lparr>joinreq_MatchId = ''m''\<rparr>)"

definition leave_msg :: "string \<Rightarrow> u64 \<Rightarrow> Envelope" where
  "leave_msg = room_msg (mar_RoomLeaveReq pb_wire \<lparr>leavereq_MatchId = ''m''\<rparr>)"

lemma room_msgs_read:
  "unm_RoomJoinReq pb_wire (env_Data (join_msg pid n)) = Some \<lparr>joinreq_MatchId = ''m''\<rparr>"
  "unm_RoomLeaveReq pb_wire (env_Data (leave_msg pid n)) = Some \<lparr>leavereq_MatchId = ''m''\<rparr>"
  "mget (env_ConnTags (join_msg pid n)) TagPlayerID = pid"
  "mget (env_ConnTags (leave_msg pid n)) TagPlayerID = pid"
  by (simp_all add: join_msg_def leave_msg_def room_msg_def pb.RoomJoinReq_roundtrip pb.RoomLeaveReq_roundtrip pb_str_ok utf8_ok_def)

definition one_member :: rooms where
  "one_member = fmupd ''m'' [\<lparr>rp_playerID = ''7'', rp_conn = 1, rp_senderID = 11\<rparr>] fmempty"

lemma one_member_ok: "rooms_ok one_member" "members one_member ''m'' = [\<lparr>rp_playerID = ''7'', rp_conn = 1, rp_senderID = 11\<rparr>]"
  by (simp_all add: one_member_def rooms_ok_def room_ok_def members_def fmpred_upd)

definition no_match_svr :: room_env where
  "no_match_svr = \<lparr>re_reg = None, re_props = fmempty, re_rnd = 0\<rparr>"

theorem join_adds_and_announces_witness:
  "\<exists>rs' out. handleJoin pb_wire (join_msg ''8'' 12) 2 one_member = (rs', out) \<and>
     map rp_playerID (members rs' ''m'') = [''7'', ''8''] \<and> map sent_to out = [2, 1]"
proof -
  obtain rs' out where run: "handleJoin pb_wire (join_msg ''8'' 12) 2 one_member = (rs', out)"
    by fastforce
  from join_adds_and_announces [OF room_msgs_read(1) refl refl run] show ?thesis
    using run by (simp add: room_msgs_read one_member_ok sendJoinResp_def)
qed


theorem join_then_leave_witness:
  "fst (handleLeave pb_wire no_match_svr (leave_msg ''8'' 12) 2 (fst (handleJoin pb_wire (join_msg ''8'' 12) 2 one_member))) = one_member"
  using join_then_leave [OF one_member_ok(1) room_msgs_read(1,2), of "''8''" "''8''" 12 "''8''" 12 no_match_svr 2 2]
  by (simp add: room_msgs_read one_member_ok)

definition back_data :: SessionData where
  "back_data = \<lparr>sd_PlayerId = 7, sd_GatewayId = '''', sd_ConnTags = Some (fmupd TagMatchID ''m'' (fmupd TagPlayerID ''7''
     (fmupd TagSenderID ''25'' fmempty))), sd_DisconnectedAt = 0\<rparr>"

lemma back_data_read: "unm_SessionData pb_wire (mar_SessionData pb_wire back_data) = Some back_data"
proof -
  have "tags_ok pb_wire (sd_ConnTags back_data)"
    unfolding back_data_def SessionData.select_convs
    by (intro tags_ok_upd) (simp_all add: pb_str_ok utf8_ok_def key_defs)
  then have "unm_SessionData pb_wire (mar_SessionData pb_wire back_data) =
      Some (back_data\<lparr>sd_ConnTags := mnorm (sd_ConnTags back_data)\<rparr>)"
    by (intro pb.SessionData_roundtrip)
      (simp_all add: back_data_def i64_ok_def i64_min_def i64_max_def pb_str_ok utf8_ok_def)
  then show ?thesis
    by (simp add: back_data_def)
qed

theorem reconnected_redirects_witness:
  "members (handleReconnected pb_wire 9 (mar_SessionData pb_wire back_data) one_member) ''m'' =
     [\<lparr>rp_playerID = ''7'', rp_conn = 9, rp_senderID = parse_uint ''25''\<rparr>]"
  using reconnected_redirects [OF one_member_ok(1) back_data_read refl _ _ refl,
      of "\<lparr>rp_playerID = ''7'', rp_conn = 1, rp_senderID = 11\<rparr>" 9]
  by (simp add: back_data_def one_member_ok key_defs)

end
