(* ===== verification/MatchRooms.thy ===== *)
theory MatchRooms
  imports MatchSvr RoomSvr
begin

text \<open>
  The match service and the room servers together. Requests reach them in any order, and
  what a room server sends to the match service is on the way until it is handled there,
  at any later time and in any order. The handlers are those of MatchSvr and RoomSvr.
\<close>

section \<open>The system\<close>

text \<open>The state of the match service, the rooms of each room server, the messages on the way.\<close>

record cluster =
  cl_match :: match_state
  cl_rooms :: "string \<Rightarrow> rooms"
  cl_net :: "sent list"

definition cluster_init :: cluster where
  "cluster_init = \<lparr>cl_match = match_init, cl_rooms = (\<lambda>_. fmempty), cl_net = []\<rparr>"

text \<open>A room server that is connected to the match service.\<close>

definition connected :: "room_env \<Rightarrow> bool" where
  "connected re \<longleftrightarrow> (\<exists>reg. re_reg re = Some reg \<and> (\<forall>m. RouteTo (re_rnd re) (re_props re) reg SvcMatchSvr m \<noteq> None))"

definition to_match :: "sent \<Rightarrow> bool" where
  "to_match x \<longleftrightarrow> sent_id x = msg_number ROOM_DESTROYED_PUSH"

inductive cluster_step :: "wire \<Rightarrow> cluster \<Rightarrow> cluster \<Rightarrow> bool" for w where
  at_match: "cluster_step w cl (cl\<lparr>cl_match := fst (MatchRouter_Handle w cfg nano c msgID body (cl_match cl))\<rparr>)"
| at_room: "connected re \<Longrightarrow> RoomRouter_Handle w re c msgID body (cl_rooms cl s) = (rs, out) \<Longrightarrow>
    cluster_step w cl (cl\<lparr>cl_rooms := (cl_rooms cl)(s := rs), cl_net := cl_net cl @ filter to_match out\<rparr>)"
| deliver: "cl_net cl = xs @ x # ys \<Longrightarrow>
    cluster_step w cl (cl\<lparr>cl_match := fst (MatchRouter_Handle w cfg nano c (sent_id x) (sent_body x) (cl_match cl)), cl_net := xs @ ys\<rparr>)"

definition active :: "cluster \<Rightarrow> string \<Rightarrow> bool" where
  "active cl m \<longleftrightarrow> fmlookup (activeMatches (cl_match cl)) m \<noteq> None"

definition occupied :: "cluster \<Rightarrow> string \<Rightarrow> bool" where
  "occupied cl m \<longleftrightarrow> (\<exists>s. fmlookup (cl_rooms cl s) m \<noteq> None)"

text \<open>Runs in which a match stays in the directory.\<close>

inductive active_run :: "wire \<Rightarrow> string \<Rightarrow> cluster \<Rightarrow> cluster \<Rightarrow> bool" for w m where
  stay: "active cl m \<Longrightarrow> active_run w m cl cl"
| move: "active_run w m cl cl1 \<Longrightarrow> cluster_step w cl1 cl2 \<Longrightarrow> active cl2 m \<Longrightarrow> active_run w m cl cl2"

text \<open>All messages on the way are handled.\<close>

definition deliver_all :: "wire \<Rightarrow> Config \<Rightarrow> i64 \<Rightarrow> conn \<Rightarrow> cluster \<Rightarrow> cluster" where
  "deliver_all w cfg nano c cl =
     cl\<lparr>cl_match := fold (\<lambda>x st. fst (MatchRouter_Handle w cfg nano c (sent_id x) (sent_body x) st)) (cl_net cl) (cl_match cl),
        cl_net := []\<rparr>"

section \<open>What room servers send\<close>

definition destroyed_body :: "wire \<Rightarrow> string \<Rightarrow> bytes" where
  "destroyed_body w m = mar_Envelope w
     \<lparr>env_ConnId = 0, env_Data = mar_RoomDestroyedPush w \<lparr>destroyed_MatchId = m\<rparr>, env_ConnTags = None\<rparr>"

text \<open>A report that the room of the match is gone is on the way.\<close>

definition reported :: "wire \<Rightarrow> string \<Rightarrow> sent list \<Rightarrow> bool" where
  "reported w m xs \<longleftrightarrow> (\<exists>c. Sent c (msg_number ROOM_DESTROYED_PUSH) (destroyed_body w m) \<in> set xs)"

lemma notify_reports:
  assumes "connected re"
  shows "reported w m (notifyMatchSvr w re m)"
proof -
  obtain reg c where "re_reg re = Some reg" "RouteTo (re_rnd re) (re_props re) reg SvcMatchSvr m = Some c"
    using assms by (fastforce simp: connected_def)
  then show ?thesis
    by (simp add: reported_def notifyMatchSvr_def destroyed_body_def)
qed

lemma remove_keeps_or_reports:
  assumes "connected re" "fmlookup rs m \<noteq> None" "remove_player w re m' pid c rs = (rs', out)"
  shows "fmlookup rs' m \<noteq> None \<or> reported w m out"
  using assms notify_reports [OF assms(1), of w m]
  by (auto simp: remove_player_def Let_def reported_def split: option.splits if_splits)

lemma join_keeps: "fmlookup rs m \<noteq> None \<Longrightarrow> fmlookup (fst (handleJoin w env c rs)) m \<noteq> None"
  by (auto simp: handleJoin_def Let_def members_def split: option.split)

lemma reconnected_keeps: "fmlookup rs m \<noteq> None \<Longrightarrow> fmlookup (handleReconnected w c body rs) m \<noteq> None"
  by (auto simp: handleReconnected_def Let_def split: option.split)

text \<open>A request to a connected room server keeps a room or reports its end.\<close>

lemma room_keeps_or_reports:
  assumes "connected re" "fmlookup rs m \<noteq> None" "RoomRouter_Handle w re c msgID body rs = (rs', out)"
  shows "fmlookup rs' m \<noteq> None \<or> reported w m out"
  using assms(3) join_keeps [OF assms(2)] reconnected_keeps [OF assms(2), of w c body] remove_keeps_or_reports [OF assms(1,2)] assms(2)
  by (auto simp: RoomRouter_Handle_def handleLeave_def handleForceLeave_def split: option.splits if_splits)
    (metis fst_conv option.distinct(1))

lemma reported_filter [simp]: "reported w m (filter to_match xs) = reported w m xs"
  by (auto simp: reported_def to_match_def)

lemma reported_append [simp]: "reported w m (xs @ ys) \<longleftrightarrow> reported w m xs \<or> reported w m ys"
  by (auto simp: reported_def)

section \<open>What the match service does with reports\<close>

lemma destroyed_handled:
  assumes "wire_codec w" "str_ok w m"
  shows "fmlookup (activeMatches (fst (MatchRouter_Handle w cfg nano c (msg_number ROOM_DESTROYED_PUSH) (destroyed_body w m) st))) m = None"
proof -
  let ?env = "\<lparr>env_ConnId = 0, env_Data = mar_RoomDestroyedPush w \<lparr>destroyed_MatchId = m\<rparr>, env_ConnTags = None\<rparr>"
  have "unm_Envelope w (destroyed_body w m) = Some ?env"
      "unm_RoomDestroyedPush w (env_Data ?env) = Some \<lparr>destroyed_MatchId = m\<rparr>"
    using wire_codec.Envelope_roundtrip [OF assms(1), of ?env] wire_codec.RoomDestroyedPush_roundtrip [OF assms(1)] assms(2)
    by (simp_all add: destroyed_body_def mnorm_def mempty_def)
  then show ?thesis
    by (simp add: MatchRouter_Handle_def handleDestroyed_def decLoad_def Let_def split: option.split)
qed

lemma destroyed_only_removes:
  "fmlookup (activeMatches st) m = None \<Longrightarrow>
   fmlookup (activeMatches (fst (MatchRouter_Handle w cfg nano c (msg_number ROOM_DESTROYED_PUSH) body st))) m = None"
  by (simp add: MatchRouter_Handle_def handleDestroyed_def decLoad_def Let_def split: option.split)

lemma handle_all_removes:
  assumes "wire_codec w" "str_ok w m" "list_all to_match xs" "reported w m xs \<or> fmlookup (activeMatches st) m = None"
  shows "fmlookup (activeMatches (fold (\<lambda>x st. fst (MatchRouter_Handle w cfg nano c (sent_id x) (sent_body x) st)) xs st)) m = None"
  using assms(3,4)
proof (induction xs arbitrary: st)
  case Nil
  then show ?case by (simp add: reported_def)
next
  case (Cons x xs)
  let ?st = "fst (MatchRouter_Handle w cfg nano c (sent_id x) (sent_body x) st)"
  have num: "sent_id x = msg_number ROOM_DESTROYED_PUSH" and rest: "list_all to_match xs"
    using Cons.prems(1) by (simp_all add: to_match_def [of x])
  have "reported w m xs \<or> fmlookup (activeMatches ?st) m = None"
    using Cons.prems(2) destroyed_handled [OF assms(1,2)] destroyed_only_removes unfolding num by (auto simp: reported_def)
  then show ?case
    using Cons.IH [OF rest] by simp
qed

section \<open>Abandoned matches\<close>

lemma net_only_reports: "(cluster_step w)\<^sup>*\<^sup>* cluster_init cl \<Longrightarrow> list_all to_match (cl_net cl)"
proof (induction rule: rtranclp_induct)
  case base
  show ?case by (simp add: cluster_init_def)
next
  case (step cl cl')
  from step.hyps(2) step.IH show ?case
    by (cases rule: cluster_step.cases) (auto simp: list_all_iff)
qed

lemma active_run_steps: "active_run w m cl cl' \<Longrightarrow> (cluster_step w)\<^sup>*\<^sup>* cl cl'"
  by (induction rule: active_run.induct) auto

lemma step_keeps_or_reports:
  assumes "wire_codec w" "str_ok w m" "cluster_step w cl cl'" "active cl' m" "occupied cl m \<or> reported w m (cl_net cl)"
  shows "occupied cl' m \<or> reported w m (cl_net cl')"
  using assms(3)
proof (cases rule: cluster_step.cases)
  case (at_match cfg nano c msgID body)
  then show ?thesis using assms(5) by (simp add: occupied_def)
next
  case (at_room re c msgID body s rs out)
  show ?thesis
  proof (cases "reported w m (cl_net cl)")
    case False
    then obtain s' where s': "fmlookup (cl_rooms cl s') m \<noteq> None"
      using assms(5) by (auto simp: occupied_def)
    then show ?thesis
      using at_room room_keeps_or_reports [of re "cl_rooms cl s" m w c msgID body rs out]
      by (cases "s' = s") (auto simp: occupied_def)
  qed (use at_room in simp)
next
  case (deliver xs x ys cfg nano c)
  have "x \<noteq> Sent c' (msg_number ROOM_DESTROYED_PUSH) (destroyed_body w m)" for c'
    using destroyed_handled [OF assms(1,2), of cfg nano c "cl_match cl"] assms(4) deliver(1) by (auto simp: active_def)
  then have "\<not> reported w m [x]"
    by (auto simp: reported_def)
  moreover have "reported w m (xs @ x # ys) \<longleftrightarrow> reported w m [x] \<or> reported w m (xs @ ys)"
    by (auto simp: reported_def)
  ultimately show ?thesis
    using assms(5) deliver by (auto simp: occupied_def)
qed

lemma deliver_all_steps:
  "(cluster_step w)\<^sup>*\<^sup>* cl (deliver_all w cfg nano c cl)"
proof -
  have "(cluster_step w)\<^sup>*\<^sup>* (cl\<lparr>cl_match := st, cl_net := xs\<rparr>)
      (cl\<lparr>cl_match := fold (\<lambda>x st. fst (MatchRouter_Handle w cfg nano c (sent_id x) (sent_body x) st)) xs st, cl_net := []\<rparr>)" for st xs
  proof (induction xs arbitrary: st)
    case (Cons x xs)
    have "cluster_step w (cl\<lparr>cl_match := st, cl_net := x # xs\<rparr>)
        (cl\<lparr>cl_match := fst (MatchRouter_Handle w cfg nano c (sent_id x) (sent_body x) st), cl_net := xs\<rparr>)"
      using cluster_step.deliver [of "cl\<lparr>cl_match := st, cl_net := x # xs\<rparr>" "[]" x xs w cfg nano c] by simp
    then show ?case
      using Cons.IH by (simp add: converse_rtranclp_into_rtranclp)
  qed simp
  from this [of "cl_net cl" "cl_match cl"] show ?thesis
    by (simp add: deliver_all_def)
qed

text \<open>
  C11: No match is left behind. When a match of the directory has a room, and later, after
  any interleaving of requests to the match service and the room servers and of deliveries
  during which the match stays in the directory, no room server has a room for it, then
  the handling of the messages on the way, which is a run of the system, takes the match out of the directory.
\<close>

theorem abandoned_match_ends:
  assumes "wire_codec w" "str_ok w m" "(cluster_step w)\<^sup>*\<^sup>* cluster_init cl" "occupied cl m"
    and "active_run w m cl cl'" "\<not> occupied cl' m"
  shows "(cluster_step w)\<^sup>*\<^sup>* cl' (deliver_all w cfg nano c cl') \<and> \<not> active (deliver_all w cfg nano c cl') m"
proof -
  have "occupied cl' m \<or> reported w m (cl_net cl')"
    using assms(5,4)
  proof (induction rule: active_run.induct)
    case (move cl cl1 cl2)
    then show ?case using step_keeps_or_reports [OF assms(1,2)] by blast
  qed blast
  then have "reported w m (cl_net cl')"
    using assms(6) by simp
  moreover have "list_all to_match (cl_net cl')"
    using net_only_reports rtranclp_trans [OF assms(3) active_run_steps [OF assms(5)]] by blast
  ultimately show ?thesis
    using handle_all_removes [OF assms(1,2), of "cl_net cl'" "cl_match cl'" cfg nano c] deliver_all_steps
    by (simp add: active_def deliver_all_def)
qed

section \<open>A concrete run\<close>

text \<open>A match is allocated, its only player joins, and leaves.\<close>

lemma pb_m: "str_ok pb_wire ''m''"
  by (simp add: pb_str_ok utf8_ok_def)

definition allocated :: match_state where
  "allocated = fst (MatchRouter_Handle pb_wire match_cfg 5 1 (msg_number MATCH_ALLOCATE_REQ) (mar_Envelope pb_wire
     \<lparr>env_ConnId = 3, env_Data = mar_MatchAllocateReq pb_wire \<lparr>allocreq_MatchId = ''m''\<rparr>, env_ConnTags = None\<rparr>) match_init)"

lemma allocated_match:
  "match_reach pb_wire allocated" "\<exists>d. fmlookup (activeMatches allocated) ''m'' = Some d \<and> load_of (loadCounts allocated) (md_ServerID d) \<le> i64_max"
proof -
  show "match_reach pb_wire allocated"
    unfolding allocated_def
    by (rule match_reach.handle [OF match_reach.start]) (simp_all add: match_init_def hosted_def i64_max_def)
  have pick: "pickLeastLoaded match_cfg SvcRoomSvr fmempty = ''r1''"
    by (simp add: pickLeastLoaded_def match_cfg_def services_def load_of_def i64_max_def Let_def)
  show "\<exists>d. fmlookup (activeMatches allocated) ''m'' = Some d \<and> load_of (loadCounts allocated) (md_ServerID d) \<le> i64_max"
    by (simp add: allocated_def MatchRouter_Handle_def pb.Envelope_roundtrip handleAllocate_def pb.MatchAllocateReq_roundtrip
        pb_m match_init_def pick Let_def incLoad_def load_of_def i64_wrap_def i64_max_def)
qed

definition room_env1 :: room_env where
  "room_env1 = \<lparr>re_reg = Some \<lparr>reg_backends = fmupd SvcMatchSvr sample_pool fmempty, reg_identity = SvcRoomSvr\<rparr>,
     re_props = fmempty, re_rnd = 0\<rparr>"

lemma room_env1_connected: "connected room_env1"
  by (simp add: connected_def room_env1_def RouteTo_def Route_def sample_pool_def apply_route_def HashRoute_def HealthyConns_def live_def new_entry_def)

lemma room_msg_read: "utf8_ok pid \<Longrightarrow> unm_Envelope pb_wire (mar_Envelope pb_wire (room_msg d pid n)) = Some (room_msg d pid n)"
  using pb.Envelope_roundtrip [of "room_msg d pid n"] tags_ok_upd [of pb_wire TagPlayerID pid fmempty]
  by (simp add: room_msg_def pb_str_ok utf8_ok_def key_defs mnorm_def mempty_def)

definition after_join :: cluster where
  "after_join = \<lparr>cl_match = allocated, cl_rooms = (\<lambda>_. fmempty)(''r1'' := one_member), cl_net = []\<rparr>"

lemma after_join_reached: "(cluster_step pb_wire)\<^sup>*\<^sup>* cluster_init after_join"
proof -
  let ?cl = "cluster_init\<lparr>cl_match := allocated\<rparr>"
  have "cluster_step pb_wire cluster_init ?cl"
    using cluster_step.at_match [of pb_wire cluster_init match_cfg 5 1] by (simp add: allocated_def cluster_init_def)
  moreover have "RoomRouter_Handle pb_wire room_env1 1 (msg_number ROOM_JOIN_REQ) (mar_Envelope pb_wire (join_msg ''7'' 11)) (cl_rooms ?cl ''r1'')
      = (one_member, sendJoinResp pb_wire 1 11 ''m'' True '''')"
    using handleJoin_cases(2) [OF room_msgs_read(1) refl refl, of "''7''" 11 fmempty 1] room_msg_read [of "''7''"] room_msgs_read
    by (simp add: RoomRouter_Handle_def join_msg_def cluster_init_def members_def one_member_def utf8_ok_def) (simp add: room_msg_def)
  from cluster_step.at_room [OF room_env1_connected this]
  have "cluster_step pb_wire ?cl after_join"
    by (simp add: cluster_init_def after_join_def sendJoinResp_def to_match_def)
  ultimately show ?thesis by (meson converse_rtranclp_into_rtranclp rtranclp.rtrancl_refl)
qed

theorem abandoned_match_ends_witness:
  "\<exists>cl'. active_run pb_wire ''m'' after_join cl' \<and> active cl' ''m'' \<and> \<not> active (deliver_all pb_wire match_cfg 6 1 cl') ''m''"
proof -
  obtain rs out where leave: "RoomRouter_Handle pb_wire room_env1 1 (msg_number ROOM_LEAVE_REQ) (mar_Envelope pb_wire (leave_msg ''7'' 11))
      (cl_rooms after_join ''r1'') = (rs, out)"
    by fastforce
  have "rs = fmempty"
    using leave room_msg_read [of "''7''"] room_msgs_read
    by (auto simp: RoomRouter_Handle_def leave_msg_def handleLeave_def remove_player_def after_join_def one_member_def utf8_ok_def remove_at_def Let_def
        intro!: fmap_ext)
  let ?cl = "after_join\<lparr>cl_rooms := (cl_rooms after_join)(''r1'' := rs), cl_net := cl_net after_join @ filter to_match out\<rparr>"
  have act: "active after_join ''m''" "active ?cl ''m''"
    using allocated_match(2) by (auto simp: active_def after_join_def)
  then have run: "active_run pb_wire ''m'' after_join ?cl"
    using cluster_step.at_room [OF room_env1_connected leave] by (blast intro: active_run.intros)
  have "occupied after_join ''m''" "\<not> occupied ?cl ''m''"
    using \<open>rs = fmempty\<close> by (auto simp: occupied_def after_join_def one_member_def)
  from abandoned_match_ends [OF pb.wire_codec_axioms pb_m after_join_reached this(1) run this(2), of match_cfg 6 1]
  show ?thesis using run act(2) by blast
qed

end
