(* ===== verification/ChatSvr.thy ===== *)
theory ChatSvr
  imports Broadcast
begin

text \<open>
  apps/chatsvr/internal/router/chat_router.go: a chat message is pushed to one player, with
  a copy to the sender, or to everybody. The clock in seconds is an argument.
\<close>

definition ChatRouter_Handle ::
  "wire \<Rightarrow> props \<Rightarrow> conn list \<Rightarrow> i64 \<Rightarrow> conn \<Rightarrow> bytes \<Rightarrow> sent list" where
  "ChatRouter_Handle w ps conns now c body =
     (case unm_Envelope w body of
        None \<Rightarrow> []
      | Some env \<Rightarrow>
         (case unm_ChatReq w (env_Data env) of
            None \<Rightarrow> []
          | Some req \<Rightarrow>
              let push = mar_ChatResp w \<lparr>chatresp_SenderPlayerId = parse_int (mget (env_ConnTags env) TagPlayerID),
                    chatresp_Content = chatreq_Content req, chatresp_Timestamp = now,
                    chatresp_TargetPlayerId = chatreq_TargetPlayerId req\<rparr>
              in if chatreq_TargetPlayerId req \<noteq> 0
                 then ToPlayer w ps conns (msg_number CHAT_RESP) (chatreq_TargetPlayerId req) push
                      @ ToConn w (msg_number CHAT_RESP) (env_ConnId env) push c
                 else ToAll w ps conns (msg_number CHAT_RESP) push))"

lemma ChatRouter_cases:
  assumes "unm_Envelope w body = Some env" "unm_ChatReq w (env_Data env) = Some req"
    and "push = mar_ChatResp w \<lparr>chatresp_SenderPlayerId = parse_int (mget (env_ConnTags env) TagPlayerID),
      chatresp_Content = chatreq_Content req, chatresp_Timestamp = now, chatresp_TargetPlayerId = chatreq_TargetPlayerId req\<rparr>"
  shows "chatreq_TargetPlayerId req \<noteq> 0 \<Longrightarrow> ChatRouter_Handle w ps conns now c body =
      ToPlayer w ps conns (msg_number CHAT_RESP) (chatreq_TargetPlayerId req) push
      @ ToConn w (msg_number CHAT_RESP) (env_ConnId env) push c"
    and "chatreq_TargetPlayerId req = 0 \<Longrightarrow>
      ChatRouter_Handle w ps conns now c body = ToAll w ps conns (msg_number CHAT_RESP) push"
  using assms by (simp_all add: ChatRouter_Handle_def Let_def)

end
