(* ===== verification/GatewayRoutes.thy ===== *)
theory GatewayRoutes
  imports Registry Broadcast
begin

text \<open>
  pkg/gateway: the gateway server, its route table, the announcement of backends, the
  forwarding of client messages, and start and hot reload (gateway.go, hello_router.go,
  forward_router.go). A client connection is given by its object and the identifier that
  the network library gave it; the connection manager maps identifiers to objects.
\<close>

section \<open>State\<close>

record BackendRouteInfo =
  bri_Backend :: string
  bri_RouteKey :: string
  bri_RouteType :: string

record BackendRouteCfg =
  brc_RouteKey :: string
  brc_RouteType :: string

record GatewayServer =
  gw_reg :: Registry
  gw_ID :: string
  gw_routers :: router_table
  gw_conns :: "(u64, conn) fmap"
  gw_props :: props
  gw_PlayerConns :: "(i64, u64) fmap"
  gw_routes :: "(u32, BackendRouteInfo) fmap"
  gw_backendCfgs :: "(string, BackendRouteCfg) fmap"
  gw_fwdRegistered :: "u32 list"
  gw_pendingSessionGets :: "(i64, nat) fmap"
  gw_pendingDisconnects :: "(i64, i64) fmap"
  gw_pendingAuths :: "(string, i64) fmap"

definition RouteFor :: "GatewayServer \<Rightarrow> u32 \<Rightarrow> BackendRouteInfo option" where
  "RouteFor gw msgID = fmlookup (gw_routes gw) msgID"

definition SetRoutes :: "(u32, BackendRouteInfo) fmap \<Rightarrow> GatewayServer \<Rightarrow> GatewayServer" where
  "SetRoutes r gw = gw\<lparr>gw_routes := r\<rparr>"

definition SetBackendCfgs :: "(string, BackendRouteCfg) fmap \<Rightarrow> GatewayServer \<Rightarrow> GatewayServer" where
  "SetBackendCfgs cfgs gw = gw\<lparr>gw_backendCfgs := cfgs\<rparr>"

definition gw_RouteTo :: "nat \<Rightarrow> GatewayServer \<Rightarrow> string \<Rightarrow> string \<Rightarrow> conn option" where
  "gw_RouteTo rnd gw backend key = RouteTo rnd (gw_props gw) (gw_reg gw) backend key"

section \<open>Route index\<close>

definition add_forward :: "string \<Rightarrow> BackendRoute \<Rightarrow> (u32, BackendRouteInfo) fmap \<Rightarrow> (u32, BackendRouteInfo) fmap" where
  "add_forward backend rc routes =
     fold (\<lambda>msgID r. fmupd msgID \<lparr>bri_Backend = backend, bri_RouteKey = br_RouteKey rc, bri_RouteType = br_RouteType rc\<rparr> r)
       (br_Forward rc) routes"

text \<open>The list is the order in which the configured routes are ranged over.\<close>

definition BuildRouteIndex ::
  "string list \<Rightarrow> GatewayConfig \<Rightarrow> (u32, BackendRouteInfo) fmap \<times> (string, BackendRouteCfg) fmap" where
  "BuildRouteIndex order cfg =
     fold (\<lambda>backend (routes, cfgs).
         case fmlookup (gc_Routes cfg) backend of
           None \<Rightarrow> (routes, cfgs)
         | Some rc \<Rightarrow> (add_forward backend rc routes,
             fmupd backend \<lparr>brc_RouteKey = br_RouteKey rc, brc_RouteType = br_RouteType rc\<rparr> cfgs))
       order (fmempty, fmempty)"

section \<open>Announcements of backends\<close>

definition backendRouters :: router_table where
  "backendRouters = [(msg_number PING, ''PingRouter''), (msg_number SERVICE_HELLO, ''ServiceHelloRouter'')]"

definition sessionRouters :: router_table where
  "sessionRouters = [(msg_number PING, ''PingRouter''), (msg_number SESSION_GET, ''SessionResponseRouter''),
     (msg_number SESSION_RECONNECT, ''SessionResponseRouter''), (msg_number SESSION_INVALIDATE, ''SessionResponseRouter'')]"

fun register_forward :: "string \<Rightarrow> BackendRouteCfg \<Rightarrow> u32 list \<Rightarrow> GatewayServer \<Rightarrow> GatewayServer" where
  "register_forward svc cfg [] gw = gw"
| "register_forward svc cfg (msgID # msgIDs) gw =
     (if msgID \<in> set (gw_fwdRegistered gw) then register_forward svc cfg msgIDs gw
      else register_forward svc cfg msgIDs
        (gw\<lparr>gw_fwdRegistered := msgID # gw_fwdRegistered gw,
            gw_routes := fmupd msgID \<lparr>bri_Backend = svc, bri_RouteKey = brc_RouteKey cfg, bri_RouteType = brc_RouteType cfg\<rparr> (gw_routes gw),
            gw_routers := gw_routers gw @ [(msgID, ''ForwardRouter'')]\<rparr>))"

definition ServiceHelloRouter_Handle :: "wire \<Rightarrow> conn \<Rightarrow> bytes \<Rightarrow> GatewayServer \<Rightarrow> GatewayServer" where
  "ServiceHelloRouter_Handle w c body gw =
     (case unm_ServiceHello w body of
        None \<Rightarrow> gw
      | Some hello \<Rightarrow>
         (case fmlookup (gw_backendCfgs gw) (hello_Service hello) of
            None \<Rightarrow> gw
          | Some cfg \<Rightarrow>
              let gw1 = register_forward (hello_Service hello) cfg (hello_MsgIds hello) gw
              in case RegistryPool (gw_reg gw1) (hello_Service hello) of
                None \<Rightarrow> gw1
              | Some pool \<Rightarrow>
                  gw1\<lparr>gw_reg := (gw_reg gw1)\<lparr>reg_backends := fmupd (hello_Service hello)
                    (fold (\<lambda>msgID p. AddConnectionRouter c msgID ''ResponseRouter'' p) (hello_SendMsgIds hello) pool)
                    (reg_backends (gw_reg gw1))\<rparr>\<rparr>))"

section \<open>Forwarding\<close>

definition resolveRouteKey :: "GatewayServer \<Rightarrow> conn \<Rightarrow> u64 \<Rightarrow> BackendRouteInfo \<Rightarrow> string" where
  "resolveRouteKey gw c connID route =
     (let key = bri_RouteKey route
      in if key = '''' \<or> key = ''connId'' then FormatUint connID
         else case GetProperty (gw_props gw) c key of
           Some v \<Rightarrow> Sprint v
         | None \<Rightarrow> FormatUint connID)"

definition unavailable :: string where
  "unavailable = ''service unavailable: backend offline''"

definition sendError :: "wire \<Rightarrow> i64 \<Rightarrow> conn \<Rightarrow> u32 \<Rightarrow> sent list" where
  "sendError w now c reqMsgID =
     (if reqMsgID = msg_number CHAT_REQ then
        [Sent c (msg_number CHAT_RESP) (mar_ChatResp w \<lparr>chatresp_SenderPlayerId = -1, chatresp_Content = unavailable,
           chatresp_Timestamp = now, chatresp_TargetPlayerId = 0\<rparr>)]
      else if reqMsgID = msg_number MATCH_ENTER_REQ then
        [Sent c (msg_number MATCH_ENTER_RESP) (mar_MatchEnterResp w \<lparr>enterresp_Status = ''error'', enterresp_QueueSize = 0\<rparr>)]
      else if reqMsgID = msg_number MATCH_ALLOCATE_REQ then
        [Sent c (msg_number MATCH_ALLOCATE_RESP) (mar_MatchAllocateResp w \<lparr>allocresp_MatchId = '''', allocresp_ServerId = '''', allocresp_Error = unavailable\<rparr>)]
      else if reqMsgID = msg_number MATCH_QUERY_REQ then
        [Sent c (msg_number MATCH_QUERY_RESP) (mar_MatchQueryResp w \<lparr>queryresp_MatchId = '''', queryresp_ServerId = '''', queryresp_Found = False\<rparr>)]
      else if reqMsgID = msg_number ROOM_JOIN_REQ then
        [Sent c (msg_number ROOM_JOIN_RESP) (mar_RoomJoinResp w \<lparr>joinresp_Success = False, joinresp_MatchId = '''', joinresp_ServerId = '''', joinresp_Error = unavailable\<rparr>)]
      else if reqMsgID = msg_number ROOM_LEAVE_REQ then
        [Sent c (msg_number ROOM_LEAVE_RESP) (mar_RoomLeaveResp w \<lparr>leaveresp_Success = False, leaveresp_Error = unavailable\<rparr>)]
      else [Sent c (reqMsgID + 1) []])"

text \<open>
  A player property that is not an integer makes the type assertion of the handler panic,
  the result \<open>None\<close>.
\<close>

definition ForwardRouter_Handle ::
  "wire \<Rightarrow> nat \<Rightarrow> i64 \<Rightarrow> conn \<Rightarrow> u64 \<Rightarrow> u32 \<Rightarrow> bytes \<Rightarrow> GatewayServer \<Rightarrow> sent list option" where
  "ForwardRouter_Handle w rnd now c connID msgID body gw =
     (case RouteFor gw msgID of
        None \<Rightarrow> Some []
      | Some route \<Rightarrow>
          let key = resolveRouteKey gw c connID route
          in if key = '''' then Some []
             else let env = \<lparr>env_ConnId = connID, env_Data = body, env_ConnTags = None\<rparr>;
                      send = (\<lambda>env. case gw_RouteTo rnd gw (bri_Backend route) key of
                          None \<Rightarrow> sendError w now c msgID
                        | Some b \<Rightarrow> [Sent b msgID (mar_Envelope w env)])
                  in (case GetProperty (gw_props gw) c PropPlayerID of
                        None \<Rightarrow> Some (send env)
                      | Some (PStr _) \<Rightarrow> None
                      | Some (PInt pid) \<Rightarrow>
                          Some (send (env\<lparr>env_ConnTags := Some (fmupd TagPlayerID (FormatInt pid) fmempty)\<rparr>))))"

section \<open>Start and reload\<close>

definition DialSessionSvr ::
  "Config \<Rightarrow> conn option list \<Rightarrow> GatewayServer \<Rightarrow> conf_panic + GatewayServer \<times> sent list" where
  "DialSessionSvr cfg attempts gw =
     (case RegistryDial cfg SvcSessionSvr sessionRouters ByHash attempts (gw_reg gw) (gw_props gw) of
        Inl e \<Rightarrow> Inl e
      | Inr (reg, ps, out) \<Rightarrow> Inr (gw\<lparr>gw_reg := reg, gw_props := ps\<rparr>, out))"

fun dial_backends ::
  "Config \<Rightarrow> (string \<Rightarrow> conn option list) \<Rightarrow> string list \<Rightarrow> GatewayServer \<Rightarrow> conf_panic + GatewayServer \<times> sent list" where
  "dial_backends cfg att [] gw = Inr (gw, [])"
| "dial_backends cfg att (b # bs) gw =
     (case fmlookup (gc_Routes (cf_Gateway cfg)) b of
        None \<Rightarrow> dial_backends cfg att bs gw
      | Some rc \<Rightarrow>
         (case RegistryDial cfg b backendRouters (RouteFuncFor (br_RouteType rc)) (att b) (gw_reg gw) (gw_props gw) of
            Inl e \<Rightarrow> Inl e
          | Inr (reg, ps, out) \<Rightarrow>
             (case dial_backends cfg att bs (gw\<lparr>gw_reg := reg, gw_props := ps\<rparr>) of
                Inl e \<Rightarrow> Inl e
              | Inr (gw', out') \<Rightarrow> Inr (gw', out @ out'))))"

text \<open>The configuration that initWebSocket gives to the network library.\<close>

record server_conf =
  zc_Name :: string
  zc_Host :: string
  zc_TCPPort :: i64
  zc_WsPort :: i64
  zc_WsPath :: string
  zc_Mode :: string

definition initWebSocket :: "Config \<Rightarrow> string \<Rightarrow> conf_panic + server_conf" where
  "initWebSocket cfg gwID =
     (case LookupServer (services cfg SvcGateway) gwID of Inl e \<Rightarrow> Inl e | Inr gwCfg \<Rightarrow>
     (case ParseHostPort (sn_WSListen gwCfg) of Inl e \<Rightarrow> Inl e | Inr (_, wsPort) \<Rightarrow>
     (case ParseHostPort (sn_TCPListen gwCfg) of Inl e \<Rightarrow> Inl e | Inr (tcpHost, tcpPort) \<Rightarrow>
       Inr \<lparr>zc_Name = SvcGateway, zc_Host = tcpHost, zc_TCPPort = tcpPort, zc_WsPort = wsPort, zc_WsPath = ''/ws'', zc_Mode = ''tcp,ws''\<rparr>)))"

text \<open>
  The part of New after the configuration was loaded; initWebSocket may panic. The lists
  are the orders of the ranges over the routes, for the index and for the dials.
\<close>

definition gateway_start ::
  "Config \<Rightarrow> string \<Rightarrow> string list \<Rightarrow> string list \<Rightarrow> (string \<Rightarrow> conn option list) \<Rightarrow> conf_panic + GatewayServer \<times> sent list" where
  "gateway_start cfg gwID order dials att =
     (case BuildRouteIndex order (cf_Gateway cfg) of (routes, cfgs) \<Rightarrow>
     (case initWebSocket cfg gwID of Inl e \<Rightarrow> Inl e | Inr _ \<Rightarrow>
       let gw0 = \<lparr>gw_reg = NewRegistry SvcGateway, gw_ID = gwID, gw_routers = [(msg_number PING, ''PingRouter'')],
             gw_conns = fmempty, gw_props = fmempty, gw_PlayerConns = fmempty, gw_routes = routes, gw_backendCfgs = cfgs,
             gw_fwdRegistered = [], gw_pendingSessionGets = fmempty, gw_pendingDisconnects = fmempty, gw_pendingAuths = fmempty\<rparr>
       in case dial_backends cfg att dials gw0 of
            Inl e \<Rightarrow> Inl e
          | Inr (gw1, out1) \<Rightarrow>
             (case DialSessionSvr cfg (att SvcSessionSvr) gw1 of
                Inl e \<Rightarrow> Inl e
              | Inr (gw2, out2) \<Rightarrow> Inr (gw2, out1 @ out2))))"

definition gateway_New ::
  "yaml \<Rightarrow> bytes option \<Rightarrow> string \<Rightarrow> string list \<Rightarrow> string list \<Rightarrow> (string \<Rightarrow> conn option list)
   \<Rightarrow> load_error + conf_panic + GatewayServer \<times> sent list" where
  "gateway_New y file gwID order dials att =
     (case Load y file of
        (cfg, Some e) \<Rightarrow> Inl e
      | (cfg, None) \<Rightarrow> Inr (gateway_start cfg gwID order dials att))"

text \<open>What a pool synchronization meets: the orders of its two ranges and its attempts.\<close>

record sync_run =
  sy_wanted :: "string list"
  sy_current :: "string list"
  sy_attempt :: "string \<Rightarrow> conn option"

definition gw_SyncBackend ::
  "Config \<Rightarrow> string \<Rightarrow> router_table \<Rightarrow> RouteFunc \<Rightarrow> sync_run \<Rightarrow> GatewayServer \<Rightarrow> conf_panic + GatewayServer \<times> sent list \<times> conn list" where
  "gw_SyncBackend cfg b routers f sy gw =
     (case SyncBackend cfg b routers f (sy_wanted sy) (sy_current sy) (sy_attempt sy) (gw_reg gw) (gw_props gw) of
        Inl e \<Rightarrow> Inl e
      | Inr (reg, ps, out, stopped) \<Rightarrow> Inr (gw\<lparr>gw_reg := reg, gw_props := ps\<rparr>, out, stopped))"

fun sync_backends ::
  "Config \<Rightarrow> (string \<Rightarrow> sync_run) \<Rightarrow> string list \<Rightarrow> GatewayServer \<Rightarrow> conf_panic + GatewayServer \<times> sent list \<times> conn list" where
  "sync_backends cfg sy [] gw = Inr (gw, [], [])"
| "sync_backends cfg sy (b # bs) gw =
     (case fmlookup (gc_Routes (cf_Gateway cfg)) b of
        None \<Rightarrow> sync_backends cfg sy bs gw
      | Some rc \<Rightarrow>
         (case gw_SyncBackend cfg b backendRouters (RouteFuncFor (br_RouteType rc)) (sy b) gw of
            Inl e \<Rightarrow> Inl e
          | Inr (gw1, out, stopped) \<Rightarrow>
             (case sync_backends cfg sy bs gw1 of
                Inl e \<Rightarrow> Inl e
              | Inr (gw', out', stopped') \<Rightarrow> Inr (gw', out @ out', stopped @ stopped'))))"

text \<open>
  The reload callback: pools first, then the session service, then the backends that are
  gone, and the route table last. The lists are the orders of the ranges over the routes, for
  the index and for the pools, and over the pools. The result lists the stopped connections.
\<close>

definition hot_reload ::
  "Config \<Rightarrow> string list \<Rightarrow> string list \<Rightarrow> (string \<Rightarrow> sync_run) \<Rightarrow> string list \<Rightarrow> GatewayServer
   \<Rightarrow> conf_panic + GatewayServer \<times> sent list \<times> conn list" where
  "hot_reload cfg order syncs sy names gw =
     (case BuildRouteIndex order (cf_Gateway cfg) of (newIndex, cfgs) \<Rightarrow>
     (case sync_backends cfg sy syncs gw of Inl e \<Rightarrow> Inl e | Inr (gw1, out1, stop1) \<Rightarrow>
     (case gw_SyncBackend cfg SvcSessionSvr sessionRouters ByHash (sy SvcSessionSvr) gw1 of Inl e \<Rightarrow> Inl e | Inr (gw2, out2, stop2) \<Rightarrow>
     (case CleanupBackends names (fset (fmdom (gc_Routes (cf_Gateway cfg))) \<union> {SvcSessionSvr}) (gw_reg gw2) of (reg, stopped) \<Rightarrow>
        Inr (SetRoutes newIndex (SetBackendCfgs cfgs (gw2\<lparr>gw_reg := reg\<rparr>)), out1 @ out2, stop1 @ stop2 @ stopped)))))"

text \<open>What one run of the callback meets.\<close>

record reload_run =
  rl_order :: "string list"
  rl_syncs :: "string list"
  rl_sync :: "string \<Rightarrow> sync_run"
  rl_names :: "string list"

text \<open>The runs of the callback for the configurations that the watcher hands over, counted from \<open>n\<close>.\<close>

fun apply_reloads :: "(nat \<Rightarrow> reload_run) \<Rightarrow> nat \<Rightarrow> Config list \<Rightarrow> GatewayServer \<Rightarrow> conf_panic + GatewayServer" where
  "apply_reloads runs n [] gw = Inr gw"
| "apply_reloads runs n (cfg # cfgs) gw =
     (case hot_reload cfg (rl_order (runs n)) (rl_syncs (runs n)) (rl_sync (runs n)) (rl_names (runs n)) gw of
        Inl e \<Rightarrow> Inl e
      | Inr (gw', _, _) \<Rightarrow> apply_reloads runs (Suc n) cfgs gw')"

text \<open>
  A gateway under the watch that New sets up; when it cannot be set up, which is only
  logged, the gateway keeps its routes. The other handlers of the gateway are left out here.
\<close>

definition gateway_watch ::
  "yaml \<Rightarrow> bool \<Rightarrow> bool \<Rightarrow> watch_input list \<Rightarrow> (nat \<Rightarrow> reload_run) \<Rightarrow> Config \<Rightarrow> GatewayServer \<Rightarrow> conf_panic + GatewayServer" where
  "gateway_watch y created added ins runs global gw =
     (case Watch y created added ins global of
        Inl _ \<Rightarrow> Inr gw
      | Inr (_, handed) \<Rightarrow> apply_reloads runs 0 handed gw)"

section \<open>Forwarding delivers or says so\<close>

lemma RouteTo_total:
  assumes "RegistryPool r backend = Some p" "pool_routeFn p \<noteq> ByServerID"
  shows "RouteTo rnd ps r backend key = None \<longleftrightarrow> (\<forall>e\<in>set (pool_conns p). \<not> live e)"
  using assms hash.routes_iff [of key p] rand.routes_iff [of rnd key p]
  by (auto simp: RouteTo_def RegistryPool_def Route_def apply_route_def split: RouteFunc.splits)

lemma sendError_one: "\<exists>reply. sendError w now c msgID = [Sent c (msgID + 1) reply]"
  by (auto simp: sendError_def)

lemma player_tag_ok:
  "str_ok w TagPlayerID \<Longrightarrow> str_ok w (FormatInt pid) \<Longrightarrow> tags_ok w (Some (fmupd TagPlayerID (FormatInt pid) fmempty))"
  by (intro tags_ok_upd) simp_all


section \<open>Announcements\<close>

text \<open>
  What holds of the server between announcements: every number has one router, the ping
  router or, for the registered numbers, the forwarding router, and every registered
  number has a route.
\<close>

definition served :: "GatewayServer \<Rightarrow> bool" where
  "served gw \<longleftrightarrow> distinct (map fst (gw_routers gw)) \<and>
     set (gw_routers gw) = insert (msg_number PING, ''PingRouter'') ((\<lambda>m. (m, ''ForwardRouter'')) ` set (gw_fwdRegistered gw)) \<and>
     set (gw_fwdRegistered gw) \<subseteq> fset (fmdom (gw_routes gw))"

lemma register_forward_served:
  "served gw \<Longrightarrow> msg_number PING \<notin> set msgIDs \<Longrightarrow> served (register_forward svc cfg msgIDs gw)"
proof (induction svc cfg msgIDs gw rule: register_forward.induct)
  case (2 svc cfg msgID msgIDs gw)
  show ?case
  proof (cases "msgID \<in> set (gw_fwdRegistered gw)")
    case False
    then have "msgID \<notin> fst ` set (gw_routers gw)"
      using 2(3,4) by (force simp: served_def)
    then have "served (gw\<lparr>gw_fwdRegistered := msgID # gw_fwdRegistered gw,
            gw_routes := fmupd msgID \<lparr>bri_Backend = svc, bri_RouteKey = brc_RouteKey cfg, bri_RouteType = brc_RouteType cfg\<rparr> (gw_routes gw),
            gw_routers := gw_routers gw @ [(msgID, ''ForwardRouter'')]\<rparr>)"
      using 2(3) by (auto simp: served_def)
    then show ?thesis using 2 False by simp
  qed (use 2 in simp)
qed simp

lemma register_forward_registered:
  "set (gw_fwdRegistered (register_forward svc cfg msgIDs gw)) = set (gw_fwdRegistered gw) \<union> set msgIDs"
  by (induction svc cfg msgIDs gw rule: register_forward.induct) auto

lemma register_forward_routes:
  "fmlookup (gw_routes (register_forward svc cfg msgIDs gw)) m =
     (if m \<in> set msgIDs \<and> m \<notin> set (gw_fwdRegistered gw)
      then Some \<lparr>bri_Backend = svc, bri_RouteKey = brc_RouteKey cfg, bri_RouteType = brc_RouteType cfg\<rparr>
      else fmlookup (gw_routes gw) m)"
  by (induction svc cfg msgIDs gw rule: register_forward.induct) auto

lemma hello_gateway:
  "\<exists>reg. ServiceHelloRouter_Handle w c body gw =
     (case unm_ServiceHello w body of None \<Rightarrow> gw
      | Some hello \<Rightarrow> (case fmlookup (gw_backendCfgs gw) (hello_Service hello) of None \<Rightarrow> gw
          | Some cfg \<Rightarrow> (register_forward (hello_Service hello) cfg (hello_MsgIds hello) gw)\<lparr>gw_reg := reg\<rparr>))"
proof -
  have "\<exists>reg. gw1 = gw1\<lparr>gw_reg := reg\<rparr>" for gw1 :: GatewayServer
    by (rule exI [of _ "gw_reg gw1"]) simp
  then show ?thesis
    by (auto simp: ServiceHelloRouter_Handle_def Let_def split: option.splits)
qed

lemma served_reg [simp]: "served (gw\<lparr>gw_reg := reg\<rparr>) = served gw"
  by (simp add: served_def)

definition announces :: "wire \<Rightarrow> MsgID \<Rightarrow> bytes \<Rightarrow> bool" where
  "announces w m body \<longleftrightarrow> (case unm_ServiceHello w body of None \<Rightarrow> False
     | Some hello \<Rightarrow> msg_number m \<in> set (hello_MsgIds hello))"

lemma hello_served:
  assumes "served gw" "\<not> announces w PING body"
  shows "served (ServiceHelloRouter_Handle w c body gw)"
  using hello_gateway [of w c body gw] assms
  by (auto simp: announces_def register_forward_served split: option.splits)

lemma hello_keeps_registered:
  assumes "m \<in> set (gw_fwdRegistered gw)"
  shows "m \<in> set (gw_fwdRegistered (ServiceHelloRouter_Handle w c body gw)) \<and>
    RouteFor (ServiceHelloRouter_Handle w c body gw) m = RouteFor gw m"
  using hello_gateway [of w c body gw] assms
  by (auto simp: RouteFor_def register_forward_routes register_forward_registered split: option.splits)

fun hellos :: "wire \<Rightarrow> (conn \<times> bytes) list \<Rightarrow> GatewayServer \<Rightarrow> GatewayServer" where
  "hellos w [] gw = gw"
| "hellos w ((c, body) # hs) gw = hellos w hs (ServiceHelloRouter_Handle w c body gw)"

lemma hellos_served: "served gw \<Longrightarrow> \<forall>h\<in>set hs. \<not> announces w PING (snd h) \<Longrightarrow> served (hellos w hs gw)"
  by (induction w hs gw rule: hellos.induct) (auto simp: hello_served)

lemma hellos_keep_registered:
  "m \<in> set (gw_fwdRegistered gw) \<Longrightarrow> m \<in> set (gw_fwdRegistered (hellos w hs gw)) \<and> RouteFor (hellos w hs gw) m = RouteFor gw m"
  by (induction w hs gw rule: hellos.induct) (use hello_keeps_registered in auto)

lemma dial_backends_server:
  "dial_backends cfg att bs gw = Inr (gw', out) \<Longrightarrow>
     gw_routers gw' = gw_routers gw \<and> gw_fwdRegistered gw' = gw_fwdRegistered gw \<and> gw_routes gw' = gw_routes gw"
proof (induction bs arbitrary: gw gw' out)
  case (Cons b bs)
  show ?case
    using Cons.prems by (auto split: option.splits sum.splits prod.splits dest!: Cons.IH)
qed simp

lemma gateway_start_served: "gateway_start cfg gwID order dials att = Inr (gw, out) \<Longrightarrow> served gw"
  by (auto simp: gateway_start_def DialSessionSvr_def served_def Let_def
      dest!: dial_backends_server split: prod.split_asm sum.split_asm)


section \<open>Reload\<close>

lemma sync_backends_registered:
  "sync_backends cfg sy bs gw = Inr (gw', out, stopped) \<Longrightarrow> gw_fwdRegistered gw' = gw_fwdRegistered gw"
proof (induction bs arbitrary: gw gw' out stopped)
  case (Cons b bs)
  show ?case
    using Cons.prems by (auto simp: gw_SyncBackend_def split: option.splits sum.splits prod.splits dest!: Cons.IH)
qed simp

lemma hot_reload_result:
  assumes "hot_reload cfg order syncs sy names gw = Inr (gw', out, stopped)"
  shows "gw_fwdRegistered gw' = gw_fwdRegistered gw \<and> (gw_routes gw', gw_backendCfgs gw') = BuildRouteIndex order (cf_Gateway cfg)"
  using assms
  by (auto simp: hot_reload_def gw_SyncBackend_def SetRoutes_def SetBackendCfgs_def
      dest!: sync_backends_registered split: prod.splits sum.splits)

lemma add_forward_dom:
  "m |\<in>| fmdom (add_forward backend rc routes) \<longleftrightarrow> m \<in> set (br_Forward rc) \<or> m |\<in>| fmdom routes"
proof -
  have "m |\<in>| fmdom (fold (\<lambda>msgID r. fmupd msgID (f msgID) r) ms routes) \<longleftrightarrow> m \<in> set ms \<or> m |\<in>| fmdom routes" for f ms
    by (induction ms arbitrary: routes) auto
  then show ?thesis by (simp add: add_forward_def)
qed

definition forwards :: "GatewayConfig \<Rightarrow> u32 \<Rightarrow> bool" where
  "forwards cfg m \<longleftrightarrow> (\<exists>backend rc. fmlookup (gc_Routes cfg) backend = Some rc \<and> m \<in> set (br_Forward rc))"

lemma BuildRouteIndex_forwards:
  assumes "\<not> forwards cfg m"
  shows "fmlookup (fst (BuildRouteIndex order cfg)) m = None"
proof -
  let ?step = "\<lambda>backend (routes, cfgs). case fmlookup (gc_Routes cfg) backend of
      None \<Rightarrow> (routes, cfgs)
    | Some rc \<Rightarrow> (add_forward backend rc routes,
        fmupd backend \<lparr>brc_RouteKey = br_RouteKey rc, brc_RouteType = br_RouteType rc\<rparr> cfgs)"
  have "m |\<notin>| fmdom (fst (fold ?step order rc))" if "m |\<notin>| fmdom (fst rc)" for rc
    using that
  proof (induction order arbitrary: rc)
    case (Cons b bs)
    have "m |\<notin>| fmdom (fst (?step b rc))"
      using Cons.prems assms by (auto simp: forwards_def add_forward_dom split: prod.splits option.splits)
    then show ?case using Cons.IH by simp
  qed simp
  from this [of "(fmempty, fmempty)"] show ?thesis
    by (simp add: BuildRouteIndex_def fmdom_notD)
qed

text \<open>
  C35: A hot reload loses the routes that backends announced. A number that was announced and
  is not listed under a configured route has no route after the reload, and no later
  announcement brings it back, since the gateway still has it as registered: every
  message of a client on it is dropped without a reply.
\<close>

theorem reload_loses_announced_routes:
  assumes "m \<in> set (gw_fwdRegistered gw)" "\<not> forwards (cf_Gateway cfg) m"
    and "hot_reload cfg order syncs sy names gw = Inr (gw', out, stopped)"
  shows "RouteFor (hellos w hs gw') m = None \<and> ForwardRouter_Handle w rnd now c connID m body (hellos w hs gw') = Some []"
proof -
  have "RouteFor gw' m = None" "m \<in> set (gw_fwdRegistered gw')"
    using hot_reload_result [OF assms(3)] BuildRouteIndex_forwards [OF assms(2), of order] assms(1)
    by (simp_all add: RouteFor_def) (metis fst_conv)
  then have "RouteFor (hellos w hs gw') m = None"
    using hellos_keep_registered [of m gw' w hs] by simp
  then show ?thesis
    by (simp add: ForwardRouter_Handle_def)
qed

text \<open>The configurations that the watcher can load, up to the end of its channel.\<close>

fun loaded_configs :: "yaml \<Rightarrow> watch_input list \<Rightarrow> Config list" where
  "loaded_configs y [] = []"
| "loaded_configs y (ChannelClosed # ins) = []"
| "loaded_configs y (WatcherError # ins) = loaded_configs y ins"
| "loaded_configs y (FileEvent wr file # ins) =
     (if wr \<and> snd (Load y file) = None then fst (Load y file) # loaded_configs y ins else loaded_configs y ins)"

lemma watch_loop_hands_loaded: "snd (watch_loop y ins global) = loaded_configs y ins"
  by (induction y ins global rule: watch_loop.induct) (auto simp: watch_event_def split: prod.splits option.splits)

lemma apply_reloads_last:
  "apply_reloads runs n cfgs gw = Inr gw' \<Longrightarrow> cfgs \<noteq> [] \<Longrightarrow>
   (gw_routes gw', gw_backendCfgs gw') = BuildRouteIndex (rl_order (runs (n + length cfgs - 1))) (cf_Gateway (last cfgs))"
proof (induction runs n cfgs gw rule: apply_reloads.induct)
  case (2 runs n cfg cfgs gw)
  obtain gw1 out stopped where run: "hot_reload cfg (rl_order (runs n)) (rl_syncs (runs n)) (rl_sync (runs n)) (rl_names (runs n)) gw = Inr (gw1, out, stopped)"
      "apply_reloads runs (Suc n) cfgs gw1 = Inr gw'"
    using 2(2) by (auto split: sum.splits)
  show ?case
  proof (cases "cfgs = []")
    case True
    then show ?thesis using run hot_reload_result [OF run(1)] by simp
  next
    case False
    then show ?thesis using 2(1) [OF run(1) refl refl run(2)] by simp
  qed
qed simp


section \<open>Witnesses\<close>

definition chat_route :: BackendRoute where
  "chat_route = \<lparr>br_Forward = [], br_RouteKey = ''playerId'', br_RouteType = ''hash''\<rparr>"

definition chat_node :: "string \<Rightarrow> string \<Rightarrow> ServerNode" where
  "chat_node sid addr = \<lparr>sn_ID = sid, sn_TCPListen = addr, sn_WSListen = addr, sn_Listen = addr, sn_PublicAddr = ''''\<rparr>"

definition chat_config :: Config where
  "chat_config = empty_Config\<lparr>
     cf_Services := fmupd SvcChatSvr [chat_node ''c'' ''gs:1''] (fmupd SvcSessionSvr [chat_node ''s'' ''gs:2'']
       (fmupd SvcGateway [chat_node ''g'' ''gs:3''] fmempty)),
     cf_Gateway := \<lparr>gc_JWTSecret = ''key'', gc_Routes = fmupd SvcChatSvr chat_route fmempty\<rparr>\<rparr>"

lemma chat_services:
  "services chat_config SvcChatSvr = [chat_node ''c'' ''gs:1'']"
  "services chat_config SvcSessionSvr = [chat_node ''s'' ''gs:2'']"
  "services chat_config SvcGateway = [chat_node ''g'' ''gs:3'']"
  by (simp_all add: services_def chat_config_def SvcChatSvr_def SvcSessionSvr_def SvcGateway_def)

lemma chat_index:
  "gc_Routes (cf_Gateway chat_config) = fmupd SvcChatSvr chat_route fmempty"
  "BuildRouteIndex [SvcChatSvr] (cf_Gateway chat_config) =
     (fmempty, fmupd SvcChatSvr \<lparr>brc_RouteKey = ''playerId'', brc_RouteType = ''hash''\<rparr> fmempty)"
  by (simp_all add: chat_config_def BuildRouteIndex_def chat_route_def add_forward_def)

lemma chat_addrs:
  "ParseHostPort ''gs:1'' = Inr (''gs'', 1)" "ParseHostPort ''gs:2'' = Inr (''gs'', 2)" "ParseHostPort ''gs:3'' = Inr (''gs'', 3)"
  by (simp_all add: addr_defs)

lemma chat_names: "SvcChatSvr \<noteq> SvcSessionSvr"
  by (simp add: SvcChatSvr_def SvcSessionSvr_def)

definition chat_info :: BackendRouteInfo where
  "chat_info = \<lparr>bri_Backend = SvcChatSvr, bri_RouteKey = ''playerId'', bri_RouteType = ''hash''\<rparr>"

definition sample_gateway :: GatewayServer where
  "sample_gateway = \<lparr>gw_reg = \<lparr>reg_backends = fmupd SvcChatSvr sample_pool fmempty, reg_identity = SvcGateway\<rparr>, gw_ID = ''g'',
     gw_routers = [(1, ''PingRouter''), (5, ''ForwardRouter'')], gw_conns = fmupd 3 10 fmempty,
     gw_props = SetProperty 10 PropPlayerID (PInt 7) fmempty, gw_PlayerConns = fmupd 7 3 fmempty,
     gw_routes = fmupd 5 chat_info fmempty,
     gw_backendCfgs = fmupd SvcChatSvr \<lparr>brc_RouteKey = ''playerId'', brc_RouteType = ''hash''\<rparr> fmempty,
     gw_fwdRegistered = [5], gw_pendingSessionGets = fmempty, gw_pendingDisconnects = fmempty, gw_pendingAuths = fmempty\<rparr>"

lemma pb_player_tag: "str_ok pb_wire TagPlayerID" "str_ok pb_wire (FormatInt pid)"
  by (simp_all add: pb_str_ok utf8_ok_FormatInt) (simp add: utf8_ok_def TagPlayerID_def)


definition chat_hello :: ServiceHello where
  "chat_hello = \<lparr>hello_Service = SvcChatSvr, hello_MsgIds = [5], hello_SendMsgIds = [6]\<rparr>"


theorem reload_loses_announced_routes_witness:
  "\<exists>gw' out stopped. hot_reload chat_config [SvcChatSvr] [SvcChatSvr]
       (\<lambda>_. \<lparr>sy_wanted = [''gs:1''], sy_current = [''gs:1''], sy_attempt = (\<lambda>_. None)\<rparr>)
       [SvcChatSvr] sample_gateway = Inr (gw', out, stopped) \<and>
     ForwardRouter_Handle pb_wire 0 0 10 3 5 ''hi'' gw' = Some []"
proof -
  let ?sy = "\<lambda>_. \<lparr>sy_wanted = [''gs:1''], sy_current = [''gs:1''], sy_attempt = (\<lambda>_. None)\<rparr>"
  obtain gw' out stopped where run: "hot_reload chat_config [SvcChatSvr] [SvcChatSvr] ?sy [SvcChatSvr] sample_gateway = Inr (gw', out, stopped)"
    using chat_names
    by (simp add: hot_reload_def chat_index chat_services sample_gateway_def gw_SyncBackend_def SyncBackend_def Sync_def
        chat_node_def wanted_map_def ServerAddrs_def sample_pool_def new_entry_def Let_def chat_route_def split: prod.splits)
  have "5 \<in> set (gw_fwdRegistered sample_gateway)" "\<not> forwards (cf_Gateway chat_config) 5"
    by (auto simp: sample_gateway_def forwards_def chat_index chat_route_def split: if_splits)
  from reload_loses_announced_routes [OF this run, of pb_wire "[]" 0 0 10 3 "''hi''"] run
  show ?thesis by auto
qed


end
