(* ===== verification/Auth.thy ===== *)
theory Auth
  imports Prelude
begin

text \<open>
  pkg/auth/jwt.go and pkg/errors.go. A JSON number is read as a float64, given here by an
  integer mantissa and a binary exponent. The JWT library is the parameter \<open>jwt\<close>: signing
  claims with a secret, and parsing a token with the key function of the caller.
\<close>

section \<open>Floating point numbers\<close>

type_synonym float64 = "int \<times> int"

text \<open>The conversion of an integer to a float64: 53 bits, rounded to the nearest, ties to even.\<close>

fun bit_len :: "nat \<Rightarrow> nat" where
  "bit_len n = (if n = 0 then 0 else Suc (bit_len (n div 2)))"

declare bit_len.simps [simp del]

definition round_even :: "nat \<Rightarrow> nat \<Rightarrow> nat" where
  "round_even n k =
     (let q = n div 2 ^ k; r = n mod 2 ^ k
      in if 2 * r < 2 ^ k \<or> (2 * r = 2 ^ k \<and> even q) then q else q + 1)"

definition float64_of :: "i64 \<Rightarrow> float64" where
  "float64_of n =
     (let a = nat \<bar>n\<bar>; k = bit_len a - 53
      in if k = 0 then (n, 0) else (sgn n * int (round_even a k), int k))"

text \<open>
  The conversion back truncates towards zero. The language leaves the result open when it
  is not a 64 bit integer: it is the value of \<open>overflow\<close>.
\<close>

definition trunc :: "float64 \<Rightarrow> int" where
  "trunc f = (case f of (m, e) \<Rightarrow> if 0 \<le> e then m * 2 ^ nat e else sgn m * (\<bar>m\<bar> div 2 ^ nat (- e)))"

definition int64_of :: "(float64 \<Rightarrow> i64) \<Rightarrow> float64 \<Rightarrow> i64" where
  "int64_of overflow f = (if i64_ok (trunc f) then trunc f else overflow f)"

section \<open>Tokens\<close>

datatype claim = CFloat float64 | CInt i64 | COther

type_synonym claims = "(string, claim) fmap"

record token =
  tok_hmac :: bool
  tok_valid :: bool
  tok_claims :: "claims option"

record jwt =
  jwt_sign :: "claims \<Rightarrow> bytes \<Rightarrow> string option"
  jwt_parse :: "string \<Rightarrow> (token \<Rightarrow> bytes option) \<Rightarrow> token option"

definition jwt_claims :: "i64 \<Rightarrow> i64 \<Rightarrow> claims" where
  "jwt_claims now playerID = fmupd ''iat'' (CInt now) (fmupd ''playerId'' (CFloat (float64_of playerID)) fmempty)"

definition GenerateJWT :: "jwt \<Rightarrow> i64 \<Rightarrow> i64 \<Rightarrow> string \<Rightarrow> string option" where
  "GenerateJWT lib now playerID secret = jwt_sign lib (jwt_claims now playerID) secret"

datatype jwt_error = InvalidToken | InvalidClaims | NoPlayer

definition jwt_key :: "string \<Rightarrow> token \<Rightarrow> bytes option" where
  "jwt_key secret t = (if tok_hmac t then Some secret else None)"

definition float_claim :: "claims \<Rightarrow> string \<Rightarrow> float64 option" where
  "float_claim c k = (case fmlookup c k of Some (CFloat f) \<Rightarrow> Some f | _ \<Rightarrow> None)"

definition ValidateJWT :: "jwt \<Rightarrow> (float64 \<Rightarrow> i64) \<Rightarrow> string \<Rightarrow> string \<Rightarrow> jwt_error + i64" where
  "ValidateJWT lib overflow tokenString secret =
     (case jwt_parse lib tokenString (jwt_key secret) of
        None \<Rightarrow> Inl InvalidToken
      | Some t \<Rightarrow>
         (case tok_claims t of
            None \<Rightarrow> Inl InvalidClaims
          | Some c \<Rightarrow>
              if \<not> tok_valid t then Inl InvalidClaims
              else (case (case float_claim c ''playerId'' of Some f \<Rightarrow> Some f | None \<Rightarrow> float_claim c ''user_id'') of
                 None \<Rightarrow> Inl NoPlayer
               | Some f \<Rightarrow> if fst f = 0 then Inl NoPlayer else Inr (int64_of overflow f))))"

section \<open>Errors with a status\<close>

record HTTPError =
  he_Code :: nat
  he_Msg :: string

definition NewHTTPError :: "nat \<Rightarrow> string \<Rightarrow> HTTPError" where
  "NewHTTPError code msg = \<lparr>he_Code = code, he_Msg = msg\<rparr>"

definition ErrUnauthorized :: "string \<Rightarrow> HTTPError" where
  "ErrUnauthorized msg = NewHTTPError 401 msg"

section \<open>Lemmas\<close>

lemma bit_len_le: "n < 2 ^ k \<Longrightarrow> bit_len n \<le> k"
proof (induction k arbitrary: n)
  case 0
  then show ?case by (simp add: bit_len.simps)
next
  case (Suc k)
  then show ?case by (subst bit_len.simps) auto
qed

lemma bit_len_ge: "2 ^ k \<le> n \<Longrightarrow> Suc k \<le> bit_len n"
proof (induction k arbitrary: n)
  case 0
  then show ?case by (subst bit_len.simps) auto
next
  case (Suc k)
  then have "Suc k \<le> bit_len (n div 2)" by simp
  moreover have "n \<noteq> 0" using Suc.prems by (auto intro: gr0I)
  ultimately show ?case by (subst bit_len.simps) simp
qed

lemma trunc_float64_of:
  assumes "\<bar>n\<bar> < 2 ^ 53"
  shows "trunc (float64_of n) = n"
proof -
  have "nat \<bar>n\<bar> < 2 ^ 53" using assms by (simp add: nat_less_iff)
  then show ?thesis
    using bit_len_le [of "nat \<bar>n\<bar>" 53] by (simp add: float64_of_def trunc_def Let_def)
qed

lemma ValidateJWT_signed:
  assumes "jwt_parse lib s (jwt_key secret) =
       Some \<lparr>tok_hmac = True, tok_valid = True, tok_claims = Some (jwt_claims now playerID)\<rparr>"
    and "fst (float64_of playerID) \<noteq> 0" "i64_ok (trunc (float64_of playerID))"
  shows "ValidateJWT lib overflow s secret = Inr (trunc (float64_of playerID))"
  using assms by (simp add: ValidateJWT_def jwt_claims_def float_claim_def int64_of_def)

lemma float64_of_nonzero: "\<bar>n\<bar> < 2 ^ 53 \<Longrightarrow> n \<noteq> 0 \<Longrightarrow> fst (float64_of n) \<noteq> 0"
  using bit_len_le [of "nat \<bar>n\<bar>" 53] by (simp add: float64_of_def Let_def nat_less_iff)

lemma float64_of_odd: "float64_of (2 ^ 53 + 1) = (2 ^ 52, 1)"
proof -
  have "bit_len (2 ^ 53 + 1) = 54"
    using bit_len_le [of "2 ^ 53 + 1" 54] bit_len_ge [of 53 "2 ^ 53 + 1"] by simp
  then show ?thesis
    by (simp add: float64_of_def round_even_def Let_def)
qed


definition one_token :: jwt where
  "one_token = \<lparr>jwt_sign = (\<lambda>c k. Some k),
     jwt_parse = (\<lambda>s kf. let t = \<lparr>tok_hmac = True, tok_valid = True, tok_claims = Some (jwt_claims 5 42)\<rparr>
        in if kf t = Some s then Some t else None)\<rparr>"


end
