(* ===== verification/GatewaySession.thy ===== *)
theory GatewaySession
  imports GatewayRoutes Auth
begin

text \<open>
  pkg/gateway: clients and their sessions (server.go, response_router.go,
  session_router.go, reconnect.go). The handlers that wait are cut where they wait:
  CheckReconnect into the part before the reply of the session service and the part after
  it. A channel is a number. The registry of a gateway that New returned is not nil. The
  arguments \<open>rs\<close> and \<open>rr\<close> are the random choices of the routes to the session
  and the room service, should they be configured as random.
\<close>

section \<open>Tags of a connection\<close>

definition toPlayerID :: "property \<Rightarrow> i64" where
  "toPlayerID v = (case v of PInt n \<Rightarrow> n | PStr s \<Rightarrow> parse_int s)"

definition collectTags :: "props \<Rightarrow> conn \<Rightarrow> gomap" where
  "collectTags ps c =
     Some (fold (\<lambda>key tags. case GetProperty ps c key of
          Some (PStr s) \<Rightarrow> if s \<noteq> '''' then fmupd key s tags else tags
        | _ \<Rightarrow> tags) SyncTagKeys fmempty)"

text \<open>Setting all tags as properties; they have different keys, so the order does not matter.\<close>

definition set_tags :: "conn \<Rightarrow> gomap \<Rightarrow> props \<Rightarrow> props" where
  "set_tags c tags ps =
     (case tags of None \<Rightarrow> ps
      | Some f \<Rightarrow> fold (\<lambda>(k, v). SetProperty c k (PStr v)) (sorted_list_of_fmap f) ps)"

definition to_session :: "nat \<Rightarrow> i64 \<Rightarrow> GatewayServer \<Rightarrow> conn option" where
  "to_session rs playerID gw = gw_RouteTo rs gw SvcSessionSvr (FormatInt playerID)"

definition SyncSessionTags :: "wire \<Rightarrow> nat \<Rightarrow> conn \<Rightarrow> GatewayServer \<Rightarrow> sent list" where
  "SyncSessionTags w rs c gw =
     (case GetProperty (gw_props gw) c PropPlayerID of
        None \<Rightarrow> []
      | Some pidVal \<Rightarrow>
          let playerID = toPlayerID pidVal; tags = collectTags (gw_props gw) c
          in if playerID = 0 \<or> mempty tags then []
             else case to_session rs playerID gw of
               None \<Rightarrow> []
             | Some sconn \<Rightarrow> [Sent sconn (msg_number SESSION_SAVE)
                 (mar_SessionData w \<lparr>sd_PlayerId = playerID, sd_GatewayId = gw_ID gw, sd_ConnTags = tags, sd_DisconnectedAt = 0\<rparr>)])"

section \<open>Responses of backends\<close>

definition applyConnTags :: "wire \<Rightarrow> nat \<Rightarrow> conn \<Rightarrow> u64 \<Rightarrow> gomap \<Rightarrow> GatewayServer \<Rightarrow> GatewayServer \<times> sent list" where
  "applyConnTags w rs c connID tags gw =
     (if mempty tags then (gw, [])
      else let gw1 = gw\<lparr>gw_props := set_tags c tags (gw_props gw)\<rparr>;
               gw2 = (if mhas tags PropPlayerID
                      then gw1\<lparr>gw_PlayerConns := fmupd (parse_int (mget tags PropPlayerID)) connID (gw_PlayerConns gw1)\<rparr>
                      else gw1)
           in (gw2, SyncSessionTags w rs c gw2))"

text \<open>The list \<open>order\<close> is the order in which the connection manager ranges over its connections.\<close>

definition ResponseRouter_Handle ::
  "wire \<Rightarrow> nat \<Rightarrow> u64 list \<Rightarrow> u32 \<Rightarrow> bytes \<Rightarrow> GatewayServer \<Rightarrow> GatewayServer \<times> sent list" where
  "ResponseRouter_Handle w rs order msgID body gw =
     (case unm_Envelope w body of
        None \<Rightarrow> (gw, [])
      | Some env \<Rightarrow>
          if mget (env_ConnTags env) TagTargetPlayerID \<noteq> '''' then
            (case fmlookup (gw_PlayerConns gw) (parse_int (mget (env_ConnTags env) TagTargetPlayerID)) of
               None \<Rightarrow> (gw, [])
             | Some connID \<Rightarrow>
                (case fmlookup (gw_conns gw) connID of
                   None \<Rightarrow> (gw, [])
                 | Some c \<Rightarrow> (gw, [Sent c msgID (env_Data env)])))
          else if env_ConnId env \<noteq> 0 then
            (case fmlookup (gw_conns gw) (env_ConnId env) of
               None \<Rightarrow> (gw, [])
             | Some c \<Rightarrow>
                (case applyConnTags w rs c (env_ConnId env) (env_ConnTags env) gw of
                   (gw', out) \<Rightarrow> (gw', out @ [Sent c msgID (env_Data env)])))
          else (gw, map (\<lambda>c. Sent c msgID (env_Data env)) (List.map_filter (fmlookup (gw_conns gw)) order)))"

section \<open>Sessions\<close>

definition session_ref :: "wire \<Rightarrow> i64 \<Rightarrow> string \<Rightarrow> bytes" where
  "session_ref w playerID gwID =
     mar_SessionData w \<lparr>sd_PlayerId = playerID, sd_GatewayId = gwID, sd_ConnTags = None, sd_DisconnectedAt = 0\<rparr>"

text \<open>
  CheckReconnect up to the wait. The flag says whether it waits on the channel \<open>ch\<close>; if
  not, it has returned.
\<close>

definition CheckReconnect :: "wire \<Rightarrow> nat \<Rightarrow> nat \<Rightarrow> i64 \<Rightarrow> GatewayServer \<Rightarrow> GatewayServer \<times> sent list \<times> bool" where
  "CheckReconnect w rs ch playerID gw =
     (case to_session rs playerID gw of
        None \<Rightarrow> (gw, [], False)
      | Some sconn \<Rightarrow>
         (gw\<lparr>gw_pendingSessionGets := fmupd playerID ch (gw_pendingSessionGets gw)\<rparr>,
          [Sent sconn (msg_number SESSION_GET) (session_ref w playerID '''')], True))"

text \<open>The rest of it: the channel was closed, or the time is out.\<close>

definition CheckReconnect_end :: "bool \<Rightarrow> i64 \<Rightarrow> GatewayServer \<Rightarrow> GatewayServer" where
  "CheckReconnect_end closed playerID gw =
     (let gw1 = (if closed then gw\<lparr>gw_pendingDisconnects := fmdrop playerID (gw_pendingDisconnects gw)\<rparr> else gw)
      in gw1\<lparr>gw_pendingSessionGets := fmdrop playerID (gw_pendingSessionGets gw1)\<rparr>)"

definition notifyRoomReconnected ::
  "wire \<Rightarrow> nat \<Rightarrow> i64 \<Rightarrow> string \<Rightarrow> string \<Rightarrow> u64 \<Rightarrow> GatewayServer \<Rightarrow> sent list" where
  "notifyRoomReconnected w rr playerID matchID serverID connID gw =
     (let key = (if serverID = '''' then matchID else serverID)
      in case gw_RouteTo rr gw SvcRoomSvr key of
           None \<Rightarrow> []
         | Some rconn \<Rightarrow> [Sent rconn (msg_number SESSION_RECONNECTED)
             (mar_SessionData w \<lparr>sd_PlayerId = playerID, sd_GatewayId = '''',
                sd_ConnTags = Some (fmupd TagSenderID (FormatUint connID) (fmupd TagMatchID matchID
                  (fmupd TagPlayerID (FormatInt playerID) fmempty))),
                sd_DisconnectedAt = 0\<rparr>)])"

text \<open>The last result is the channel that is closed when the handler returns.\<close>

definition HandleSessionGet ::
  "wire \<Rightarrow> nat \<Rightarrow> nat \<Rightarrow> bytes \<Rightarrow> GatewayServer \<Rightarrow> GatewayServer \<times> sent list \<times> nat option" where
  "HandleSessionGet w rs rr body gw =
     (case unm_SessionData w body of
        None \<Rightarrow> (gw, [], None)
      | Some d \<Rightarrow>
          let playerID = sd_PlayerId d;
              ch = fmlookup (gw_pendingSessionGets gw) playerID;
              gw1 = gw\<lparr>gw_pendingSessionGets := fmdrop playerID (gw_pendingSessionGets gw)\<rparr>
          in case fmlookup (gw_PlayerConns gw1) playerID of
               None \<Rightarrow> (gw1, [], ch)
             | Some connID \<Rightarrow>
                (case fmlookup (gw_conns gw1) connID of
                   None \<Rightarrow> (gw1, [], ch)
                 | Some c \<Rightarrow>
                     if sd_DisconnectedAt d \<noteq> 0 then
                       let gw2 = gw1\<lparr>gw_props := set_tags c (sd_ConnTags d) (gw_props gw1)\<rparr>;
                           room = (if mget (sd_ConnTags d) TagMatchID \<noteq> ''''
                                   then notifyRoomReconnected w rr playerID (mget (sd_ConnTags d) TagMatchID)
                                          (mget (sd_ConnTags d) TagRoomSvrID) connID gw2
                                   else []);
                           back = (case to_session rs playerID gw2 of None \<Rightarrow> []
                                   | Some s \<Rightarrow> [Sent s (msg_number SESSION_RECONNECT) (session_ref w playerID (gw_ID gw2))])
                       in (gw2, room @ back, ch)
                     else
                       (gw1, (case to_session rs playerID gw1 of None \<Rightarrow> []
                          | Some s \<Rightarrow> [Sent s (msg_number SESSION_SAVE)
                              (mar_SessionData w \<lparr>sd_PlayerId = playerID, sd_GatewayId = gw_ID gw1,
                                 sd_ConnTags = collectTags (gw_props gw1) c, sd_DisconnectedAt = 0\<rparr>)]), ch)))"

definition MarkDisconnected :: "wire \<Rightarrow> nat \<Rightarrow> i64 \<Rightarrow> i64 \<Rightarrow> GatewayServer \<Rightarrow> GatewayServer \<times> sent list" where
  "MarkDisconnected w rs now playerID gw =
     (case to_session rs playerID gw of
        None \<Rightarrow> (gw\<lparr>gw_pendingDisconnects := fmupd playerID now (gw_pendingDisconnects gw)\<rparr>, [])
      | Some sconn \<Rightarrow> (gw, [Sent sconn (msg_number SESSION_DISCONNECT) (session_ref w playerID (gw_ID gw))]))"

text \<open>The last result lists the client connections that are stopped.\<close>

definition HandleSessionInvalidate :: "wire \<Rightarrow> bytes \<Rightarrow> GatewayServer \<Rightarrow> GatewayServer \<times> conn list" where
  "HandleSessionInvalidate w body gw =
     (case unm_SessionData w body of
        None \<Rightarrow> (gw, [])
      | Some d \<Rightarrow>
          if sd_GatewayId d \<noteq> gw_ID gw \<or> sd_PlayerId d = 0 then (gw, [])
          else (case fmlookup (gw_PlayerConns gw) (sd_PlayerId d) of
             None \<Rightarrow> (gw, [])
           | Some connID \<Rightarrow>
               let gw1 = gw\<lparr>gw_PlayerConns := fmdrop (sd_PlayerId d) (gw_PlayerConns gw)\<rparr>
               in case fmlookup (gw_conns gw1) connID of
                    None \<Rightarrow> (gw1, [])
                  | Some c \<Rightarrow> (gw1, [c])))"

fun retryPendingDisconnects :: "wire \<Rightarrow> nat \<Rightarrow> i64 list \<Rightarrow> GatewayServer \<Rightarrow> GatewayServer \<times> sent list" where
  "retryPendingDisconnects w rs [] gw = (gw, [])"
| "retryPendingDisconnects w rs (playerID # ids) gw =
     (case fmlookup (gw_pendingDisconnects gw) playerID of
        None \<Rightarrow> retryPendingDisconnects w rs ids gw
      | Some _ \<Rightarrow>
         (case to_session rs playerID gw of
            None \<Rightarrow> retryPendingDisconnects w rs ids gw
          | Some sconn \<Rightarrow>
             (case retryPendingDisconnects w rs ids (gw\<lparr>gw_pendingDisconnects := fmdrop playerID (gw_pendingDisconnects gw)\<rparr>) of
                (gw', out) \<Rightarrow> (gw', Sent sconn (msg_number SESSION_DISCONNECT) (session_ref w playerID (gw_ID gw)) # out))))"

definition disconnectRetryInterval :: i64 where
  "disconnectRetryInterval = 5 * 1000000000"

text \<open>
  The retry loop over its ticks. Each tick comes with the state of the registry at that time,
  since connections come and go between the ticks, and with the order of the range.
\<close>

fun retryDisconnectLoop :: "wire \<Rightarrow> (Registry \<times> nat \<times> i64 list) list \<Rightarrow> GatewayServer \<Rightarrow> GatewayServer \<times> sent list" where
  "retryDisconnectLoop w [] gw = (gw, [])"
| "retryDisconnectLoop w ((reg, rs, ids) # ticks) gw =
     (case retryPendingDisconnects w rs ids (gw\<lparr>gw_reg := reg\<rparr>) of
        (gw1, out) \<Rightarrow> (case retryDisconnectLoop w ticks gw1 of (gw2, out') \<Rightarrow> (gw2, out @ out')))"

definition SessionResponseRouter_Handle ::
  "wire \<Rightarrow> nat \<Rightarrow> nat \<Rightarrow> u32 \<Rightarrow> bytes \<Rightarrow> GatewayServer \<Rightarrow> GatewayServer \<times> sent list \<times> nat option \<times> conn list" where
  "SessionResponseRouter_Handle w rs rr msgID body gw =
     (if msgID = msg_number SESSION_GET \<or> msgID = msg_number SESSION_RECONNECT then
        (case HandleSessionGet w rs rr body gw of (gw', out, ch) \<Rightarrow> (gw', out, ch, []))
      else if msgID = msg_number SESSION_INVALIDATE then
        (case HandleSessionInvalidate w body gw of (gw', stopped) \<Rightarrow> (gw', [], None, stopped))
      else (gw, [], None, []))"

section \<open>Client connections\<close>

definition websocket_auth ::
  "jwt \<Rightarrow> (float64 \<Rightarrow> i64) \<Rightarrow> string \<Rightarrow> string \<Rightarrow> string \<Rightarrow> GatewayServer \<Rightarrow> GatewayServer \<times> HTTPError option" where
  "websocket_auth lib overflow jwtSecret tok addr gw =
     (if tok = '''' then (gw, Some (ErrUnauthorized ''missing token''))
      else case ValidateJWT lib overflow tok jwtSecret of
        Inl _ \<Rightarrow> (gw, Some (ErrUnauthorized ''invalid token''))
      | Inr playerID \<Rightarrow> (gw\<lparr>gw_pendingAuths := fmupd addr playerID (gw_pendingAuths gw)\<rparr>, None))"

text \<open>
  The start hook up to the wait of CheckReconnect: the messages, the connections it stops,
  and the player whose session it waits for.
\<close>

definition OnConnStart ::
  "wire \<Rightarrow> nat \<Rightarrow> nat \<Rightarrow> string \<Rightarrow> conn \<Rightarrow> u64 \<Rightarrow> GatewayServer \<Rightarrow> GatewayServer \<times> sent list \<times> conn list \<times> i64 option" where
  "OnConnStart w rs ch addr c connID gw =
     (case fmlookup (gw_pendingAuths gw) addr of
        None \<Rightarrow> (gw, [], [c], None)
      | Some playerID \<Rightarrow>
          let gw1 = gw\<lparr>gw_pendingAuths := fmdrop addr (gw_pendingAuths gw),
                gw_props := SetProperty c PropPlayerID (PInt playerID) (gw_props gw),
                gw_PlayerConns := fmupd playerID connID (gw_PlayerConns gw)\<rparr>
          in case CheckReconnect w rs ch playerID gw1 of
               (gw2, out, waits) \<Rightarrow> (gw2, out, [], if waits then Some playerID else None))"

definition OnConnStop :: "wire \<Rightarrow> nat \<Rightarrow> i64 \<Rightarrow> conn \<Rightarrow> GatewayServer \<Rightarrow> GatewayServer \<times> sent list" where
  "OnConnStop w rs now c gw =
     (case GetProperty (gw_props gw) c PropPlayerID of
        Some (PInt pid) \<Rightarrow> MarkDisconnected w rs now pid (gw\<lparr>gw_PlayerConns := fmdrop pid (gw_PlayerConns gw)\<rparr>)
      | _ \<Rightarrow> (gw, []))"

section \<open>Properties and tags\<close>

lemma fold_SetProperty:
  "distinct (map fst kvs) \<Longrightarrow>
   GetProperty (fold (\<lambda>(k, v). SetProperty c k (PStr v)) kvs ps) c' k' =
     (case map_of kvs k' of Some v \<Rightarrow> if c = c' then Some (PStr v) else GetProperty ps c' k'
      | None \<Rightarrow> GetProperty ps c' k')"
proof (induction kvs arbitrary: ps)
  case (Cons kv kvs)
  then have "map_of kvs (fst kv) = None"
    by (simp add: map_of_eq_None_iff)
  with Cons show ?case
    by (cases kv) (auto split: option.splits)
qed simp

lemma GetProperty_set_tags:
  "GetProperty (set_tags c tags ps) c' k =
     (if c = c' \<and> mhas tags k then Some (PStr (mget tags k)) else GetProperty ps c' k)"
  by (auto simp: set_tags_def fold_SetProperty distinct_sorted_list_of_fmap map_of_sorted_list mhas_def mget_def
      fmlookup_dom_iff split: option.splits)

lemma set_tags_empty: "mempty tags \<Longrightarrow> set_tags c tags ps = ps"
  by (auto simp: mempty_def set_tags_def sorted_list_of_fmap_def sorted_list_of_fset.rep_eq split: option.splits)

lemma collectTags_lookup:
  "\<exists>f. collectTags ps c = Some f \<and>
     (\<forall>k. fmlookup f k = (if k \<in> set SyncTagKeys then
        (case GetProperty ps c k of Some (PStr s) \<Rightarrow> if s \<noteq> '''' then Some s else None | _ \<Rightarrow> None) else None))"
proof -
  let ?put = "\<lambda>key tags. case GetProperty ps c key of
      Some (PStr s) \<Rightarrow> if s \<noteq> '''' then fmupd key s tags else tags | _ \<Rightarrow> tags"
  have "fmlookup (fold ?put keys f) k = (if k \<in> set keys then
      (case GetProperty ps c k of Some (PStr s) \<Rightarrow> if s \<noteq> '''' then Some s else fmlookup f k | _ \<Rightarrow> fmlookup f k)
      else fmlookup f k)" for keys f k
    by (induction keys arbitrary: f) (auto split: option.splits property.splits)
  then show ?thesis
    by (force simp: collectTags_def split: option.splits property.splits)
qed

section \<open>Responses\<close>


section \<open>Waiting for the session\<close>


section \<open>Queued disconnects\<close>

lemma to_session_pending [simp]: "to_session rs pid (gw\<lparr>gw_pendingDisconnects := x\<rparr>) = to_session rs pid gw"
  by (simp add: to_session_def gw_RouteTo_def)

text \<open>Whether a registry has a live connection to the session service, over the hash strategy.\<close>

definition sessions_up :: "Registry \<Rightarrow> bool" where
  "sessions_up reg \<longleftrightarrow> (\<exists>p. RegistryPool reg SvcSessionSvr = Some p \<and> pool_routeFn p = ByHash \<and> (\<exists>e\<in>set (pool_conns p). live e))"

definition sessions_down :: "Registry \<Rightarrow> bool" where
  "sessions_down reg \<longleftrightarrow> (case RegistryPool reg SvcSessionSvr of None \<Rightarrow> True | Some p \<Rightarrow> \<not> (\<exists>e\<in>set (pool_conns p). live e))"

lemma retry_delivers:
  assumes "set ids = fset (fmdom (gw_pendingDisconnects gw))" "distinct ids"
    and "RegistryPool (gw_reg gw) SvcSessionSvr = Some p" "pool_routeFn p = ByHash"
    and "e \<in> set (pool_conns p)" "live e"
    and "retryPendingDisconnects w rs ids gw = (gw', out)"
  shows "gw_pendingDisconnects gw' = fmempty \<and>
    map sent_body out = map (\<lambda>pid. session_ref w pid (gw_ID gw)) ids \<and>
    list_all (\<lambda>s. sent_id s = msg_number SESSION_DISCONNECT \<and> (\<exists>e\<in>set (pool_conns p). live e \<and> ce_conn e = Some (sent_to s))) out"
proof -
  have route: "\<exists>s. to_session rs pid g = Some s \<and> (\<exists>e\<in>set (pool_conns p). live e \<and> ce_conn e = Some s)"
    if "gw_reg g = gw_reg gw" "gw_props g = gw_props gw" for pid g
    using RouteTo_total [OF assms(3), of rs "gw_props gw" "FormatInt pid"] RouteTo_live [of rs "gw_props gw" "gw_reg gw" SvcSessionSvr "FormatInt pid"]
      assms(3-6) that by (fastforce simp: to_session_def gw_RouteTo_def)
  have "gw_pendingDisconnects g' = fmfilter (\<lambda>pid. pid \<notin> set ids) (gw_pendingDisconnects g) \<and>
      map sent_body o' = map (\<lambda>pid. session_ref w pid (gw_ID g)) ids \<and>
      list_all (\<lambda>s. sent_id s = msg_number SESSION_DISCONNECT \<and> (\<exists>e\<in>set (pool_conns p). live e \<and> ce_conn e = Some (sent_to s))) o'"
    if "set ids \<subseteq> fset (fmdom (gw_pendingDisconnects g))" "distinct ids" "gw_reg g = gw_reg gw" "gw_props g = gw_props gw"
      "retryPendingDisconnects w rs ids g = (g', o')" for ids g g' o'
    using that
  proof (induction ids arbitrary: g g' o')
    case Nil
    then show ?case by (auto intro!: fmap_ext)
  next
    case (Cons pid ids)
    obtain s where s: "to_session rs pid g = Some s" "\<exists>e\<in>set (pool_conns p). live e \<and> ce_conn e = Some s"
      using route [of g pid] Cons.prems(3,4) by blast
    let ?g = "g\<lparr>gw_pendingDisconnects := fmdrop pid (gw_pendingDisconnects g)\<rparr>"
    obtain o1 where o1: "retryPendingDisconnects w rs ids ?g = (g', o1)"
        "o' = Sent s (msg_number SESSION_DISCONNECT) (session_ref w pid (gw_ID g)) # o1"
      using Cons.prems(1,5) s(1) by (auto simp: fmlookup_dom_iff split: prod.splits)
    have "set ids \<subseteq> fset (fmdom (gw_pendingDisconnects ?g))"
      using Cons.prems(1,2) by auto
    from Cons.IH [OF this _ _ _ o1(1)] Cons.prems(2-4) o1(2) s(2) show ?case
      by (auto intro!: fmap_ext)
  qed
  from this [of ids gw gw' out] assms(1,2,7) show ?thesis
    by (auto intro!: fmap_ext dest: fmdomI)
qed

lemma to_session_down: "sessions_down (gw_reg gw) \<Longrightarrow> to_session rs pid gw = None"
  using RouteTo_live [of rs "gw_props gw" "gw_reg gw" SvcSessionSvr "FormatInt pid"]
  by (cases "to_session rs pid gw") (auto simp: sessions_down_def to_session_def gw_RouteTo_def split: option.splits)

lemma retry_down: "sessions_down (gw_reg gw) \<Longrightarrow> retryPendingDisconnects w rs ids gw = (gw, [])"
  by (induction ids) (simp_all add: to_session_down split: option.split)

lemma retry_empty: "gw_pendingDisconnects gw = fmempty \<Longrightarrow> retryPendingDisconnects w rs ids gw = (gw, [])"
  by (induction ids) simp_all

lemma loop_empty:
  "gw_pendingDisconnects gw = fmempty \<Longrightarrow>
   gw_pendingDisconnects (fst (retryDisconnectLoop w ticks gw)) = fmempty \<and> snd (retryDisconnectLoop w ticks gw) = []"
proof (induction ticks arbitrary: gw)
  case (Cons t ticks)
  obtain reg rs ids where t: "t = (reg, rs, ids)" by (cases t)
  show ?case
    using Cons.IH [of "gw\<lparr>gw_reg := reg\<rparr>"] Cons.prems by (auto simp: t retry_empty split: prod.splits)
qed simp

lemma loop_down:
  assumes "\<forall>(reg, rs, ids)\<in>set ticks. sessions_down reg"
  shows "\<exists>reg. retryDisconnectLoop w ticks gw = (gw\<lparr>gw_reg := reg\<rparr>, [])"
  using assms
proof (induction ticks arbitrary: gw)
  case Nil
  show ?case by (rule exI [of _ "gw_reg gw"]) simp
next
  case (Cons t ticks)
  obtain reg rs ids where t: "t = (reg, rs, ids)" by (cases t)
  have "retryPendingDisconnects w rs ids (gw\<lparr>gw_reg := reg\<rparr>) = (gw\<lparr>gw_reg := reg\<rparr>, [])"
    using Cons.prems by (intro retry_down) (simp add: t)
  then show ?case
    using Cons.IH [of "gw\<lparr>gw_reg := reg\<rparr>"] Cons.prems by (auto simp: t)
qed

lemma loop_append:
  "retryDisconnectLoop w (as @ bs) gw =
     (case retryDisconnectLoop w as gw of (gw1, out1) \<Rightarrow> case retryDisconnectLoop w bs gw1 of (gw2, out2) \<Rightarrow> (gw2, out1 @ out2))"
  by (induction w as gw rule: retryDisconnectLoop.induct) (auto split: prod.splits)

lemma queued_retry:
  assumes "\<forall>(reg, rs, ids)\<in>set waiting. sessions_down reg" "sessions_up reg"
    and "set ids = fset (fmdom (gw_pendingDisconnects gw))" "distinct ids"
    and "retryDisconnectLoop w (waiting @ (reg, rs, ids) # later) gw = (gw', out)"
  shows "gw_pendingDisconnects gw' = fmempty \<and>
    map sent_body out = map (\<lambda>pid. session_ref w pid (gw_ID gw)) ids \<and>
    list_all (\<lambda>s. sent_id s = msg_number SESSION_DISCONNECT \<and>
      (\<exists>p e. RegistryPool reg SvcSessionSvr = Some p \<and> e \<in> set (pool_conns p) \<and> live e \<and> ce_conn e = Some (sent_to s))) out"
proof -
  obtain p e where p: "RegistryPool reg SvcSessionSvr = Some p" "pool_routeFn p = ByHash" "e \<in> set (pool_conns p)" "live e"
    using assms(2) by (auto simp: sessions_up_def)
  obtain reg0 where pre: "retryDisconnectLoop w waiting gw = (gw\<lparr>gw_reg := reg0\<rparr>, [])"
    using loop_down [OF assms(1)] by blast
  obtain gw1 out1 where tick: "retryPendingDisconnects w rs ids (gw\<lparr>gw_reg := reg\<rparr>) = (gw1, out1)"
    by fastforce
  note sent = retry_delivers [OF _ assms(4) _ p(2-4) tick]
  have all: "gw_pendingDisconnects gw1 = fmempty" "map sent_body out1 = map (\<lambda>pid. session_ref w pid (gw_ID gw)) ids"
      "list_all (\<lambda>s. sent_id s = msg_number SESSION_DISCONNECT \<and> (\<exists>e\<in>set (pool_conns p). live e \<and> ce_conn e = Some (sent_to s))) out1"
    using sent assms(3) p(1) by simp_all
  have "gw_pendingDisconnects gw' = fmempty \<and> out = out1"
    using assms(5) loop_empty [OF all(1), of w later] by (auto simp: loop_append pre tick split: prod.splits)
  then show ?thesis
    using all(2,3) p(1) by (auto simp: list_all_iff)
qed

text \<open>
  C10: Disconnects that could not be delivered are not lost and are delivered once. The retry
  loop may run any number of times while the session service has no live connection; the
  first tick that finds one sends one disconnect for every queued player over live
  connections of that service, and the ticks after it send nothing: the queue is empty.
\<close>

theorem queued_disconnects_delivered:
  assumes "\<forall>(reg, rs, ids)\<in>set waiting. sessions_down reg" "sessions_up reg"
    and "set ids = fset (fmdom (gw_pendingDisconnects gw))" "distinct ids"
    and "retryDisconnectLoop w (waiting @ (reg, rs, ids) # later) gw = (gw', out)"
  shows "gw_pendingDisconnects gw' = fmempty \<and>
    map sent_body out = map (\<lambda>pid. session_ref w pid (gw_ID gw)) ids \<and>
    list_all (\<lambda>s. sent_id s = msg_number SESSION_DISCONNECT \<and>
      (\<exists>p e. RegistryPool reg SvcSessionSvr = Some p \<and> e \<in> set (pool_conns p) \<and> live e \<and> ce_conn e = Some (sent_to s))) out"
  using assms by (rule queued_retry)

section \<open>A late stop\<close>

text \<open>
  When a player has already come back on a second connection of the same gateway, the
  stop of the first one takes the second one out of the player table: later pushes to the
  player are dropped although the player is connected, and the session service is told
  that the player is gone.
\<close>

theorem late_stop_hides_player:
  assumes "GetProperty (gw_props gw) old PropPlayerID = Some (PInt pid)" "i64_ok pid"
    and "fmlookup (gw_PlayerConns gw) pid = Some connID" "fmlookup (gw_conns gw) connID = Some new" "new \<noteq> old"
    and "OnConnStop w rs now old gw = (gw', out)"
    and "unm_Envelope w body = Some env" "mget (env_ConnTags env) TagTargetPlayerID = FormatInt pid"
  shows "fmlookup (gw_conns gw') connID = Some new \<and> snd (ResponseRouter_Handle w rs' order msgID body gw') = [] \<and>
    (to_session rs pid gw = Some s \<longrightarrow> out = [Sent s (msg_number SESSION_DISCONNECT) (session_ref w pid (gw_ID gw))])"
  using assms
  by (auto simp: OnConnStop_def MarkDisconnected_def ResponseRouter_Handle_def parse_int_FormatInt FormatInt_nonempty
      to_session_def gw_RouteTo_def split: option.splits)

section \<open>Authentication\<close>

text \<open>
  C22: Only a connection whose address passed the token check is admitted, once per check, as
  the player of the token; its first message to the backends is the question for the
  session. Any other connection is stopped and leaves the gateway as it was.
\<close>

theorem admission:
  assumes "websocket_auth lib overflow secret tok addr gw = (gw1, err)"
    and "fmlookup (gw_pendingAuths gw) addr = None"
    and "OnConnStart w rs ch addr c connID gw1 = (gw2, out, stopped, waits)"
  shows "case (if tok = '''' then Inl InvalidToken else ValidateJWT lib overflow tok secret) of
      Inr pid \<Rightarrow> err = None \<and> stopped = [] \<and>
        fmlookup (gw_PlayerConns gw2) pid = Some connID \<and> GetProperty (gw_props gw2) c PropPlayerID = Some (PInt pid) \<and>
        fmlookup (gw_pendingAuths gw2) addr = None \<and>
        out = (case to_session rs pid gw2 of None \<Rightarrow> [] | Some s \<Rightarrow> [Sent s (msg_number SESSION_GET) (session_ref w pid '''')])
    | Inl _ \<Rightarrow> map_option he_Code err = Some 401 \<and> stopped = [c] \<and> out = [] \<and> gw2 = gw"
proof (cases "if tok = '''' then Inl InvalidToken else ValidateJWT lib overflow tok secret")
  case (Inl e)
  then have "gw1 = gw" "map_option he_Code err = Some 401"
    using assms(1) by (auto simp: websocket_auth_def ErrUnauthorized_def NewHTTPError_def split: if_splits)
  with Inl assms(2,3) show ?thesis
    by (auto simp: OnConnStart_def)
next
  case (Inr pid)
  then have gw1: "gw1 = gw\<lparr>gw_pendingAuths := fmupd addr pid (gw_pendingAuths gw)\<rparr>" "err = None"
    using assms(1) by (auto simp: websocket_auth_def split: if_splits)
  show ?thesis
    using assms(3) Inr unfolding gw1
    by (auto simp: OnConnStart_def CheckReconnect_def Let_def to_session_def gw_RouteTo_def split: option.splits)
qed

section \<open>Witnesses\<close>

definition push_env :: "i64 \<Rightarrow> Envelope" where
  "push_env pid = \<lparr>env_ConnId = 0, env_Data = ''hi'', env_ConnTags = Some (fmupd TagTargetPlayerID (FormatInt pid) fmempty)\<rparr>"

lemma push_read: "unm_Envelope pb_wire (mar_Envelope pb_wire (push_env pid)) = Some (push_env pid)"
proof -
  have "str_ok pb_wire TagTargetPlayerID"
    by (simp add: pb_str_ok utf8_ok_def TagTargetPlayerID_def)
  then have "tags_ok pb_wire (env_ConnTags (push_env pid))"
    unfolding push_env_def by (simp add: tags_ok_upd pb_player_tag)
  then show ?thesis
    using pb.Envelope_roundtrip [of "push_env pid"] by (simp add: push_env_def)
qed

definition with_sessions :: "GatewayServer \<Rightarrow> GatewayServer" where
  "with_sessions gw = gw\<lparr>gw_reg := \<lparr>reg_backends = fmupd SvcSessionSvr sample_pool fmempty, reg_identity = SvcGateway\<rparr>\<rparr>"

lemma with_sessions_pool: "RegistryPool (gw_reg (with_sessions gw)) SvcSessionSvr = Some sample_pool"
  by (simp add: with_sessions_def RegistryPool_def)


definition away_data :: SessionData where
  "away_data = \<lparr>sd_PlayerId = 7, sd_GatewayId = ''g'', sd_ConnTags = Some (fmupd TagMatchID ''m'' fmempty), sd_DisconnectedAt = 5\<rparr>"

lemma away_read: "unm_SessionData pb_wire (mar_SessionData pb_wire away_data) = Some away_data"
proof -
  have "tags_ok pb_wire (sd_ConnTags away_data)"
    unfolding away_data_def by (simp add: tags_ok_upd pb_str_ok utf8_ok_def TagMatchID_def)
  then show ?thesis
    using pb.SessionData_roundtrip [of away_data]
    by (simp add: away_data_def i64_ok_def i64_min_def i64_max_def pb_str_ok utf8_ok_def)
qed


theorem queued_disconnects_delivered_witness:
  "\<exists>gw' out. retryDisconnectLoop pb_wire [(NewRegistry SvcGateway, 0, [7]), (gw_reg (with_sessions sample_gateway), 0, [7])]
       (sample_gateway\<lparr>gw_pendingDisconnects := fmupd 7 5 fmempty\<rparr>) = (gw', out) \<and>
     gw_pendingDisconnects gw' = fmempty \<and> map sent_body out = [session_ref pb_wire 7 ''g'']"
proof -
  let ?gw = "sample_gateway\<lparr>gw_pendingDisconnects := fmupd 7 5 fmempty\<rparr>" and ?reg = "gw_reg (with_sessions sample_gateway)"
  obtain gw' out where run: "retryDisconnectLoop pb_wire ([(NewRegistry SvcGateway, 0, [7])] @ (?reg, 0, [7]) # []) ?gw = (gw', out)"
    by fastforce
  have "sessions_up ?reg" "sessions_down (NewRegistry SvcGateway)"
    using with_sessions_pool [of sample_gateway]
    by (auto simp: sessions_up_def sessions_down_def sample_pool_def new_entry_def live_def NewRegistry_def RegistryPool_def)
  from queued_disconnects_delivered [OF _ this(1) _ _ run] this(2) run
  show ?thesis
    by (simp add: sample_gateway_def)
qed

theorem late_stop_hides_player_witness:
  "\<exists>gw' out. OnConnStop pb_wire 0 5 9 (sample_gateway\<lparr>gw_props := SetProperty 9 PropPlayerID (PInt 7) (gw_props sample_gateway)\<rparr>) = (gw', out) \<and>
     fmlookup (gw_conns gw') 3 = Some 10 \<and>
     snd (ResponseRouter_Handle pb_wire 0 [] 6 (mar_Envelope pb_wire (push_env 7)) gw') = []"
proof -
  let ?gw = "sample_gateway\<lparr>gw_props := SetProperty 9 PropPlayerID (PInt 7) (gw_props sample_gateway)\<rparr>"
  obtain gw' out where run: "OnConnStop pb_wire 0 5 9 ?gw = (gw', out)"
    by fastforce
  have pid: "i64_ok 7" by (simp add: i64_ok_def i64_min_def i64_max_def)
  have at: "GetProperty (gw_props ?gw) 9 PropPlayerID = Some (PInt 7)" "fmlookup (gw_PlayerConns ?gw) 7 = Some 3"
      "fmlookup (gw_conns ?gw) 3 = Some 10" "mget (env_ConnTags (push_env 7)) TagTargetPlayerID = FormatInt 7"
    by (simp_all add: sample_gateway_def push_env_def mget_def)
  from late_stop_hides_player [OF at(1) pid at(2,3) _ run push_read at(4), of 0 "[]" 6] run
  show ?thesis by auto
qed

theorem admission_witness:
  "\<exists>gw1. websocket_auth one_token fst ''key'' ''key'' ''a:1'' sample_gateway = (gw1, None) \<and>
     (\<exists>gw2 out. OnConnStart pb_wire 0 0 ''a:1'' 12 4 gw1 = (gw2, out, [], None) \<and> fmlookup (gw_PlayerConns gw2) 42 = Some 4)"
proof -
  have jwt: "ValidateJWT one_token fst ''key'' ''key'' = Inr 42"
    using ValidateJWT_signed [of one_token "''key''" "''key''" 5 42 fst]
    by (simp add: one_token_def jwt_key_def Let_def trunc_float64_of float64_of_nonzero i64_ok_def i64_min_def i64_max_def)
  obtain gw1 err gw2 out stopped waits where
    run: "websocket_auth one_token fst ''key'' ''key'' ''a:1'' sample_gateway = (gw1, err)"
      "OnConnStart pb_wire 0 0 ''a:1'' 12 4 gw1 = (gw2, out, stopped, waits)"
    by (metis prod_cases4 surj_pair)
  have "waits = None"
    using run jwt by (auto simp: websocket_auth_def OnConnStart_def CheckReconnect_def Let_def to_session_def gw_RouteTo_def
        RouteTo_def sample_gateway_def chat_names)
  then show ?thesis
    using admission [OF run(1) _ run(2)] run jwt by (simp add: sample_gateway_def)
qed

end
