(* ===== verification/UserService.thy ===== *)
theory UserService
  imports Strconv "HOL-Library.Finite_Map"
begin

text \<open>
  apps/user/user-service: the in-memory user store behind the gRPC service
  (internal/handler/user_handler.go). A response holds the user as it is when the handler
  returns. The wall clock and the order in which the user map is ranged over are
  arguments; a status error is a value.
\<close>

section \<open>State and errors\<close>

record User =
  u_Id :: string
  u_Username :: string
  u_Email :: string
  u_CreatedAt :: i64
  u_UpdatedAt :: i64

record UserServiceServer =
  us_id :: string
  us_users :: "(string, User) fmap"
  us_nextID :: i64

datatype status = InvalidArgument string | NotFound string

definition UserService_New :: "string \<Rightarrow> UserServiceServer" where
  "UserService_New instanceID = \<lparr>us_id = instanceID, us_users = fmempty, us_nextID = 0\<rparr>"

section \<open>Handlers\<close>

definition UserService_Ping :: "UserServiceServer \<Rightarrow> string \<times> string" where
  "UserService_Ping s = (''pong'', ''user-service/'' @ us_id s)"

definition CreateUser :: "i64 \<Rightarrow> string \<Rightarrow> string \<Rightarrow> UserServiceServer \<Rightarrow> UserServiceServer \<times> (status + User)" where
  "CreateUser now username email s =
     (if username = '''' then (s, Inl (InvalidArgument ''username is required''))
      else if email = '''' then (s, Inl (InvalidArgument ''email is required''))
      else let n = i64_wrap (us_nextID s + 1);
               uid = FormatInt n;
               u = \<lparr>u_Id = uid, u_Username = username, u_Email = email, u_CreatedAt = now, u_UpdatedAt = now\<rparr>
           in (s\<lparr>us_nextID := n, us_users := fmupd uid u (us_users s)\<rparr>, Inr u))"

definition not_found :: "string \<Rightarrow> status" where
  "not_found uid = NotFound (''user '' @ uid @ '' not found'')"

definition GetUser :: "string \<Rightarrow> UserServiceServer \<Rightarrow> status + User" where
  "GetUser uid s = (case fmlookup (us_users s) uid of None \<Rightarrow> Inl (not_found uid) | Some u \<Rightarrow> Inr u)"

definition UpdateUser :: "i64 \<Rightarrow> string \<Rightarrow> string \<Rightarrow> string \<Rightarrow> UserServiceServer \<Rightarrow> UserServiceServer \<times> (status + User)" where
  "UpdateUser now uid username email s =
     (case fmlookup (us_users s) uid of
        None \<Rightarrow> (s, Inl (not_found uid))
      | Some u \<Rightarrow>
          let u1 = (if username \<noteq> '''' then u\<lparr>u_Username := username\<rparr> else u);
              u2 = (if email \<noteq> '''' then u1\<lparr>u_Email := email\<rparr> else u1);
              u3 = u2\<lparr>u_UpdatedAt := now\<rparr>
          in (s\<lparr>us_users := fmupd uid u3 (us_users s)\<rparr>, Inr u3))"

definition DeleteUser :: "string \<Rightarrow> UserServiceServer \<Rightarrow> UserServiceServer \<times> bool" where
  "DeleteUser uid s = (s\<lparr>us_users := fmdrop uid (us_users s)\<rparr>, True)"

definition pageSize_of :: "i64 \<Rightarrow> nat" where
  "pageSize_of n = (if n \<le> 0 \<or> n > 100 then 10 else nat n)"

fun list_loop :: "(string, User) fmap \<Rightarrow> string list \<Rightarrow> nat \<Rightarrow> nat \<Rightarrow> nat \<Rightarrow> User option list" where
  "list_loop users keys sz i 0 = []"
| "list_loop users keys sz i (Suc n) =
     (if i < length keys \<and> 0 < sz then fmlookup users (keys ! i) # list_loop users keys (sz - 1) (Suc i) n else [])"

text \<open>
  The list \<open>keys\<close> is the order of the range over the map. The loop runs at most once per
  key; the number of keys is the bound of its recursion, and a pointer of the page is nil
  when the map lacks the key. Results: the page and the next page token.
\<close>

definition ListUsers :: "string list \<Rightarrow> i64 \<Rightarrow> string \<Rightarrow> UserServiceServer \<Rightarrow> User option list \<times> string" where
  "ListUsers keys pageSize pageToken s =
     (let sz = pageSize_of pageSize;
          start = (if pageToken \<noteq> '''' then length pageToken else 0);
          users = list_loop (us_users s) keys sz start (length keys)
      in (users, if start + length users < length keys then FormatInt (int (start + length users)) else ''''))"

text \<open>
  The consumer of user.create messages in the user job: the decoder of the request is a
  parameter, and the call of the service is the handler itself. The result is the
  identifier that is logged.
\<close>

definition user_create_consumer ::
  "(bytes \<Rightarrow> (string \<times> string) option) \<Rightarrow> i64 \<Rightarrow> bytes \<Rightarrow> UserServiceServer \<Rightarrow> UserServiceServer \<times> string option" where
  "user_create_consumer decode now data s =
     (case decode data of
        None \<Rightarrow> (s, None)
      | Some (username, email) \<Rightarrow>
         (case CreateUser now username email s of
            (s', Inl _) \<Rightarrow> (s', None)
          | (s', Inr u) \<Rightarrow> (s', Some (u_Id u))))"

section \<open>Lemmas\<close>

lemma list_loop_page:
  "length keys - i \<le> n \<Longrightarrow> list_loop users keys sz i n = map (fmlookup users) (take sz (drop i keys))"
proof (induction users keys sz i n rule: list_loop.induct)
  case (2 users keys sz i n)
  show ?case
  proof (cases "i < length keys \<and> 0 < sz")
    case True
    then have "take sz (drop i keys) = keys ! i # take (sz - 1) (drop (Suc i) keys)"
      by (cases sz) (auto simp: Cons_nth_drop_Suc [symmetric])
    then show ?thesis
      using True 2 by simp
  qed auto
qed simp

definition users_ok :: "UserServiceServer \<Rightarrow> bool" where
  "users_ok s \<longleftrightarrow> 0 \<le> us_nextID s \<and> us_nextID s \<le> i64_max \<and>
     (\<forall>k u. fmlookup (us_users s) k = Some u \<longrightarrow>
        u_Id u = k \<and> u_Username u \<noteq> '''' \<and> u_Email u \<noteq> '''' \<and> (\<exists>n. 1 \<le> n \<and> n \<le> us_nextID s \<and> k = FormatInt n))"

lemma users_ok_New: "users_ok (UserService_New i)"
  by (simp add: users_ok_def UserService_New_def i64_max_def)

lemma CreateUser_cases:
  assumes "users_ok s" "us_nextID s < i64_max"
  shows "CreateUser now username email s =
     (if username = '''' then (s, Inl (InvalidArgument ''username is required''))
      else if email = '''' then (s, Inl (InvalidArgument ''email is required''))
      else let uid = FormatInt (us_nextID s + 1);
               u = \<lparr>u_Id = uid, u_Username = username, u_Email = email, u_CreatedAt = now, u_UpdatedAt = now\<rparr>
           in (s\<lparr>us_nextID := us_nextID s + 1, us_users := fmupd uid u (us_users s)\<rparr>, Inr u))"
proof -
  have "i64_wrap (us_nextID s + 1) = us_nextID s + 1"
    using assms by (intro i64_wrap_id) (auto simp: users_ok_def i64_ok_def i64_min_def)
  then show ?thesis by (simp add: CreateUser_def Let_def)
qed

lemma users_ok_upd:
  assumes "users_ok s" "us_nextID s \<le> n" "n \<le> i64_max" "1 \<le> m" "m \<le> n" "k = FormatInt m"
    and "u_Id u = k" "u_Username u \<noteq> ''''" "u_Email u \<noteq> ''''"
  shows "users_ok (s\<lparr>us_nextID := n, us_users := fmupd k u (us_users s)\<rparr>)"
  using assms unfolding users_ok_def by simp (metis order_trans)

lemma users_ok_Create:
  assumes "users_ok s" "us_nextID s < i64_max"
  shows "users_ok (fst (CreateUser now username email s))"
proof -
  have "0 \<le> us_nextID s" using assms(1) by (simp add: users_ok_def)
  with assms show ?thesis
    by (auto simp: CreateUser_cases Let_def intro!: users_ok_upd [where m = "us_nextID s + 1"])
qed

lemma users_ok_Update: "users_ok s \<Longrightarrow> users_ok (fst (UpdateUser now uid username email s))"
  by (auto simp: UpdateUser_def users_ok_def Let_def split: option.splits)

lemma users_ok_Delete: "users_ok s \<Longrightarrow> users_ok (fst (DeleteUser uid s))"
  by (auto simp: DeleteUser_def users_ok_def)

inductive user_reach :: "UserServiceServer \<Rightarrow> bool" where
  reach_new: "user_reach (UserService_New i)"
| reach_create: "user_reach s \<Longrightarrow> us_nextID s < i64_max \<Longrightarrow> user_reach (fst (CreateUser now username email s))"
| reach_update: "user_reach s \<Longrightarrow> user_reach (fst (UpdateUser now uid username email s))"
| reach_delete: "user_reach s \<Longrightarrow> user_reach (fst (DeleteUser uid s))"

lemma user_reach_ok: "user_reach s \<Longrightarrow> users_ok s"
  by (induction rule: user_reach.induct) (auto intro: users_ok_New users_ok_Create users_ok_Update users_ok_Delete)


text \<open>
  Paging does not get past the twelfth user. The page token is a number, but its length
  is taken as the offset: with more than twelve users and pages of ten, the second page
  starts at the third user, and every later page is the second one again.
\<close>

theorem paging_stuck:
  assumes "12 < length keys"
  shows "ListUsers keys 10 '''' s = (map (fmlookup (us_users s)) (take 10 keys), ''10'') \<and>
    ListUsers keys 10 ''10'' s = (map (fmlookup (us_users s)) (take 10 (drop 2 keys)), ''12'') \<and>
    ListUsers keys 10 ''12'' s = ListUsers keys 10 ''10'' s"
proof -
  have "FormatInt 10 = ''10''" "FormatInt 12 = ''12''"
    by (simp_all add: FormatInt_def format_nat.simps digit_char_def char_of_eq_iff)
  then show ?thesis
    using assms by (simp add: ListUsers_def pageSize_of_def list_loop_page Let_def numeral_2_eq_2)
qed

section \<open>Witnesses\<close>


definition thirteen :: UserServiceServer where
  "thirteen = (UserService_New ''u1'')\<lparr>us_users := fmap_of_list (map (\<lambda>n. (FormatInt n,
     \<lparr>u_Id = FormatInt n, u_Username = ''ann'', u_Email = ''a@b'', u_CreatedAt = 5, u_UpdatedAt = 5\<rparr>)) [1..13]), us_nextID := 13\<rparr>"

theorem paging_stuck_witness:
  "ListUsers (map FormatInt [1..13]) 10 ''12'' thirteen = ListUsers (map FormatInt [1..13]) 10 ''10'' thirteen"
  using paging_stuck [of "map FormatInt [1..13]" thirteen] by simp

end
