(* ===== verification/Discovery.thy ===== *)
theory Discovery
  imports Codec UserService "HOL-Library.Sublist"
begin

text \<open>
  Service discovery of the gRPC services: pkg/etcdutil (register.go, resolver.go,
  client.go), pkg/grpcserver/server.go and pkg/grpcclient/client.go. The etcd client
  library is the parameter \<open>etcd\<close> over a state of its own; \<open>etcd_laws\<close> states what its
  documentation promises of the keys and their leases. The processes of the user service
  and of the user job (apps/user) are built on these: their start with every error, their
  events and their end.
\<close>

section \<open>The etcd client\<close>

type_synonym lease = nat

record 'e etcd =
  et_grant :: "i64 \<Rightarrow> 'e \<Rightarrow> ('e \<times> lease) option"
  et_put :: "string \<Rightarrow> string \<Rightarrow> lease \<Rightarrow> 'e \<Rightarrow> 'e option"
  et_keepalive :: "lease \<Rightarrow> 'e \<Rightarrow> bool"
  et_revoke :: "lease \<Rightarrow> 'e \<Rightarrow> 'e \<times> bool"
  et_range :: "string \<Rightarrow> 'e \<Rightarrow> (string \<times> string) list option"

record etcd_config =
  ec_Endpoints :: "string list"
  ec_DialTimeout :: i64
  ec_TTL :: i64

definition NewConfig :: "string list \<Rightarrow> etcd_config" where
  "NewConfig endpoints = \<lparr>ec_Endpoints = endpoints, ec_DialTimeout = 5000000000, ec_TTL = 10\<rparr>"

text \<open>The wrapped client: its time to live, and whether the client of the library is still open.\<close>

record etcd_client =
  cli_TTL :: i64
  cli_open :: bool

text \<open>The flag is whether the library could create the client.\<close>

definition NewClient :: "bool \<Rightarrow> etcd_config \<Rightarrow> etcd_client option" where
  "NewClient connects cfg = (if connects then Some \<lparr>cli_TTL = ec_TTL cfg, cli_open = True\<rparr> else None)"

definition Client_Close :: "etcd_client \<Rightarrow> etcd_client" where
  "Client_Close cli = cli\<lparr>cli_open := False\<rparr>"

section \<open>Registration\<close>

definition ServiceKey :: "string \<Rightarrow> string \<Rightarrow> string" where
  "ServiceKey serviceName instanceID = ''/services/'' @ serviceName @ ''/'' @ instanceID"

datatype discovery_error =
    ConnectFailed | GrantFailed | PutFailed | KeepAliveFailed | NoServiceName | DialFailed | ListenFailed

text \<open>The result is the lease that the cancel function revokes.\<close>

definition Register :: "'e etcd \<Rightarrow> etcd_client \<Rightarrow> string \<Rightarrow> string \<Rightarrow> 'e \<Rightarrow> 'e \<times> (discovery_error + lease)" where
  "Register et cli key val e =
     (case et_grant et (cli_TTL cli) e of
        None \<Rightarrow> (e, Inl GrantFailed)
      | Some (e1, l) \<Rightarrow>
         (case et_put et key val l e1 of
            None \<Rightarrow> (e1, Inl PutFailed)
          | Some e2 \<Rightarrow> if et_keepalive et l e2 then (e2, Inr l) else (e2, Inl KeepAliveFailed)))"

definition Register_cancel :: "'e etcd \<Rightarrow> lease \<Rightarrow> 'e \<Rightarrow> 'e" where
  "Register_cancel et l e = fst (et_revoke et l e)"

section \<open>gRPC servers\<close>

record grpc_config =
  gc_Name :: string
  gc_Addr :: string
  gc_ID :: string
  gc_EtcdEndpoints :: "string list"

datatype serving = SERVING | NOT_SERVING

text \<open>Of the health service of the library the status that was set last is kept.\<close>

record grpc_server =
  gs_cfg :: grpc_config
  gs_health :: "serving option"
  gs_etcdClient :: "etcd_client option"
  gs_etcdCancel :: "lease option"

definition grpc_ID :: "grpc_server \<Rightarrow> string" where
  "grpc_ID srv = gc_ID (gs_cfg srv)"

definition hex_nibble :: "nat \<Rightarrow> char" where
  "hex_nibble n = ''0123456789abcdef'' ! n"

text \<open>The hexadecimal form of the random bytes.\<close>

definition randomHex :: "bytes \<Rightarrow> string" where
  "randomHex b = concat (map (\<lambda>c. [hex_nibble (of_char c div 16), hex_nibble (of_char c mod 16)]) b)"

definition with_ID :: "bytes \<Rightarrow> grpc_config \<Rightarrow> grpc_config" where
  "with_ID rnd cfg = (if gc_ID cfg = '''' then cfg\<lparr>gc_ID := gc_Name cfg @ ''-'' @ randomHex rnd\<rparr> else cfg)"

text \<open>
  The flag is whether the etcd client could be created, the bytes are the random ones. The
  interceptors, which are handed to the library, are left out.
\<close>

definition grpc_New :: "'e etcd \<Rightarrow> bool \<Rightarrow> bytes \<Rightarrow> grpc_config \<Rightarrow> 'e \<Rightarrow> 'e \<times> (discovery_error + grpc_server)" where
  "grpc_New et connects rnd cfg0 e =
     (let cfg = with_ID rnd cfg0;
          srv = \<lparr>gs_cfg = cfg, gs_health = None, gs_etcdClient = None, gs_etcdCancel = None\<rparr>
      in if gc_EtcdEndpoints cfg = [] then (e, Inr srv)
         else (case NewClient connects (NewConfig (gc_EtcdEndpoints cfg)) of
            None \<Rightarrow> (e, Inl ConnectFailed)
          | Some cli \<Rightarrow>
             (case Register et cli (ServiceKey (gc_Name cfg) (gc_ID cfg)) (gc_Addr cfg) e of
                (e', Inl err) \<Rightarrow> (e', Inl err)
              | (e', Inr l) \<Rightarrow> (e', Inr (srv\<lparr>gs_etcdClient := Some cli, gs_etcdCancel := Some l\<rparr>)))))"

text \<open>
  Serve up to the call of the library that handles the requests. The flag is whether the
  operating system lets the server listen on its address.
\<close>

definition Serve :: "bool \<Rightarrow> grpc_server \<Rightarrow> discovery_error + grpc_server" where
  "Serve listens srv = (if listens then Inr (srv\<lparr>gs_health := Some SERVING\<rparr>) else Inl ListenFailed)"

definition GracefulStop :: "'e etcd \<Rightarrow> grpc_server \<Rightarrow> 'e \<Rightarrow> 'e \<times> grpc_server" where
  "GracefulStop et srv e =
     ((case gs_etcdCancel srv of None \<Rightarrow> e | Some l \<Rightarrow> Register_cancel et l e),
      srv\<lparr>gs_health := Some NOT_SERVING, gs_etcdClient := map_option Client_Close (gs_etcdClient srv)\<rparr>)"

section \<open>The user service process\<close>

record serviceConfig =
  sc_Addr :: string
  sc_Endpoints :: "string list"

text \<open>The YAML library fills in a configuration; the flag is false when it returns an error.\<close>

definition loadConfig :: "(bytes \<Rightarrow> serviceConfig \<Rightarrow> serviceConfig \<times> bool) \<Rightarrow> bytes option \<Rightarrow> serviceConfig option" where
  "loadConfig y file =
     (case file of
        None \<Rightarrow> None
      | Some d \<Rightarrow> (case y d \<lparr>sc_Addr = '':50051'', sc_Endpoints = []\<rparr> of (cfg, ok) \<Rightarrow> if ok then Some cfg else None))"

text \<open>The configuration of the gRPC server, with the two environment variables (empty when unset).\<close>

definition user_service_config ::
  "(bytes \<Rightarrow> serviceConfig \<Rightarrow> serviceConfig \<times> bool) \<Rightarrow> bytes option \<Rightarrow> string \<Rightarrow> string \<Rightarrow> grpc_config option" where
  "user_service_config y file listen_addr etcd_endpoints =
     (case loadConfig y file of
        None \<Rightarrow> None
      | Some cfg \<Rightarrow> Some \<lparr>gc_Name = ''user-service'',
          gc_Addr = (if listen_addr \<noteq> '''' then listen_addr else sc_Addr cfg), gc_ID = '''',
          gc_EtcdEndpoints = (if etcd_endpoints \<noteq> '''' then split_on CHR 0x2C etcd_endpoints else sc_Endpoints cfg)\<rparr>)"

datatype service_error = LoadConfigFailed | CreateFailed discovery_error | ServeFailed discovery_error

text \<open>
  The main function of the user service: the server that serves and the handler that is
  registered with it, or the error with which the process ends. The flag \<open>listens\<close> is for
  the address of the server.
\<close>

definition user_service_main ::
  "'e etcd \<Rightarrow> bool \<Rightarrow> bytes \<Rightarrow> (bytes \<Rightarrow> serviceConfig \<Rightarrow> serviceConfig \<times> bool) \<Rightarrow> bytes option \<Rightarrow> string \<Rightarrow> string \<Rightarrow> bool \<Rightarrow> 'e
   \<Rightarrow> 'e \<times> (service_error + grpc_server \<times> UserServiceServer)" where
  "user_service_main et connects rnd y file listen_addr etcd_endpoints listens e =
     (case user_service_config y file listen_addr etcd_endpoints of
        None \<Rightarrow> (e, Inl LoadConfigFailed)
      | Some cfg \<Rightarrow>
         (case grpc_New et connects rnd cfg e of
            (e', Inl err) \<Rightarrow> (e', Inl (CreateFailed err))
          | (e', Inr srv) \<Rightarrow>
             (case Serve listens srv of
                Inl err \<Rightarrow> (e', Inl (ServeFailed err))
              | Inr srv' \<Rightarrow> (e', Inr (srv', UserService_New (grpc_ID srv))))))"

text \<open>What the goroutine WaitForShutdown does at a signal; without one it waits for ever.\<close>

definition WaitForShutdown :: "'e etcd \<Rightarrow> bool \<Rightarrow> grpc_server \<Rightarrow> 'e \<Rightarrow> 'e \<times> grpc_server" where
  "WaitForShutdown et signalled srv e = (if signalled then GracefulStop et srv e else (e, srv))"

section \<open>The resolver\<close>

definition TrimPrefix :: "string \<Rightarrow> string \<Rightarrow> string" where
  "TrimPrefix s p = (if prefix p s then drop (length p) s else s)"

definition service_prefix :: "string \<Rightarrow> string" where
  "service_prefix name = ''/services/'' @ name @ ''/''"

text \<open>The prefix that a new resolver watches, from the host and the endpoint of the target.\<close>

definition resolver_Build :: "string \<Rightarrow> string \<Rightarrow> discovery_error + string" where
  "resolver_Build host endpoint =
     (let serviceName = (if host = '''' then endpoint else host)
      in if serviceName = '''' then Inl NoServiceName else Inr (service_prefix serviceName))"

text \<open>The addresses and server names handed to the connection; none when the request failed.\<close>

definition resolver_update :: "'e etcd \<Rightarrow> string \<Rightarrow> 'e \<Rightarrow> (string \<times> string) list option" where
  "resolver_update et pfx e = map_option (map (\<lambda>(k, v). (v, TrimPrefix k pfx))) (et_range et pfx e)"

datatype etcd_event = WatchResponse | WatchError | WatchClosed | ResolverDone

text \<open>One round of the watch loop; the flag says whether it goes on.\<close>

definition watch_round :: "'e etcd \<Rightarrow> string \<Rightarrow> etcd_event \<Rightarrow> 'e \<Rightarrow> (string \<times> string) list option \<times> bool" where
  "watch_round et pfx ev e =
     (case ev of
        WatchClosed \<Rightarrow> (None, False)
      | WatchError \<Rightarrow> (None, True)
      | WatchResponse \<Rightarrow> (resolver_update et pfx e, True)
      | ResolverDone \<Rightarrow> (None, False))"

text \<open>
  A resolver: the prefix it watches, the addresses it handed to the connection last, whether
  its watch loop runs, whether it was closed.
\<close>

record etcdResolver =
  rv_prefix :: string
  rv_addrs :: "(string \<times> string) list option"
  rv_watching :: bool
  rv_done :: bool

definition hand_over :: "(string \<times> string) list option \<Rightarrow> etcdResolver \<Rightarrow> etcdResolver" where
  "hand_over as r = (case as of None \<Rightarrow> r | Some _ \<Rightarrow> r\<lparr>rv_addrs := as\<rparr>)"

definition resolver_start :: "'e etcd \<Rightarrow> string \<Rightarrow> 'e \<Rightarrow> etcdResolver" where
  "resolver_start et pfx e = hand_over (resolver_update et pfx e)
     \<lparr>rv_prefix = pfx, rv_addrs = None, rv_watching = True, rv_done = False\<rparr>"

definition ResolveNow :: "'e etcd \<Rightarrow> 'e \<Rightarrow> etcdResolver \<Rightarrow> etcdResolver" where
  "ResolveNow et e r = hand_over (resolver_update et (rv_prefix r) e) r"

definition resolver_watch :: "'e etcd \<Rightarrow> etcd_event \<Rightarrow> 'e \<Rightarrow> etcdResolver \<Rightarrow> etcdResolver" where
  "resolver_watch et ev e r =
     (if rv_watching r
      then case watch_round et (rv_prefix r) ev e of (as, continues) \<Rightarrow> (hand_over as r)\<lparr>rv_watching := continues\<rparr>
      else r)"

text \<open>Closing a closed channel panics.\<close>

definition resolver_Close :: "etcdResolver \<Rightarrow> etcdResolver option" where
  "resolver_Close r = (if rv_done r then None else Some (r\<lparr>rv_done := True\<rparr>))"

text \<open>
  The target of a new connection. The flag is whether the etcd client could be created; the
  predicate says which targets the library accepts.
\<close>

definition Scheme :: string where
  "Scheme = ''etcd''"

definition NewConn_target :: "string \<Rightarrow> string list \<Rightarrow> string \<Rightarrow> bool \<Rightarrow> discovery_error + string" where
  "NewConn_target serviceName endpoints directAddr connects =
     (if endpoints \<noteq> []
      then (case NewClient connects (NewConfig endpoints) of
          None \<Rightarrow> Inl ConnectFailed
        | Some _ \<Rightarrow> Inr (Scheme @ '':///'' @ serviceName))
      else Inr directAddr)"

definition NewConn :: "string \<Rightarrow> string list \<Rightarrow> string \<Rightarrow> bool \<Rightarrow> (string \<Rightarrow> bool) \<Rightarrow> discovery_error + string" where
  "NewConn serviceName endpoints directAddr connects dial_ok =
     (case NewConn_target serviceName endpoints directAddr connects of
        Inl err \<Rightarrow> Inl err
      | Inr target \<Rightarrow> if dial_ok target then Inr target else Inl DialFailed)"

section \<open>The user job\<close>

record jobConfig =
  jc_Endpoints :: "string list"
  jc_NATS :: string
  jc_Target :: string

text \<open>The default address of the message broker is a constant of its library.\<close>

definition loadJobConfig :: "(bytes \<Rightarrow> jobConfig \<Rightarrow> jobConfig \<times> bool) \<Rightarrow> string \<Rightarrow> bytes option \<Rightarrow> jobConfig option" where
  "loadJobConfig y default_url file =
     (case file of
        None \<Rightarrow> None
      | Some d \<Rightarrow> (case y d \<lparr>jc_Endpoints = [], jc_NATS = default_url, jc_Target = ''localhost:50051''\<rparr> of
          (cfg, ok) \<Rightarrow> if ok then Some cfg else None))"

datatype job_error = LoadConfig | ConnectUserService discovery_error | ConnectNATS

text \<open>The running job: the target of its connection, its broker, whether its ticker and subscription run.\<close>

record user_job =
  job_target :: string
  job_nats :: string
  job_ticking :: bool
  job_subscribed :: bool

definition user_job_start ::
  "(bytes \<Rightarrow> jobConfig \<Rightarrow> jobConfig \<times> bool) \<Rightarrow> string \<Rightarrow> bytes option \<Rightarrow> bool \<Rightarrow> (string \<Rightarrow> bool) \<Rightarrow> (string \<Rightarrow> bool)
   \<Rightarrow> job_error + user_job" where
  "user_job_start y default_url file etcd_ok dial_ok nats_ok =
     (case loadJobConfig y default_url file of
        None \<Rightarrow> Inl LoadConfig
      | Some cfg \<Rightarrow>
         (case NewConn ''user-service'' (jc_Endpoints cfg) (jc_Target cfg) etcd_ok dial_ok of
            Inl err \<Rightarrow> Inl (ConnectUserService err)
          | Inr target \<Rightarrow>
              if \<not> nats_ok (jc_NATS cfg) then Inl ConnectNATS
              else Inr \<lparr>job_target = target, job_nats = jc_NATS cfg, job_ticking = True, job_subscribed = True\<rparr>))"

text \<open>
  What happens to a running job: a user.create message, with the time at which the service
  handles it; a tick, with whether the service answers; a signal.
\<close>

datatype job_event = UserCreate i64 bytes | CronTick bool | Signal

text \<open>A tick: the server that the log names, if it answers.\<close>

definition cron_tick :: "bool \<Rightarrow> UserServiceServer \<Rightarrow> string option" where
  "cron_tick answers s = (if answers then Some (snd (UserService_Ping s)) else None)"

definition job_shutdown :: "user_job \<Rightarrow> user_job" where
  "job_shutdown job = job\<lparr>job_ticking := False, job_subscribed := False\<rparr>"

text \<open>One event of the job, with the service it is connected to; the text is what it logs.\<close>

definition job_step ::
  "(bytes \<Rightarrow> (string \<times> string) option) \<Rightarrow> job_event \<Rightarrow> user_job \<times> UserServiceServer \<Rightarrow> (user_job \<times> UserServiceServer) \<times> string option" where
  "job_step decode ev js =
     (case js of (job, s) \<Rightarrow>
       (case ev of
          UserCreate now data \<Rightarrow>
            if job_subscribed job
            then (case user_create_consumer decode now data s of (s', logged) \<Rightarrow> ((job, s'), logged))
            else (js, None)
        | CronTick answers \<Rightarrow> (js, if job_ticking job then cron_tick answers s else None)
        | Signal \<Rightarrow> ((job_shutdown job, s), None)))"

fun job_run :: "(bytes \<Rightarrow> (string \<times> string) option) \<Rightarrow> job_event list \<Rightarrow> user_job \<times> UserServiceServer \<Rightarrow> (user_job \<times> UserServiceServer) \<times> string list" where
  "job_run decode [] js = (js, [])"
| "job_run decode (ev # evs) js =
     (case job_step decode ev js of (js', logged) \<Rightarrow>
       (case job_run decode evs js' of (js'', logs) \<Rightarrow> (js'', (case logged of None \<Rightarrow> logs | Some l \<Rightarrow> l # logs))))"

section \<open>What the library promises\<close>

text \<open>
  The keys with their values and leases. A granted lease is new; a put sets one key; a
  revoke that succeeds removes exactly the keys of its lease; a range over a prefix lists
  the keys with that prefix once each.
\<close>

definition etcd_laws :: "'e etcd \<Rightarrow> ('e \<Rightarrow> (string, string \<times> lease) fmap) \<Rightarrow> bool" where
  "etcd_laws et kvs \<longleftrightarrow>
     (\<forall>ttl e e' l. et_grant et ttl e = Some (e', l) \<longrightarrow> kvs e' = kvs e \<and> (\<forall>k v. fmlookup (kvs e) k \<noteq> Some (v, l))) \<and>
     (\<forall>k v l e e'. et_put et k v l e = Some e' \<longrightarrow> kvs e' = fmupd k (v, l) (kvs e)) \<and>
     (\<forall>l e e'. et_revoke et l e = (e', True) \<longrightarrow>
        (\<forall>k. fmlookup (kvs e') k = (case fmlookup (kvs e) k of Some (v, l') \<Rightarrow> if l' = l then None else Some (v, l') | None \<Rightarrow> None))) \<and>
     (\<forall>p e xs. et_range et p e = Some xs \<longrightarrow> distinct (map fst xs) \<and>
        set xs = {(k, v). \<exists>l. fmlookup (kvs e) k = Some (v, l) \<and> prefix p k})"

text \<open>The instances that a resolver for a service sees: addresses with instance identifiers.\<close>

definition instances :: "(string, string \<times> lease) fmap \<Rightarrow> string \<Rightarrow> (string \<times> string) set" where
  "instances m name = {(v, i). \<exists>l. fmlookup m (ServiceKey name i) = Some (v, l)}"

section \<open>Lemmas\<close>

lemma ServiceKey_prefix: "ServiceKey name i = service_prefix name @ i"
  by (simp add: ServiceKey_def service_prefix_def)

lemma resolver_update_instances:
  assumes "etcd_laws et kvs" "resolver_update et (service_prefix name) e = Some as"
  shows "set as = instances (kvs e) name"
proof -
  obtain xs where xs: "et_range et (service_prefix name) e = Some xs"
      "as = map (\<lambda>(k, v). (v, TrimPrefix k (service_prefix name))) xs"
    using assms(2) by (auto simp: resolver_update_def)
  then have "set xs = {(k, v). \<exists>l. fmlookup (kvs e) k = Some (v, l) \<and> prefix (service_prefix name) k}"
    using assms(1) by (auto simp: etcd_laws_def)
  then show ?thesis
    by (auto simp: xs(2) instances_def ServiceKey_prefix TrimPrefix_def prefix_def image_iff) (force simp: prefix_def)
qed

lemma service_prefix_inject:
  assumes "CHR 0x2F \<notin> set a" "CHR 0x2F \<notin> set b" "a @ CHR 0x2F # s = b @ CHR 0x2F # t"
  shows "a = b \<and> s = t"
  using assms
proof (induction a arbitrary: b)
  case Nil
  then show ?case by (cases b) auto
next
  case (Cons x a)
  then show ?case by (cases b) auto
qed

lemma ServiceKey_inject:
  assumes "CHR 0x2F \<notin> set a" "CHR 0x2F \<notin> set b"
  shows "ServiceKey a i = ServiceKey b j \<longleftrightarrow> a = b \<and> i = j"
  using service_prefix_inject [OF assms, of i j] by (auto simp: ServiceKey_def)

lemma Register_kvs:
  assumes "etcd_laws et kvs" "Register et cli key val e = (e1, Inr l)"
  shows "kvs e1 = fmupd key (val, l) (kvs e) \<and> (\<forall>k v. fmlookup (kvs e) k \<noteq> Some (v, l))"
proof -
  obtain e0 where e0: "et_grant et (cli_TTL cli) e = Some (e0, l)" "et_put et key val l e0 = Some e1"
    using assms(2) by (auto simp: Register_def split: option.splits prod.splits if_splits)
  then have "kvs e0 = kvs e" "\<forall>k v. fmlookup (kvs e) k \<noteq> Some (v, l)" "kvs e1 = fmupd key (val, l) (kvs e0)"
    using assms(1) unfolding etcd_laws_def by blast+
  then show ?thesis by simp
qed

lemma revoke_kvs:
  assumes "etcd_laws et kvs" "et_revoke et l e = (e', True)"
  shows "fmlookup (kvs e') k = (case fmlookup (kvs e) k of Some (v, l') \<Rightarrow> if l' = l then None else Some (v, l') | None \<Rightarrow> None)"
  using assms unfolding etcd_laws_def by blast

lemma grpc_New_registers:
  assumes "grpc_New et connects rnd cfg e = (e1, Inr srv)" "gc_EtcdEndpoints cfg \<noteq> []"
  shows "\<exists>l. gs_etcdCancel srv = Some l \<and> gc_Name (gs_cfg srv) = gc_Name cfg \<and> gc_Addr (gs_cfg srv) = gc_Addr cfg \<and> gc_ID (gs_cfg srv) \<noteq> '''' \<and>
    Register et \<lparr>cli_TTL = 10, cli_open = True\<rparr> (ServiceKey (gc_Name cfg) (gc_ID (gs_cfg srv))) (gc_Addr cfg) e = (e1, Inr l)"
  using assms by (auto simp: grpc_New_def with_ID_def NewConfig_def NewClient_def Let_def split: if_splits prod.splits sum.splits)

lemma registered_update:
  assumes "etcd_laws et kvs" "CHR 0x2F \<notin> set (gc_Name cfg)" "CHR 0x2F \<notin> set other" "other \<noteq> gc_Name cfg"
    and "grpc_New et connects rnd cfg e = (e1, Inr srv)" "gc_EtcdEndpoints cfg \<noteq> []"
    and "resolver_update et (service_prefix (gc_Name cfg)) e1 = Some found"
    and "resolver_update et (service_prefix other) e1 = Some others"
    and "gs_etcdCancel srv = Some l" "snd (et_revoke et l e1)"
    and "resolver_update et (service_prefix (gc_Name cfg)) (fst (GracefulStop et srv e1)) = Some left"
  shows "set found = insert (gc_Addr cfg, gc_ID (gs_cfg srv)) {x \<in> instances (kvs e) (gc_Name cfg). snd x \<noteq> gc_ID (gs_cfg srv)} \<and>
    set others = instances (kvs e) other \<and>
    set left = {x \<in> instances (kvs e) (gc_Name cfg). snd x \<noteq> gc_ID (gs_cfg srv)}"
proof -
  let ?n = "gc_Name cfg" and ?i = "gc_ID (gs_cfg srv)"
  have reg: "Register et \<lparr>cli_TTL = 10, cli_open = True\<rparr> (ServiceKey ?n ?i) (gc_Addr cfg) e = (e1, Inr l)"
    using grpc_New_registers [OF assms(5,6)] assms(9) by auto
  note kv = Register_kvs [OF assms(1) reg]
  have stop: "et_revoke et l e1 = (fst (GracefulStop et srv e1), True)"
    using assms(9,10) by (cases "et_revoke et l e1") (simp add: GracefulStop_def Register_cancel_def)
  have "set found = instances (kvs e1) ?n" "set others = instances (kvs e1) other" "set left = instances (kvs (fst (GracefulStop et srv e1))) ?n"
    using resolver_update_instances [OF assms(1)] assms(7,8,11) by auto
  moreover have keys: "ServiceKey ?n ?i = ServiceKey ?n j \<longleftrightarrow> ?i = j" "ServiceKey ?n ?i \<noteq> ServiceKey other j" for j
    using ServiceKey_inject [OF assms(2,2), of ?i j] ServiceKey_inject [OF assms(2,3), of ?i j] assms(4) by auto
  moreover have "fmlookup (kvs e1) (ServiceKey ?n j) = (if ?i = j then Some (gc_Addr cfg, l) else fmlookup (kvs e) (ServiceKey ?n j))"
      "fmlookup (kvs e1) (ServiceKey other j) = fmlookup (kvs e) (ServiceKey other j)" for j
    using kv keys by simp_all
  moreover have "fmlookup (kvs (fst (GracefulStop et srv e1))) (ServiceKey ?n j) = (if ?i = j then None else fmlookup (kvs e) (ServiceKey ?n j))" for j
    using kv keys(1) [of j] revoke_kvs [OF assms(1) stop, of "ServiceKey ?n j"] by (auto split: option.splits)
  ultimately show ?thesis
    by (auto simp: instances_def split: if_splits)
qed

lemma watch_hands_over:
  assumes "rv_watching r" "et_range et (rv_prefix r) e \<noteq> None"
  obtains as where "resolver_update et (rv_prefix r) e = Some as"
    and "resolver_watch et WatchResponse e r = r\<lparr>rv_addrs := Some as\<rparr>"
  using assms by (cases "et_range et (rv_prefix r) e") (auto simp: resolver_watch_def watch_round_def hand_over_def resolver_update_def)

text \<open>
  C28: A client learns of a gRPC server that starts and of its stop. When a server has registered, the next watch
  event makes a resolver of its service hand over exactly the other instances and its
  address under its identifier; resolvers of other services hand over what they would have
  before; and after a graceful stop whose revocation succeeds the next watch event makes
  the resolver drop the instance.
\<close>

theorem registered_is_resolved:
  assumes "etcd_laws et kvs" "CHR 0x2F \<notin> set (gc_Name cfg)" "CHR 0x2F \<notin> set other" "other \<noteq> gc_Name cfg"
    and "\<And>p e. et_range et p e \<noteq> None"
    and "grpc_New et connects rnd cfg e = (e1, Inr srv)" "gc_EtcdEndpoints cfg \<noteq> []"
    and "gs_etcdCancel srv = Some l" "snd (et_revoke et l e1)"
    and "rv_prefix r = service_prefix (gc_Name cfg)" "rv_watching r" "rv_prefix q = service_prefix other" "rv_watching q"
    and "r1 = resolver_watch et WatchResponse e1 r"
  shows "\<exists>found others left.
    rv_addrs r1 = Some found \<and> rv_addrs (resolver_watch et WatchResponse e1 q) = Some others \<and>
    rv_addrs (resolver_watch et WatchResponse (fst (GracefulStop et srv e1)) r1) = Some left \<and>
    set found = insert (gc_Addr cfg, gc_ID (gs_cfg srv)) {x \<in> instances (kvs e) (gc_Name cfg). snd x \<noteq> gc_ID (gs_cfg srv)} \<and>
    set others = instances (kvs e) other \<and>
    set left = {x \<in> instances (kvs e) (gc_Name cfg). snd x \<noteq> gc_ID (gs_cfg srv)}"
proof -
  obtain found where found: "resolver_update et (service_prefix (gc_Name cfg)) e1 = Some found" "r1 = r\<lparr>rv_addrs := Some found\<rparr>"
    using watch_hands_over [OF assms(11,5), of e1] assms(10,14) by metis
  obtain others where others: "resolver_update et (service_prefix other) e1 = Some others"
      "resolver_watch et WatchResponse e1 q = q\<lparr>rv_addrs := Some others\<rparr>"
    using watch_hands_over [OF assms(13,5), of e1] assms(12) by metis
  have "rv_watching r1" "rv_prefix r1 = service_prefix (gc_Name cfg)"
    using found(2) assms(10,11) by simp_all
  then obtain left where left: "resolver_update et (service_prefix (gc_Name cfg)) (fst (GracefulStop et srv e1)) = Some left"
      "resolver_watch et WatchResponse (fst (GracefulStop et srv e1)) r1 = r1\<lparr>rv_addrs := Some left\<rparr>"
    using watch_hands_over [OF _ assms(5), of r1 "fst (GracefulStop et srv e1)"] by metis
  show ?thesis
    using registered_update [OF assms(1-4,6,7) found(1) others(1) assms(8,9) left(1)] found(2) others(2) left(2) by simp
qed

section \<open>Failed starts\<close>

lemma Register_error_kvs:
  assumes "etcd_laws et kvs" "Register et cli key val e = (e', Inl err)"
  shows "(err = GrantFailed \<or> err = PutFailed) \<and> kvs e' = kvs e \<or> err = KeepAliveFailed \<and> (\<exists>l. kvs e' = fmupd key (val, l) (kvs e))"
proof (cases "et_grant et (cli_TTL cli) e")
  case (Some g)
  obtain e0 l where g: "et_grant et (cli_TTL cli) e = Some (e0, l)"
    using Some by (cases g) simp
  then have kvs0: "kvs e0 = kvs e"
    using assms(1) unfolding etcd_laws_def by blast
  show ?thesis
  proof (cases "et_put et key val l e0")
    case (Some e2)
    then have "kvs e2 = fmupd key (val, l) (kvs e)"
      using assms(1) kvs0 unfolding etcd_laws_def by metis
    then show ?thesis
      using assms(2) g Some by (auto simp: Register_def split: if_splits)
  qed (use assms(2) g kvs0 in \<open>auto simp: Register_def\<close>)
qed (use assms(2) in \<open>auto simp: Register_def\<close>)

lemma grpc_New_error_kvs:
  assumes "etcd_laws et kvs" "grpc_New et connects rnd cfg e = (e', Inl err)"
  shows "err \<noteq> KeepAliveFailed \<and> kvs e' = kvs e \<or>
    err = KeepAliveFailed \<and> (\<exists>i l. kvs e' = fmupd (ServiceKey (gc_Name cfg) i) (gc_Addr cfg, l) (kvs e))"
proof -
  let ?c = "with_ID rnd cfg"
  have same: "gc_Name ?c = gc_Name cfg" "gc_Addr ?c = gc_Addr cfg"
    by (simp_all add: with_ID_def)
  consider "e' = e" "err = ConnectFailed"
    | "Register et \<lparr>cli_TTL = 10, cli_open = True\<rparr> (ServiceKey (gc_Name ?c) (gc_ID ?c)) (gc_Addr ?c) e = (e', Inl err)"
    using assms(2) by (auto simp: grpc_New_def NewConfig_def NewClient_def Let_def split: if_splits prod.splits sum.splits)
  then show ?thesis
  proof cases
    case 2
    from Register_error_kvs [OF assms(1) this] show ?thesis
      unfolding same by auto
  qed simp
qed

lemma registered_is_seen:
  assumes "etcd_laws et kvs" "kvs e = fmupd (ServiceKey name i) (addr, l) m"
    and "rv_watching r" "rv_prefix r = service_prefix name" "et_range et (rv_prefix r) e \<noteq> None"
  shows "\<exists>found. rv_addrs (resolver_watch et WatchResponse e r) = Some found \<and> (addr, i) \<in> set found"
proof -
  obtain found where found: "resolver_update et (rv_prefix r) e = Some found"
      "resolver_watch et WatchResponse e r = r\<lparr>rv_addrs := Some found\<rparr>"
    using watch_hands_over [OF assms(3,5)] by metis
  have "set found = instances (kvs e) name"
    using resolver_update_instances [OF assms(1)] found(1) assms(4) by simp
  then show ?thesis
    using found(2) assms(2) by (simp add: instances_def)
qed


section \<open>The messages of the job\<close>

text \<open>The users that the messages before the first signal ask for.\<close>

fun job_creates :: "(bytes \<Rightarrow> (string \<times> string) option) \<Rightarrow> job_event list \<Rightarrow> (i64 \<times> string \<times> string) list" where
  "job_creates decode [] = []"
| "job_creates decode (UserCreate now data # evs) =
     (case decode data of None \<Rightarrow> [] | Some um \<Rightarrow> [(now, um)]) @ job_creates decode evs"
| "job_creates decode (CronTick _ # evs) = job_creates decode evs"
| "job_creates decode (Signal # evs) = []"

lemma job_run_Cons: "fst (job_run decode (ev # evs) js) = fst (job_run decode evs (fst (job_step decode ev js)))"
  by (simp split: prod.split)

lemma job_stopped: "\<not> job_subscribed job \<Longrightarrow> snd (fst (job_run decode evs (job, s))) = s"
proof (induction evs arbitrary: job)
  case (Cons ev evs)
  have "\<exists>job'. fst (job_step decode ev (job, s)) = (job', s) \<and> \<not> job_subscribed job'"
    using Cons.prems by (cases ev) (simp_all add: job_step_def job_shutdown_def)
  then show ?case
    using Cons.IH unfolding job_run_Cons by auto
qed simp

lemma consumer_state:
  "fst (user_create_consumer decode now data s) =
     (case decode data of None \<Rightarrow> s | Some (u, m) \<Rightarrow> fst (CreateUser now u m s))"
  by (auto simp: user_create_consumer_def split: option.splits prod.splits sum.splits)

text \<open>
  A running job has the service create exactly the users that the readable messages before
  the signal ask for, in their order; ticks and unreadable messages change no user.
\<close>

theorem job_applies_messages:
  assumes "job_subscribed job"
  shows "snd (fst (job_run decode evs (job, s))) = fold (\<lambda>(now, u, m) s. fst (CreateUser now u m s)) (job_creates decode evs) s"
proof (induction evs arbitrary: s)
  case (Cons ev evs)
  show ?case
  proof (cases ev)
    case (UserCreate now data)
    have "fst (job_step decode ev (job, s)) = (job, fst (user_create_consumer decode now data s))"
      using assms by (simp add: UserCreate job_step_def split: prod.split)
    then show ?thesis
      unfolding job_run_Cons using Cons by (simp add: UserCreate consumer_state split: option.split prod.split)
  next
    case (CronTick b)
    then show ?thesis
      unfolding job_run_Cons using Cons [of s] by (simp add: job_step_def)
  next
    case Signal
    have "\<not> job_subscribed (job_shutdown job)"
      by (simp add: job_shutdown_def)
    then show ?thesis
      unfolding job_run_Cons by (simp add: Signal job_step_def job_stopped)
  qed
qed simp

section \<open>A concrete store\<close>

definition mem_etcd :: "(string, string \<times> lease) fmap etcd" where
  "mem_etcd = \<lparr>et_grant = (\<lambda>ttl m. Some (m, Suc (Max (insert 0 (snd ` fset (fmran m)))))),
     et_put = (\<lambda>k v l m. Some (fmupd k (v, l) m)), et_keepalive = (\<lambda>l m. True),
     et_revoke = (\<lambda>l m. (fmfilter (\<lambda>k. map_option snd (fmlookup m k) \<noteq> Some l) m, True)),
     et_range = (\<lambda>p m. Some (map (\<lambda>(k, v). (k, fst v)) (filter (\<lambda>(k, v). prefix p k) (sorted_list_of_fmap m))))\<rparr>"

lemma mem_etcd_laws: "etcd_laws mem_etcd id"
proof -
  have fresh: "fmlookup m k \<noteq> Some (v, Suc (Max (insert 0 (snd ` fset (fmran m)))))" for m :: "(string, string \<times> lease) fmap" and k v
  proof -
    have "l \<le> Max (insert 0 (snd ` fset (fmran m)))" if "fmlookup m k = Some (v, l)" for l
      using imageI [OF fmranI [OF that], of snd] by (intro Max_ge) simp_all
    then show ?thesis by fastforce
  qed
  have range: "distinct (map fst xs) \<and> set xs = {(k, v). \<exists>l. fmlookup m k = Some (v, l) \<and> prefix p k}"
    if "et_range mem_etcd p m = Some xs" for p m xs
  proof -
    have xs: "xs = map (\<lambda>(k, v). (k, fst v)) (filter (\<lambda>(k, v). prefix p k) (sorted_list_of_fmap m))"
      using that by (simp add: mem_etcd_def)
    have "map fst xs = map fst (filter (\<lambda>(k, v). prefix p k) (sorted_list_of_fmap m))"
      unfolding xs by (simp add: o_def split_def)
    then have "distinct (map fst xs)"
      using distinct_sorted_list_of_fmap [of m] by (simp add: distinct_map_filter)
    then show ?thesis
      unfolding xs by (auto simp: set_sorted_list_of_fmap image_iff split_def)
  qed
  have grant: "id e' = id e \<and> (\<forall>k v. fmlookup (id e) k \<noteq> Some (v, l))" if "et_grant mem_etcd ttl e = Some (e', l)" for ttl e e' l
    using that fresh by (simp add: mem_etcd_def) blast
  have put: "id e' = fmupd k (v, l) (id e)" if "et_put mem_etcd k v l e = Some e'" for k v l e e'
    using that by (simp add: mem_etcd_def)
  have revoke: "fmlookup (id e') k = (case fmlookup (id e) k of Some (v, l') \<Rightarrow> if l' = l then None else Some (v, l') | None \<Rightarrow> None)"
    if "et_revoke mem_etcd l e = (e', True)" for l e e' k
    using that by (auto simp: mem_etcd_def split: option.split)
  show ?thesis
    unfolding etcd_laws_def using grant put revoke range by (simp only: id_apply) blast
qed

text \<open>One instance of the user service that starts on an empty store, and is stopped.\<close>

definition user_cfg :: grpc_config where
  "user_cfg = \<lparr>gc_Name = ''user-service'', gc_Addr = '':50051'', gc_ID = ''u1'', gc_EtcdEndpoints = [''e:1'']\<rparr>"

theorem registered_is_resolved_witness:
  "\<exists>srv e1 found. grpc_New mem_etcd True [] user_cfg fmempty = (e1, Inr srv) \<and>
     rv_addrs (resolver_watch mem_etcd WatchResponse e1 (resolver_start mem_etcd (service_prefix ''user-service'') fmempty)) = Some found \<and>
     set found = {('':50051'', ''u1'')}"
proof -
  obtain e1 srv l where run: "grpc_New mem_etcd True [] user_cfg fmempty = (e1, Inr srv)" "gs_etcdCancel srv = Some l" "gc_ID (gs_cfg srv) = ''u1''"
    by (simp add: grpc_New_def with_ID_def user_cfg_def Register_def NewConfig_def NewClient_def mem_etcd_def)
  have range: "et_range mem_etcd p e \<noteq> None" for p e
    by (simp add: mem_etcd_def)
  have start: "rv_prefix (resolver_start mem_etcd p fmempty) = p" "rv_watching (resolver_start mem_etcd p fmempty)" for p
    by (simp_all add: resolver_start_def hand_over_def split: option.split)
  have "snd (et_revoke mem_etcd l e1)"
    by (simp add: mem_etcd_def)
  moreover have "CHR 0x2F \<notin> set (gc_Name user_cfg)" "CHR 0x2F \<notin> set ''user-job''" "''user-job'' \<noteq> gc_Name user_cfg" "gc_EtcdEndpoints user_cfg \<noteq> []"
    by (simp_all add: user_cfg_def)
  moreover have "service_prefix ''user-service'' = service_prefix (gc_Name user_cfg)"
    by (simp add: user_cfg_def)
  ultimately show ?thesis
    using registered_is_resolved [OF mem_etcd_laws _ _ _ range run(1) _ run(2) _ start(1,2) start(1,2) refl, of "''user-job''"] run(1,3)
    by (auto simp: user_cfg_def instances_def)
qed


end
