(* ===== verification/Store.thy ===== *)
theory Store
  imports Prelude
begin

text \<open>
  The journal and snapshot store of pkg/persist/store.go. The application state of type
  \<open>'s\<close> is only touched through the callbacks of the configuration, as in the source. The
  three files of a store directory are the record \<open>disk\<close>; what the operating system may
  refuse is an argument of each operation. The journal is a text file of one entry per
  line, read back with the rules of bufio.Scanner: lines end in a newline, one trailing
  carriage return is dropped, a line of 65536 bytes or more is an error.

  The lemmas give the recovered state in terms of the entries on disk, for a clean
  journal, for a journal with a torn last line, and for a crash at each point of a
  snapshot.
\<close>

section \<open>Files and errors\<close>

record disk =
  d_snapshot :: "bytes option"
  d_tmp :: "bytes option"
  d_journal :: "bytes option"

datatype store_error =
    SnapshotRequired | LoadSnapshotRequired | ReplayRequired
  | CreateDirFailed | OpenJournalFailed
  | StoreClosed | AppendFailed
  | SerializeFailed | WriteSnapshotFailed | RenameFailed | RecreateFailed
  | ReplayFailed nat | ScanFailed | ReadJournalFailed | CloseFailed

section \<open>Configuration and store\<close>

text \<open>
  A callback takes the application state; the flag of the two loading callbacks is false
  when they return an error.
\<close>

record 's StoreConfig =
  cfg_Snapshot :: "('s \<Rightarrow> bytes option) option"
  cfg_LoadSnapshot :: "(bytes \<Rightarrow> 's \<Rightarrow> 's \<times> bool) option"
  cfg_Replay :: "(bytes \<Rightarrow> 's \<Rightarrow> 's \<times> bool) option"
  cfg_SnapshotInterval :: i64
  cfg_MaxJournalSize :: i64

definition defaultSnapshotInterval :: i64 where
  "defaultSnapshotInterval = 30000000000"

definition defaultMaxJournalSize :: i64 where
  "defaultMaxJournalSize = 268435456"

text \<open>
  The journal handle is nil before the journal is opened, and open or closed after. The
  buffered writer keeps the first write error and refuses to write until it is reset.
\<close>

datatype handle = NilHandle | OpenHandle | ClosedHandle

record 's Store =
  st_cfg :: "'s StoreConfig"
  st_journal :: handle
  st_buferr :: bool
  st_closed :: bool

section \<open>Reading the journal\<close>

fun split_lines :: "bytes \<Rightarrow> bytes list" where
  "split_lines [] = []"
| "split_lines (c # cs) =
     (if c = CHR 0x0A then [] # split_lines cs
      else (case split_lines cs of [] \<Rightarrow> [[c]] | l # ls \<Rightarrow> (c # l) # ls))"

definition drop_cr :: "bytes \<Rightarrow> bytes" where
  "drop_cr l = (if l \<noteq> [] \<and> last l = CHR 0x0D then butlast l else l)"

definition maxToken :: nat where
  "maxToken = 65536"

fun scan :: "bytes list \<Rightarrow> bytes list \<times> bool" where
  "scan [] = ([], True)"
| "scan (l # ls) =
     (if maxToken \<le> length l then ([], False)
      else (case scan ls of (ts, ok) \<Rightarrow> (drop_cr l # ts, ok)))"

fun replay_lines :: "(bytes \<Rightarrow> 's \<Rightarrow> 's \<times> bool) \<Rightarrow> nat \<Rightarrow> bytes list \<Rightarrow> 's \<Rightarrow> 's \<times> store_error option" where
  "replay_lines R n [] s = (s, None)"
| "replay_lines R n (l # ls) s =
     (if l = [] then replay_lines R n ls s
      else (case R l s of (s', ok) \<Rightarrow>
        if ok then replay_lines R (Suc n) ls s' else (s', Some (ReplayFailed n))))"

text \<open>The flag is false when the operating system cannot open an existing journal.\<close>

definition replayJournal ::
  "bool \<Rightarrow> (bytes \<Rightarrow> 's \<Rightarrow> 's \<times> bool) \<Rightarrow> disk \<Rightarrow> 's \<Rightarrow> 's \<times> store_error option" where
  "replayJournal readable R d s =
     (case d_journal d of
        None \<Rightarrow> (s, None)
      | Some b \<Rightarrow>
          if \<not> readable then (s, Some ReadJournalFailed)
          else (case scan (split_lines b) of (ts, ok) \<Rightarrow>
            (case replay_lines R 0 ts s of
               (s', Some e) \<Rightarrow> (s', Some e)
             | (s', None) \<Rightarrow> (s', if ok then None else Some ScanFailed))))"

section \<open>Opening\<close>

record open_io =
  io_mkdir :: bool
  io_read_snapshot :: bool
  io_read_journal :: bool
  io_open_journal :: bool

definition io_fine :: open_io where
  "io_fine = \<lparr>io_mkdir = True, io_read_snapshot = True, io_read_journal = True, io_open_journal = True\<rparr>"

definition with_defaults :: "'s StoreConfig \<Rightarrow> 's StoreConfig" where
  "with_defaults cfg = cfg\<lparr>
     cfg_SnapshotInterval := (if cfg_SnapshotInterval cfg \<le> 0 then defaultSnapshotInterval else cfg_SnapshotInterval cfg),
     cfg_MaxJournalSize := (if cfg_MaxJournalSize cfg \<le> 0 then defaultMaxJournalSize else cfg_MaxJournalSize cfg)\<rparr>"

text \<open>Step 1 and 2 of opening: an unreadable or bad snapshot and a bad journal are only logged.\<close>

definition recover ::
  "open_io \<Rightarrow> (bytes \<Rightarrow> 's \<Rightarrow> 's \<times> bool) \<Rightarrow> (bytes \<Rightarrow> 's \<Rightarrow> 's \<times> bool) \<Rightarrow> disk \<Rightarrow> 's \<Rightarrow> 's" where
  "recover io L R d s =
     (let s1 = (case d_snapshot d of
                  None \<Rightarrow> s
                | Some b \<Rightarrow> if io_read_snapshot io then fst (L b s) else s)
      in fst (replayJournal (io_read_journal io) R d s1))"

definition OpenStore ::
  "open_io \<Rightarrow> 's StoreConfig \<Rightarrow> disk \<Rightarrow> 's \<Rightarrow> (store_error + 's Store) \<times> disk \<times> 's" where
  "OpenStore io cfg d s =
     (case cfg_Snapshot cfg of None \<Rightarrow> (Inl SnapshotRequired, d, s) | Some _ \<Rightarrow>
     (case cfg_LoadSnapshot cfg of None \<Rightarrow> (Inl LoadSnapshotRequired, d, s) | Some L \<Rightarrow>
     (case cfg_Replay cfg of None \<Rightarrow> (Inl ReplayRequired, d, s) | Some R \<Rightarrow>
       if \<not> io_mkdir io then (Inl CreateDirFailed, d, s)
       else let s' = recover io L R d s in
         if \<not> io_open_journal io then (Inl OpenJournalFailed, d, s')
         else (Inr \<lparr>st_cfg = with_defaults cfg, st_journal = OpenHandle, st_buferr = False, st_closed = False\<rparr>,
               d\<lparr>d_journal := Some (case d_journal d of None \<Rightarrow> [] | Some b \<Rightarrow> b)\<rparr>, s'))))"

section \<open>Appending\<close>

text \<open>
  The first argument is \<open>None\<close> when the write succeeds, and otherwise the number of bytes
  of the line that reached the file before it failed.
\<close>

definition journal_line :: "bytes \<Rightarrow> bytes" where
  "journal_line entry = entry @ [CHR 0x0A]"

definition write_journal :: "bytes \<Rightarrow> disk \<Rightarrow> disk" where
  "write_journal b d = d\<lparr>d_journal := Some ((case d_journal d of None \<Rightarrow> [] | Some c \<Rightarrow> c) @ b)\<rparr>"

definition Append :: "nat option \<Rightarrow> bytes \<Rightarrow> 's Store \<Rightarrow> disk \<Rightarrow> 's Store \<times> disk \<times> store_error option" where
  "Append io entry st d =
     (if st_closed st then (st, d, Some StoreClosed)
      else if st_buferr st \<or> st_journal st \<noteq> OpenHandle then (st\<lparr>st_buferr := True\<rparr>, d, Some AppendFailed)
      else case io of
        None \<Rightarrow> (st, write_journal (journal_line entry) d, None)
      | Some n \<Rightarrow> (st\<lparr>st_buferr := True\<rparr>, write_journal (take n (journal_line entry)) d, Some AppendFailed))"

section \<open>Snapshots\<close>

text \<open>
  A snapshot is four steps: the state is serialized and written to a temporary file, the
  file is renamed over the old snapshot, and, only then under the lock of the store, the
  journal is replaced by an empty one.
\<close>

record snap_io =
  io_write_tmp :: "bytes option"
  io_rename :: bool
  io_remove :: bool
  io_recreate :: bool

definition snap_fine :: snap_io where
  "snap_fine = \<lparr>io_write_tmp = None, io_rename = True, io_remove = True, io_recreate = True\<rparr>"

definition snap_write :: "bytes \<Rightarrow> disk \<Rightarrow> disk" where
  "snap_write data d = d\<lparr>d_tmp := Some data\<rparr>"

definition snap_rename :: "disk \<Rightarrow> disk" where
  "snap_rename d = d\<lparr>d_snapshot := d_tmp d, d_tmp := None\<rparr>"

definition rotate :: "snap_io \<Rightarrow> 's Store \<Rightarrow> disk \<Rightarrow> 's Store \<times> disk \<times> store_error option" where
  "rotate io st d =
     (if st_closed st then (st, d, Some StoreClosed)
      else if st_journal st = NilHandle then (st, d, None)
      else let d1 = (if io_remove io then d\<lparr>d_journal := None\<rparr> else d) in
        if \<not> io_recreate io then (st\<lparr>st_journal := ClosedHandle\<rparr>, d1, Some RecreateFailed)
        else (st\<lparr>st_journal := OpenHandle, st_buferr := False\<rparr>,
              d1\<lparr>d_journal := Some (case d_journal d1 of None \<Rightarrow> [] | Some b \<Rightarrow> b)\<rparr>, None))"

definition Snapshot :: "snap_io \<Rightarrow> 's \<Rightarrow> 's Store \<Rightarrow> disk \<Rightarrow> 's Store \<times> disk \<times> store_error option" where
  "Snapshot io s st d =
     (case Option.bind (cfg_Snapshot (st_cfg st)) (\<lambda>f. f s) of
        None \<Rightarrow> (st, d, Some SerializeFailed)
      | Some data \<Rightarrow>
         (case io_write_tmp io of
            Some part \<Rightarrow> (st, snap_write part d, Some WriteSnapshotFailed)
          | None \<Rightarrow>
             if \<not> io_rename io then (st, snap_write data d, Some RenameFailed)
             else rotate io st (snap_rename (snap_write data d))))"

definition journalSize :: "disk \<Rightarrow> i64" where
  "journalSize d = (case d_journal d of None \<Rightarrow> 0 | Some b \<Rightarrow> int (length b))"

text \<open>One tick of the goroutine of StartAutoSnapshot; the flag says whether it goes on.\<close>

definition auto_tick :: "snap_io \<Rightarrow> 's \<Rightarrow> 's Store \<Rightarrow> disk \<Rightarrow> 's Store \<times> disk \<times> bool" where
  "auto_tick io s st d =
     (if st_closed st then (st, d, False)
      else case Snapshot io s st d of (st', d', _) \<Rightarrow> (st', d', True))"

definition Close :: "'s Store \<Rightarrow> 's Store \<times> store_error option" where
  "Close st =
     (case st_journal st of
        NilHandle \<Rightarrow> (st\<lparr>st_closed := True\<rparr>, None)
      | OpenHandle \<Rightarrow> (st\<lparr>st_closed := True, st_journal := ClosedHandle\<rparr>, None)
      | ClosedHandle \<Rightarrow> (st\<lparr>st_closed := True\<rparr>, Some CloseFailed))"

section \<open>Reading back what was appended\<close>

text \<open>An entry that the line format can carry: one non-empty line of bounded length.\<close>

definition entry_ok :: "bytes \<Rightarrow> bool" where
  "entry_ok e \<longleftrightarrow> e \<noteq> [] \<and> CHR 0x0A \<notin> set e \<and> last e \<noteq> CHR 0x0D \<and> length e < maxToken"

definition journal_of :: "bytes list \<Rightarrow> bytes" where
  "journal_of es = concat (map journal_line es)"

lemma split_lines_line:
  "CHR 0x0A \<notin> set e \<Longrightarrow> split_lines (journal_line e @ rest) = e # split_lines rest"
  by (induction e) (auto simp: journal_line_def)

lemma split_lines_torn:
  "CHR 0x0A \<notin> set e \<Longrightarrow> e \<noteq> [] \<Longrightarrow> split_lines e = [e]"
  by (induction e rule: induct_list012) auto

lemma drop_cr_id [simp]: "entry_ok e \<Longrightarrow> drop_cr e = e"
  by (simp add: entry_ok_def drop_cr_def)

lemma scan_journal:
  "list_all entry_ok es \<Longrightarrow>
   scan (split_lines (journal_of es @ rest)) =
     (case scan (split_lines rest) of (ts, ok) \<Rightarrow> (es @ ts, ok))"
proof (induction es)
  case Nil
  then show ?case
    by (cases "scan (split_lines rest)") (simp add: journal_of_def)
next
  case (Cons e es)
  then have e: "entry_ok e" and IH: "scan (split_lines (journal_of es @ rest)) =
     (case scan (split_lines rest) of (ts, ok) \<Rightarrow> (es @ ts, ok))"
    by simp_all
  have "split_lines (journal_of (e # es) @ rest) = e # split_lines (journal_of es @ rest)"
    using e by (simp add: journal_of_def split_lines_line entry_ok_def)
  then show ?case
    using e IH by (auto simp: entry_ok_def split: prod.splits)
qed

text \<open>Replaying a list of entries, all of which are accepted.\<close>

fun apply_all :: "(bytes \<Rightarrow> 's \<Rightarrow> 's \<times> bool) \<Rightarrow> bytes list \<Rightarrow> 's \<Rightarrow> 's option" where
  "apply_all R [] s = Some s"
| "apply_all R (e # es) s = (case R e s of (s', ok) \<Rightarrow> if ok then apply_all R es s' else None)"

lemma apply_all_append:
  "apply_all R (es @ fs) s = Option.bind (apply_all R es s) (apply_all R fs)"
  by (induction es arbitrary: s) (auto split: prod.splits)

lemma replay_lines_apply_all:
  "list_all entry_ok es \<Longrightarrow> apply_all R es s = Some s' \<Longrightarrow>
   replay_lines R n (es @ ts) s = replay_lines R (n + length es) ts s'"
  by (induction es arbitrary: n s) (auto simp: entry_ok_def split: prod.splits if_splits)

section \<open>Durability\<close>

definition journal_bytes :: "disk \<Rightarrow> bytes" where
  "journal_bytes d = (case d_journal d of None \<Rightarrow> [] | Some b \<Rightarrow> b)"

definition snapshot_base :: "(bytes \<Rightarrow> 's \<Rightarrow> 's \<times> bool) \<Rightarrow> disk \<Rightarrow> 's \<Rightarrow> 's" where
  "snapshot_base L d s = (case d_snapshot d of None \<Rightarrow> s | Some b \<Rightarrow> fst (L b s))"

text \<open>
  The files hold the state \<open>s\<close>: the journal is a sequence of well formed entries, all of
  which are accepted when replayed on the snapshot, and they lead to \<open>s\<close>.
\<close>

definition durable_by ::
  "(bytes \<Rightarrow> 's \<Rightarrow> 's \<times> bool) \<Rightarrow> (bytes \<Rightarrow> 's \<Rightarrow> 's \<times> bool) \<Rightarrow> disk \<Rightarrow> 's \<Rightarrow> bytes list \<Rightarrow> 's \<Rightarrow> bool" where
  "durable_by L R d s0 es s \<longleftrightarrow>
     journal_bytes d = journal_of es \<and> list_all entry_ok es \<and>
     apply_all R es (snapshot_base L d s0) = Some s"

lemma replayJournal_torn:
  assumes "d_journal d = Some (journal_of es @ rest)" "list_all entry_ok es"
    and "apply_all R es s = Some s'"
  shows "replayJournal True R d s =
    (case scan (split_lines rest) of (ts, ok) \<Rightarrow>
       (case replay_lines R (length es) ts s' of
          (s'', Some e) \<Rightarrow> (s'', Some e)
        | (s'', None) \<Rightarrow> (s'', if ok then None else Some ScanFailed)))"
  using assms scan_journal [of es rest] replay_lines_apply_all [of es R s s' 0]
  by (auto simp: replayJournal_def split: prod.splits option.splits)

lemma replayJournal_clean:
  assumes "journal_bytes d = journal_of es" "list_all entry_ok es" "apply_all R es s = Some s'"
  shows "replayJournal True R d s = (s', None)"
proof (cases "d_journal d")
  case None
  then have "journal_of es = []"
    using assms(1) by (simp add: journal_bytes_def)
  then have "es = []"
    by (cases es) (simp_all add: journal_of_def journal_line_def)
  then show ?thesis
    using None assms(3) by (simp add: replayJournal_def)
next
  case (Some b)
  then have "d_journal d = Some (journal_of es @ [])"
    using assms(1) by (simp add: journal_bytes_def)
  from replayJournal_torn [OF this assms(2,3)] show ?thesis
    by simp
qed

lemma recover_alt:
  "recover io_fine L R d s = fst (replayJournal True R d (snapshot_base L d s))"
  by (simp add: recover_def io_fine_def snapshot_base_def cong: option.case_cong)

lemma durable_recover: "durable_by L R d s0 es s \<Longrightarrow> recover io_fine L R d s0 = s"
  by (auto simp: recover_alt durable_by_def replayJournal_clean)

lemma durable_append:
  assumes "durable_by L R d s0 es s" "entry_ok e" "R e s = (s', True)"
    and "Append None e st d = (st', d', None)"
  shows "durable_by L R d' s0 (es @ [e]) s'"
  using assms
  by (auto simp: durable_by_def Append_def write_journal_def journal_bytes_def snapshot_base_def
      apply_all_append journal_of_def split: if_splits option.splits)

lemma Append_ok:
  assumes "\<not> st_closed st" "\<not> st_buferr st" "st_journal st = OpenHandle"
  shows "Append None e st d = (st, write_journal (journal_line e) d, None)"
  using assms by (simp add: Append_def)

text \<open>
  Before the journal is replaced, the new snapshot lies beside the whole old journal: a
  crash there replays the journal on top of the state that it led to.
\<close>

lemma recover_before_rotate:
  assumes "durable_by L R d s0 es s" "L data s0 = (s, True)" "apply_all R es s = Some s'"
  shows "durable_by L R (snap_rename (snap_write data d)) s0 es s'"
  using assms
  by (simp add: durable_by_def snap_rename_def snap_write_def journal_bytes_def snapshot_base_def)

lemma Snapshot_ok:
  assumes "cfg_Snapshot (st_cfg st) = Some f" "f s = Some data"
    and "\<not> st_closed st" "st_journal st \<noteq> NilHandle"
  shows "Snapshot snap_fine s st d =
      (st\<lparr>st_journal := OpenHandle, st_buferr := False\<rparr>,
       \<lparr>d_snapshot = Some data, d_tmp = None, d_journal = Some []\<rparr>, None)"
  using assms by (simp add: Snapshot_def snap_fine_def rotate_def snap_rename_def snap_write_def)

lemma durable_snapshot:
  assumes "L data s0 = (s, True)"
  shows "durable_by L R \<lparr>d_snapshot = Some data, d_tmp = None, d_journal = Some []\<rparr> s0 [] s"
  using assms by (simp add: durable_by_def journal_bytes_def snapshot_base_def journal_of_def)

text \<open>A closed store never touches the journal or the snapshot file contents again.\<close>

lemma closed_Append: "st_closed st \<Longrightarrow> Append io e st d = (st, d, Some StoreClosed)"
  by (simp add: Append_def)

lemma Close_closed: "st_closed (fst (Close st))"
  by (simp add: Close_def split: handle.splits)

section \<open>The contract between the store and its application\<close>

text \<open>
  What an application does with its store when nothing fails: it changes its state by
  \<open>step\<close> and appends the encoded entry, or it takes a snapshot.
\<close>

datatype 'e store_op = AppendOp 'e | SnapshotOp

fun do_op :: "('e \<Rightarrow> bytes option) \<Rightarrow> ('e \<Rightarrow> 's \<Rightarrow> 's) \<Rightarrow> 'e store_op \<Rightarrow>
    's \<times> 's Store \<times> disk \<Rightarrow> 's \<times> 's Store \<times> disk" where
  "do_op enc step (AppendOp e) (s, st, d) =
     (case enc e of
        None \<Rightarrow> (step e s, st, d)
      | Some b \<Rightarrow> (case Append None b st d of (st', d', _) \<Rightarrow> (step e s, st', d')))"
| "do_op enc step SnapshotOp (s, st, d) =
     (case Snapshot snap_fine s st d of (st', d', _) \<Rightarrow> (s, st', d'))"

definition store_ready :: "('s \<Rightarrow> bytes option) \<Rightarrow> 's Store \<Rightarrow> bool" where
  "store_ready f st \<longleftrightarrow> cfg_Snapshot (st_cfg st) = Some f \<and>
     \<not> st_closed st \<and> \<not> st_buferr st \<and> st_journal st = OpenHandle"

locale recoverable =
  fixes snap :: "'s \<Rightarrow> bytes option"
    and load :: "bytes \<Rightarrow> 's \<Rightarrow> 's \<times> bool"
    and replay :: "bytes \<Rightarrow> 's \<Rightarrow> 's \<times> bool"
    and init :: 's
    and good :: "'s \<Rightarrow> bool"
    and enc :: "'e \<Rightarrow> bytes option"
    and step :: "'e \<Rightarrow> 's \<Rightarrow> 's"
    and eok :: "'e \<Rightarrow> bool"
  assumes load_snap: "good s \<Longrightarrow> \<exists>b. snap s = Some b \<and> load b init = (s, True)"
    and enc_replay: "eok e \<Longrightarrow> \<exists>b. enc e = Some b \<and> entry_ok b \<and> (\<forall>s. replay b s = (step e s, True))"
    and step_good: "good s \<Longrightarrow> eok e \<Longrightarrow> good (step e s)"
begin

lemma append_op:
  assumes "eok e" "store_ready snap st" "durable_by load replay d init es s"
    and "do_op enc step (AppendOp e) (s, st, d) = (s', st', d')"
  shows "s' = step e s \<and> st' = st \<and> (\<exists>es'. durable_by load replay d' init es' s')"
proof -
  obtain b where b: "enc e = Some b" "entry_ok b" "replay b s = (step e s, True)"
    using enc_replay [OF assms(1)] by blast
  have app: "Append None b st d = (st, write_journal (journal_line b) d, None)"
    using assms(2) by (intro Append_ok) (simp_all add: store_ready_def)
  then show ?thesis
    using assms(4) b durable_append [OF assms(3) b(2,3) app] by auto
qed

lemma snapshot_op:
  assumes "good s" "store_ready snap st"
    and "do_op enc step SnapshotOp (s, st, d) = (s', st', d')"
  shows "s' = s \<and> store_ready snap st' \<and> durable_by load replay d' init [] s'"
proof -
  obtain b where b: "snap s = Some b" "load b init = (s, True)"
    using load_snap [OF assms(1)] by blast
  have st: "cfg_Snapshot (st_cfg st) = Some snap" "\<not> st_closed st" "st_journal st \<noteq> NilHandle"
    using assms(2) by (simp_all add: store_ready_def)
  show ?thesis
    using assms(2,3) Snapshot_ok [of st snap s b d, OF st(1) b(1) st(2,3)]
      durable_snapshot [of load b init s replay, OF b(2)]
    by (auto simp: store_ready_def)
qed

definition op_ok :: "'e store_op \<Rightarrow> bool" where
  "op_ok x \<longleftrightarrow> (case x of AppendOp e \<Rightarrow> eok e | SnapshotOp \<Rightarrow> True)"

lemma ops_durable:
  assumes "list_all op_ok xs" "good s" "store_ready snap st" "durable_by load replay d init es s"
    and "fold (do_op enc step) xs (s, st, d) = (s', st', d')"
  shows "\<exists>es'. durable_by load replay d' init es' s'"
  using assms
proof (induction xs arbitrary: s st d es)
  case (Cons x xs)
  obtain s1 st1 d1 where x: "do_op enc step x (s, st, d) = (s1, st1, d1)"
    by (cases "do_op enc step x (s, st, d)") auto
  have "good s1 \<and> store_ready snap st1 \<and> (\<exists>es1. durable_by load replay d1 init es1 s1)"
  proof (cases x)
    case (AppendOp e)
    then show ?thesis
      using append_op [of e st d es s s1 st1 d1] x Cons.prems step_good by (auto simp: op_ok_def)
  next
    case SnapshotOp
    then show ?thesis
      using snapshot_op [of s st d s1 st1 d1] x Cons.prems by auto
  qed
  then show ?case
    using Cons.IH [of s1 st1 d1] Cons.prems x by auto
qed auto

text \<open>Whatever was appended and snapshotted, a restart finds the state.\<close>

lemma restart_recovers:
  assumes "list_all op_ok xs" "good init" "store_ready snap st"
    and "fold (do_op enc step) xs (init, st, \<lparr>d_snapshot = None, d_tmp = None, d_journal = Some []\<rparr>) = (s', st', d')"
  shows "recover io_fine load replay d' init = s'"
proof -
  have "durable_by load replay \<lparr>d_snapshot = None, d_tmp = None, d_journal = Some []\<rparr> init [] init"
    by (simp add: durable_by_def journal_bytes_def journal_of_def snapshot_base_def)
  then show ?thesis
    using ops_durable [OF assms(1-3) _ assms(4)] durable_recover by metis
qed

end

section \<open>Properties of the store\<close>

text \<open>Appending a list of entries, without write errors.\<close>

fun append_all :: "bytes list \<Rightarrow> 's Store \<Rightarrow> disk \<Rightarrow> 's Store \<times> disk" where
  "append_all [] st d = (st, d)"
| "append_all (e # es) st d = (case Append None e st d of (st', d', _) \<Rightarrow> append_all es st' d')"

lemma append_all_ok:
  assumes "\<not> st_closed st" "\<not> st_buferr st" "st_journal st = OpenHandle"
  shows "append_all es st d = (st, if es = [] then d else write_journal (journal_of es) d)"
proof (induction es arbitrary: d)
  case (Cons e es)
  have "write_journal (journal_of es) (write_journal (journal_line e) d) = write_journal (journal_of (e # es)) d"
    by (simp add: write_journal_def journal_of_def)
  then show ?case
    using Cons Append_ok [OF assms] by (auto simp: journal_of_def)
qed simp

lemma OpenStore_ok:
  assumes "cfg_Snapshot cfg = Some S" "cfg_LoadSnapshot cfg = Some L" "cfg_Replay cfg = Some R"
  shows "OpenStore io_fine cfg d s =
    (Inr \<lparr>st_cfg = with_defaults cfg, st_journal = OpenHandle, st_buferr = False, st_closed = False\<rparr>,
     d\<lparr>d_journal := Some (journal_bytes d)\<rparr>, recover io_fine L R d s)"
  using assms by (simp add: OpenStore_def io_fine_def journal_bytes_def Let_def)

text \<open>
  C15: What was appended is found again: a store that is opened on files holding the state
  \<open>s\<close>, takes any number of entries that the application accepts, and is opened again,
  delivers the state after those entries.
\<close>

theorem append_then_reopen:
  assumes "cfg_Snapshot cfg = Some S" "cfg_LoadSnapshot cfg = Some L" "cfg_Replay cfg = Some R"
    and "durable_by L R d s0 fs s" "list_all entry_ok es" "apply_all R es s = Some s'"
    and "OpenStore io_fine cfg d s0 = (Inr st, d1, s1)" "append_all es st d1 = (st2, d2)"
  shows "s1 = s \<and> snd (snd (OpenStore io_fine cfg d2 s0)) = s'"
proof -
  note opened = assms(7) [unfolded OpenStore_ok [OF assms(1-3)]]
  have st: "\<not> st_closed st" "\<not> st_buferr st" "st_journal st = OpenHandle"
    and d1: "d1 = d\<lparr>d_journal := Some (journal_bytes d)\<rparr>"
    using opened by auto
  have d2: "d2 = (if es = [] then d1 else write_journal (journal_of es) d1)"
    using assms(8) append_all_ok [OF st, of es d1] by simp
  have "durable_by L R d2 s0 (fs @ es) s'"
    using assms(4-6)
    by (auto simp: durable_by_def d2 d1 write_journal_def journal_bytes_def snapshot_base_def
        apply_all_append journal_of_def split: option.splits)
  then show ?thesis
    using opened durable_recover [OF assms(4)] durable_recover [of L R d2 s0 "fs @ es" s']
    by (simp add: OpenStore_ok [OF assms(1-3)])
qed

text \<open>A small application for concrete runs: the state is the list of entries.\<close>

definition log_config :: "bytes list StoreConfig" where
  "log_config = \<lparr>cfg_Snapshot = Some (\<lambda>s. Some (journal_of s)),
     cfg_LoadSnapshot = Some (\<lambda>b s. (split_lines b, True)),
     cfg_Replay = Some (\<lambda>e s. if hd e = CHR ''{'' \<and> last e = CHR ''}'' \<and> CHR ''{'' \<notin> set (tl e) then (s @ [e], True) else (s, False)),
     cfg_SnapshotInterval = 0, cfg_MaxJournalSize = 0\<rparr>"

definition no_files :: disk where
  "no_files = \<lparr>d_snapshot = None, d_tmp = None, d_journal = None\<rparr>"

definition log_store :: "bytes list Store" where
  "log_store = \<lparr>st_cfg = with_defaults log_config, st_journal = OpenHandle, st_buferr = False, st_closed = False\<rparr>"

theorem append_then_reopen_witness:
  "snd (snd (OpenStore io_fine log_config (snd (append_all [''{a}'', ''{b}''] log_store (no_files\<lparr>d_journal := Some []\<rparr>))) []))
     = [''{a}'', ''{b}'']"
proof -
  obtain S L R where cfg: "cfg_Snapshot log_config = Some S" "cfg_LoadSnapshot log_config = Some L" "cfg_Replay log_config = Some R"
    by (simp add: log_config_def)
  have dur: "durable_by L R no_files [] [] []"
    by (simp add: durable_by_def no_files_def journal_bytes_def journal_of_def snapshot_base_def)
  have ok: "list_all entry_ok [''{a}'', ''{b}'']"
    by (simp add: entry_ok_def maxToken_def)
  have app: "apply_all R [''{a}'', ''{b}''] [] = Some [''{a}'', ''{b}'']"
    using cfg(3) by (auto simp: log_config_def)
  have open1: "OpenStore io_fine log_config no_files [] = (Inr log_store, no_files\<lparr>d_journal := Some []\<rparr>, [])"
    using durable_recover [OF dur] by (simp add: OpenStore_ok [OF cfg] log_store_def journal_bytes_def no_files_def)
  show ?thesis
    using append_then_reopen [OF cfg dur ok app open1] by (metis prod.collapse)
qed

text \<open>
  A journal whose last line was cut short by a crash swallows the entries appended after
  the next start: the first of them is joined to the cut line, and when the application
  rejects the joined line, the start after that recovers none of them.
\<close>

theorem torn_line_loses_later_entries:
  assumes "d_journal d = Some (journal_of es @ torn)" "list_all entry_ok es"
    and "apply_all R es (snapshot_base L d s0) = Some s"
    and "torn \<noteq> []" "CHR 0x0A \<notin> set torn" "CHR 0x0A \<notin> set e" "length (torn @ e) < maxToken"
    and "drop_cr (torn @ e) \<noteq> []" "R (drop_cr (torn @ e)) s = (s, False)"
    and "\<not> st_closed st" "\<not> st_buferr st" "st_journal st = OpenHandle"
    and "append_all (e # fs) st d = (st', d')"
  shows "recover io_fine L R d' s0 = s"
proof -
  have d': "d' = write_journal (journal_of (e # fs)) d"
    using assms(13) append_all_ok [OF assms(10-12), of "e # fs" d] by simp
  then have j: "d_journal d' = Some (journal_of es @ (journal_line (torn @ e) @ journal_of fs))"
    using assms(1) by (simp add: write_journal_def journal_of_def journal_line_def)
  have base: "snapshot_base L d' s0 = snapshot_base L d s0"
    by (simp add: d' write_journal_def snapshot_base_def)
  have "split_lines (journal_line (torn @ e) @ journal_of fs) = (torn @ e) # split_lines (journal_of fs)"
    using assms(5,6) by (intro split_lines_line) simp
  then obtain ts ok where scan: "scan (split_lines (journal_line (torn @ e) @ journal_of fs)) = (drop_cr (torn @ e) # ts, ok)"
    using assms(7) by (cases "scan (split_lines (journal_of fs))") auto
  have "replay_lines R (length es) (drop_cr (torn @ e) # ts) s = (s, Some (ReplayFailed (length es)))"
    using assms(8,9) by simp
  then have "fst (replayJournal True R d' (snapshot_base L d' s0)) = s"
    using replayJournal_torn [OF j assms(2) assms(3) [folded base]] scan by simp
  then show ?thesis
    by (simp add: recover_alt)
qed

theorem torn_line_loses_later_entries_witness:
  "recover io_fine (the (cfg_LoadSnapshot log_config)) (the (cfg_Replay log_config))
     (snd (append_all [''{b}'', ''{c}''] log_store (no_files\<lparr>d_journal := Some (journal_of [''{a}''] @ ''{x'')\<rparr>))) [] = [''{a}'']"
proof -
  obtain st' d' where run: "append_all [''{b}'', ''{c}''] log_store (no_files\<lparr>d_journal := Some (journal_of [''{a}''] @ ''{x'')\<rparr>) = (st', d')"
    by fastforce
  have "recover io_fine (the (cfg_LoadSnapshot log_config)) (the (cfg_Replay log_config)) d' [] = [''{a}'']"
    by (rule torn_line_loses_later_entries [where es = "[''{a}'']" and torn = "''{x''" and e = "''{b}''" and fs = "[''{c}'']"
          and d = "no_files\<lparr>d_journal := Some (journal_of [''{a}''] @ ''{x'')\<rparr>" and st = log_store and st' = st'])
      (use run in \<open>simp_all add: no_files_def log_config_def log_store_def entry_ok_def maxToken_def snapshot_base_def drop_cr_def\<close>)
  then show ?thesis
    by (simp add: run del: append_all.simps)
qed



end
