(* ===== verification/SessionPersist.thy ===== *)
theory SessionPersist
  imports Store Codec
begin

text \<open>
  apps/sessionsvr/internal/router/persist.go: the session table, its snapshot and journal
  forms, and recovery. The two uses of encoding/json (the snapshot map and one journal
  entry) are the fields of the parameter record \<open>json\<close>; \<open>rng\<close> is the order in which a
  map is ranged over, which Go leaves open.
\<close>

section \<open>Sessions\<close>

record Session =
  s_PlayerID :: i64
  s_GatewayID :: string
  s_ConnTags :: gomap
  s_DisconnectedAt :: i64

type_synonym sessions = "(i64, Session) fmap"

definition new_Session :: "i64 \<Rightarrow> Session" where
  "new_Session pid = \<lparr>s_PlayerID = pid, s_GatewayID = '''', s_ConnTags = None, s_DisconnectedAt = 0\<rparr>"

text \<open>The value of \<open>sessions.LoadOrStore(pid, &Session{PlayerID: pid})\<close>.\<close>

definition load_or_new :: "sessions \<Rightarrow> i64 \<Rightarrow> Session" where
  "load_or_new ss pid = (case fmlookup ss pid of None \<Rightarrow> new_Session pid | Some s \<Rightarrow> s)"

section \<open>Serialized forms\<close>

record sessionPersist =
  sp_PlayerID :: i64
  sp_GatewayID :: string
  sp_ConnTags :: gomap
  sp_DisconnectedAt :: i64

record journalEntry =
  je_OP :: string
  je_PlayerID :: i64
  je_GatewayID :: string
  je_ConnTags :: gomap
  je_DisconnectedAt :: i64
  je_TS :: i64

record json =
  marshal_state :: "(i64, sessionPersist) fmap \<Rightarrow> bytes option"
  unmarshal_state :: "bytes \<Rightarrow> (i64, sessionPersist) fmap option"
  marshal_entry :: "journalEntry \<Rightarrow> bytes option"
  unmarshal_entry :: "bytes \<Rightarrow> journalEntry option"

type_synonym range_order = "i64 fset \<Rightarrow> i64 list"

section \<open>Snapshot and recovery callbacks\<close>

definition copyTags :: "gomap \<Rightarrow> gomap" where
  "copyTags src =
     (case src of
        None \<Rightarrow> None
      | Some f \<Rightarrow> Some (fold (\<lambda>k dst. fmupd k (the (fmlookup f k)) dst) (sorted_list_of_fset (fmdom f)) fmempty))"

definition to_persist :: "Session \<Rightarrow> sessionPersist" where
  "to_persist s = \<lparr>sp_PlayerID = s_PlayerID s, sp_GatewayID = s_GatewayID s,
     sp_ConnTags = copyTags (s_ConnTags s), sp_DisconnectedAt = s_DisconnectedAt s\<rparr>"

definition of_persist :: "sessionPersist \<Rightarrow> Session" where
  "of_persist sp = \<lparr>s_PlayerID = sp_PlayerID sp, s_GatewayID = sp_GatewayID sp,
     s_ConnTags = sp_ConnTags sp, s_DisconnectedAt = sp_DisconnectedAt sp\<rparr>"

definition snapshot_map :: "range_order \<Rightarrow> sessions \<Rightarrow> (i64, sessionPersist) fmap" where
  "snapshot_map rng ss =
     fold (\<lambda>k state. case fmlookup ss k of
             None \<Rightarrow> state
           | Some s \<Rightarrow> fmupd (s_PlayerID s) (to_persist s) state) (rng (fmdom ss)) fmempty"

definition snapshotSessions :: "json \<Rightarrow> range_order \<Rightarrow> sessions \<Rightarrow> bytes option" where
  "snapshotSessions j rng ss = marshal_state j (snapshot_map rng ss)"

definition load_map :: "range_order \<Rightarrow> (i64, sessionPersist) fmap \<Rightarrow> sessions \<Rightarrow> sessions" where
  "load_map rng state ss =
     fold (\<lambda>k ss. case fmlookup state k of
             None \<Rightarrow> ss
           | Some sp \<Rightarrow> fmupd (sp_PlayerID sp) (of_persist sp) ss) (rng (fmdom state)) ss"

definition loadSnapshot :: "json \<Rightarrow> range_order \<Rightarrow> bytes \<Rightarrow> sessions \<Rightarrow> sessions \<times> bool" where
  "loadSnapshot j rng data ss =
     (case unmarshal_state j data of
        None \<Rightarrow> (ss, False)
      | Some state \<Rightarrow> (load_map rng state ss, True))"

text \<open>The switch of replaySession on the operation of a decoded entry.\<close>

definition replay_save :: "journalEntry \<Rightarrow> sessions \<Rightarrow> sessions" where
  "replay_save e ss =
     (let s = load_or_new ss (je_PlayerID e) in
      fmupd (je_PlayerID e)
        (s\<lparr>s_GatewayID := je_GatewayID e,
           s_ConnTags := (if je_ConnTags e \<noteq> None then je_ConnTags e else s_ConnTags s),
           s_DisconnectedAt := 0\<rparr>) ss)"

definition replay_disconnect :: "journalEntry \<Rightarrow> sessions \<Rightarrow> sessions" where
  "replay_disconnect e ss =
     (case fmlookup ss (je_PlayerID e) of
        None \<Rightarrow> ss
      | Some s \<Rightarrow>
          if s_GatewayID s \<noteq> '''' \<and> s_GatewayID s \<noteq> je_GatewayID e then ss
          else fmupd (je_PlayerID e)
            (s\<lparr>s_GatewayID := (if s_GatewayID s = '''' then je_GatewayID e else s_GatewayID s),
               s_ConnTags := (if s_ConnTags s = None then je_ConnTags e else s_ConnTags s),
               s_DisconnectedAt := (if je_DisconnectedAt e \<noteq> 0 then je_DisconnectedAt e else s_DisconnectedAt s)\<rparr>) ss)"

definition replay_reconnect :: "journalEntry \<Rightarrow> sessions \<Rightarrow> sessions" where
  "replay_reconnect e ss =
     (case fmlookup ss (je_PlayerID e) of
        None \<Rightarrow> ss
      | Some s \<Rightarrow> fmupd (je_PlayerID e)
            (s\<lparr>s_DisconnectedAt := 0, s_GatewayID := je_GatewayID e,
               s_ConnTags := (if je_ConnTags e \<noteq> None then je_ConnTags e else s_ConnTags s)\<rparr>) ss)"

definition replay_entry :: "journalEntry \<Rightarrow> sessions \<Rightarrow> sessions" where
  "replay_entry e ss =
     (if je_OP e = ''save'' then replay_save e ss
      else if je_OP e = ''disconnect'' then replay_disconnect e ss
      else if je_OP e = ''reconnect'' then replay_reconnect e ss
      else ss)"

definition replaySession :: "json \<Rightarrow> bytes \<Rightarrow> sessions \<Rightarrow> sessions \<times> bool" where
  "replaySession j entry ss =
     (case unmarshal_entry j entry of
        None \<Rightarrow> (ss, False)
      | Some e \<Rightarrow> (replay_entry e ss, True))"

section \<open>The persistent state of the service\<close>

record sess_state =
  ss_sessions :: sessions
  ss_store :: "sessions Store option"
  ss_disk :: disk

definition session_config :: "json \<Rightarrow> range_order \<Rightarrow> sessions StoreConfig" where
  "session_config j rng = \<lparr>cfg_Snapshot = Some (snapshotSessions j rng),
     cfg_LoadSnapshot = Some (loadSnapshot j rng), cfg_Replay = Some (replaySession j),
     cfg_SnapshotInterval = 0, cfg_MaxJournalSize = 0\<rparr>"

definition InitStore :: "open_io \<Rightarrow> json \<Rightarrow> range_order \<Rightarrow> sess_state \<Rightarrow> sess_state \<times> store_error option" where
  "InitStore io j rng st =
     (case OpenStore io (session_config j rng) (ss_disk st) (ss_sessions st) of
        (Inl e, d, ss) \<Rightarrow> (\<lparr>ss_sessions = ss, ss_store = None, ss_disk = d\<rparr>, Some e)
      | (Inr s, d, ss) \<Rightarrow> (\<lparr>ss_sessions = ss, ss_store = Some s, ss_disk = d\<rparr>, None))"

text \<open>One tick of the goroutine that StartAutoSnapshot starts on a non-nil store.\<close>

definition StartAutoSnapshot_tick :: "snap_io \<Rightarrow> sess_state \<Rightarrow> sess_state" where
  "StartAutoSnapshot_tick io st =
     (case ss_store st of
        None \<Rightarrow> st
      | Some s \<Rightarrow> (case auto_tick io (ss_sessions st) s (ss_disk st) of
          (s', d', _) \<Rightarrow> st\<lparr>ss_store := Some s', ss_disk := d'\<rparr>))"

definition CloseStore :: "sess_state \<Rightarrow> sess_state" where
  "CloseStore st =
     (case ss_store st of None \<Rightarrow> st | Some s \<Rightarrow> st\<lparr>ss_store := Some (fst (Close s))\<rparr>)"

text \<open>The arguments are the outcome of the write and the wall clock in milliseconds.\<close>

definition journalAppend :: "json \<Rightarrow> nat option \<Rightarrow> i64 \<Rightarrow> journalEntry \<Rightarrow> sess_state \<Rightarrow> sess_state" where
  "journalAppend j io ts e st =
     (case ss_store st of
        None \<Rightarrow> st
      | Some s \<Rightarrow>
         (case marshal_entry j (e\<lparr>je_TS := ts\<rparr>) of
            None \<Rightarrow> st
          | Some data \<Rightarrow> (case Append io data s (ss_disk st) of
              (s', d', _) \<Rightarrow> st\<lparr>ss_store := Some s', ss_disk := d'\<rparr>)))"

lemma journalAppend_sessions [simp]: "ss_sessions (journalAppend j io ts e st) = ss_sessions st"
  by (simp add: journalAppend_def split: option.splits prod.splits)

lemma StartAutoSnapshot_tick_sessions [simp]: "ss_sessions (StartAutoSnapshot_tick io st) = ss_sessions st"
  by (simp add: StartAutoSnapshot_tick_def split: option.split prod.split)

section \<open>Copies of maps\<close>

lemma fold_put_lookup:
  "fmlookup (fold (\<lambda>k dst. fmupd k (g k) dst) ks m) k' = (if k' \<in> set ks then Some (g k') else fmlookup m k')"
  by (induction ks arbitrary: m) auto

lemma copyTags_id [simp]: "copyTags m = m"
proof (cases m)
  case (Some f)
  have "fold (\<lambda>k dst. fmupd k (the (fmlookup f k)) dst) (sorted_list_of_fset (fmdom f)) fmempty = f"
    by (rule fmap_ext)
      (auto simp: fold_put_lookup sorted_list_of_fset.rep_eq fmlookup_dom_iff dest: fmdom_notD)
  with Some show ?thesis
    by (simp add: copyTags_def)
qed (simp add: copyTags_def)

lemma of_persist_to_persist [simp]: "of_persist (to_persist s) = s"
  by (simp add: of_persist_def to_persist_def)

lemma to_persist_of_persist [simp]: "to_persist (of_persist p) = p"
  by (simp add: of_persist_def to_persist_def)

section \<open>The table invariant\<close>

text \<open>
  Each session is stored under its own player, and tags are nil or non-empty, as the
  decoder of the session messages delivers them.
\<close>

definition session_norm :: "Session \<Rightarrow> bool" where
  "session_norm s \<longleftrightarrow> s_ConnTags s \<noteq> Some fmempty"

definition sessions_wf :: "sessions \<Rightarrow> bool" where
  "sessions_wf ss \<longleftrightarrow> fmpred (\<lambda>k s. s_PlayerID s = k \<and> session_norm s) ss"

lemma sessions_wf_empty [simp]: "sessions_wf fmempty"
  by (simp add: sessions_wf_def)

lemma sessions_wf_lookup: "sessions_wf ss \<Longrightarrow> fmlookup ss k = Some s \<Longrightarrow> s_PlayerID s = k \<and> session_norm s"
  by (auto simp: sessions_wf_def dest: fmpredD)

lemma sessions_wf_upd [simp]:
  "sessions_wf ss \<Longrightarrow> s_PlayerID s = k \<Longrightarrow> session_norm s \<Longrightarrow> sessions_wf (fmupd k s ss)"
  by (simp add: sessions_wf_def fmpred_upd)

lemma sessions_wf_drop [simp]: "sessions_wf ss \<Longrightarrow> sessions_wf (fmdrop k ss)"
  by (auto simp: sessions_wf_def fmpred_iff)

lemma load_or_new_PlayerID [simp]: "sessions_wf ss \<Longrightarrow> s_PlayerID (load_or_new ss pid) = pid"
  by (auto simp: load_or_new_def new_Session_def dest: sessions_wf_lookup split: option.splits)

lemma load_or_new_norm [simp]: "sessions_wf ss \<Longrightarrow> s_ConnTags (load_or_new ss pid) \<noteq> Some fmempty"
  by (auto simp: load_or_new_def new_Session_def session_norm_def dest: sessions_wf_lookup split: option.splits)

lemma sessions_wf_norm [simp]: "sessions_wf ss \<Longrightarrow> fmlookup ss k = Some s \<Longrightarrow> s_ConnTags s \<noteq> Some fmempty"
  by (auto simp: session_norm_def dest: sessions_wf_lookup)

text \<open>Replacing a stored session by one of the same player with proper tags.\<close>

lemma sessions_wf_put:
  assumes "sessions_wf ss" "fmlookup ss k = Some s" "s_PlayerID s' = s_PlayerID s"
    and "s_ConnTags s' \<noteq> Some fmempty"
  shows "sessions_wf (fmupd k s' ss)"
  using assms sessions_wf_lookup [OF assms(1,2)] by (simp add: session_norm_def)

lemma replay_save_wf:
  "sessions_wf ss \<Longrightarrow> je_ConnTags e \<noteq> Some fmempty \<Longrightarrow> sessions_wf (replay_save e ss)"
  by (simp add: replay_save_def Let_def session_norm_def)

lemma replay_disconnect_wf:
  "sessions_wf ss \<Longrightarrow> je_ConnTags e \<noteq> Some fmempty \<Longrightarrow> sessions_wf (replay_disconnect e ss)"
  by (auto simp: replay_disconnect_def split: option.split intro!: sessions_wf_put)

lemma replay_reconnect_wf:
  "sessions_wf ss \<Longrightarrow> je_ConnTags e \<noteq> Some fmempty \<Longrightarrow> sessions_wf (replay_reconnect e ss)"
  by (auto simp: replay_reconnect_def split: option.split intro!: sessions_wf_put)

lemma replay_entry_wf:
  "sessions_wf ss \<Longrightarrow> je_ConnTags e \<noteq> Some fmempty \<Longrightarrow> sessions_wf (replay_entry e ss)"
  by (simp add: replay_entry_def replay_save_wf replay_disconnect_wf replay_reconnect_wf)

section \<open>Snapshot and reload\<close>

definition entry_norm :: "journalEntry \<Rightarrow> journalEntry" where
  "entry_norm e = e\<lparr>je_ConnTags := mnorm (je_ConnTags e)\<rparr>"

definition persist_norm :: "sessionPersist \<Rightarrow> sessionPersist" where
  "persist_norm p = p\<lparr>sp_ConnTags := mnorm (sp_ConnTags p)\<rparr>"

definition entry_valid :: "wire \<Rightarrow> journalEntry \<Rightarrow> bool" where
  "entry_valid w e \<longleftrightarrow> str_ok w (je_OP e) \<and> str_ok w (je_GatewayID e) \<and> tags_ok w (je_ConnTags e) \<and>
     i64_ok (je_PlayerID e) \<and> i64_ok (je_DisconnectedAt e) \<and> i64_ok (je_TS e)"

definition persist_valid :: "wire \<Rightarrow> sessionPersist \<Rightarrow> bool" where
  "persist_valid w p \<longleftrightarrow> str_ok w (sp_GatewayID p) \<and> tags_ok w (sp_ConnTags p) \<and>
     i64_ok (sp_PlayerID p) \<and> i64_ok (sp_DisconnectedAt p)"

definition session_valid :: "wire \<Rightarrow> Session \<Rightarrow> bool" where
  "session_valid w s \<longleftrightarrow> str_ok w (s_GatewayID s) \<and> tags_ok w (s_ConnTags s) \<and>
     i64_ok (s_PlayerID s) \<and> i64_ok (s_DisconnectedAt s)"

definition sessions_valid :: "wire \<Rightarrow> sessions \<Rightarrow> bool" where
  "sessions_valid w ss \<longleftrightarrow> sessions_wf ss \<and> fmpred (\<lambda>_. session_valid w) ss"

lemma persist_valid_to_persist [simp]: "persist_valid w (to_persist s) = session_valid w s"
  by (simp add: persist_valid_def session_valid_def to_persist_def)

lemma persist_norm_to_persist [simp]: "session_norm s \<Longrightarrow> persist_norm (to_persist s) = to_persist s"
  by (auto simp: persist_norm_def to_persist_def session_norm_def mnorm_def mempty_def split: option.splits)

lemma fold_lookup:
  assumes "\<And>k v. fmlookup m k = Some v \<Longrightarrow> key v = k"
  shows "fmlookup (fold (\<lambda>k acc. case fmlookup m k of None \<Rightarrow> acc | Some v \<Rightarrow> fmupd (key v) (g v) acc) ks acc) x =
    (if x \<in> set ks \<and> fmlookup m x \<noteq> None then map_option g (fmlookup m x) else fmlookup acc x)"
  using assms by (induction ks arbitrary: acc) (auto split: option.splits)

lemma snapshot_map_wf:
  assumes "sessions_wf ss" "\<And>S. set (rng S) = fset S"
  shows "snapshot_map rng ss = fmmap to_persist ss"
proof (rule fmap_ext)
  fix x
  have "fmlookup ss k = Some s \<Longrightarrow> s_PlayerID s = k" for k s
    using assms(1) sessions_wf_lookup by blast
  from fold_lookup [where key = s_PlayerID and g = to_persist, OF this]
  show "fmlookup (snapshot_map rng ss) x = fmlookup (fmmap to_persist ss) x"
    using assms(2) by (auto simp: snapshot_map_def fmlookup_dom_iff)
qed

lemma load_map_wf:
  assumes "sessions_wf ss" "\<And>S. set (rng S) = fset S"
  shows "load_map rng (fmmap to_persist ss) fmempty = ss"
proof (rule fmap_ext)
  fix x
  have "fmlookup (fmmap to_persist ss) k = Some p \<Longrightarrow> sp_PlayerID p = k" for k p
    using assms(1) sessions_wf_lookup by (auto simp: to_persist_def)
  then have "fmlookup (load_map rng (fmmap to_persist ss) fmempty) x =
      (if x \<in> set (rng (fmdom (fmmap to_persist ss))) \<and> fmlookup (fmmap to_persist ss) x \<noteq> None
       then map_option of_persist (fmlookup (fmmap to_persist ss) x) else fmlookup fmempty x)"
    unfolding load_map_def by (rule fold_lookup)
  then show "fmlookup (load_map rng (fmmap to_persist ss) fmempty) x = fmlookup ss x"
    using assms(2) by (auto simp: option.map_comp o_def option.map_ident dest: fmdomI)
qed

text \<open>
  The documented behaviour of encoding/json on the two types: a map field tagged omitempty
  comes back as nil when it has no entries, everything else comes back as it was, provided
  that the strings are valid UTF-8. Compact output is one line.
\<close>

locale session_json = wire_codec +
  fixes j :: json and rng :: range_order
  assumes range_all: "set (rng S) = fset S"
    and state_roundtrip: "fmpred (\<lambda>k p. i64_ok k \<and> persist_valid w p) m \<Longrightarrow>
      \<exists>b. marshal_state j m = Some b \<and> unmarshal_state j b = Some (fmmap persist_norm m)"
    and entry_roundtrip: "entry_valid w e \<Longrightarrow>
      \<exists>b. marshal_entry j e = Some b \<and> unmarshal_entry j b = Some (entry_norm e)
        \<and> b \<noteq> [] \<and> CHR 0x0A \<notin> set b \<and> last b \<noteq> CHR 0x0D"
begin

lemma load_snapshotSessions:
  assumes "sessions_valid w ss"
  shows "\<exists>b. snapshotSessions j rng ss = Some b \<and> loadSnapshot j rng b fmempty = (ss, True)"
proof -
  have wf: "sessions_wf ss"
    using assms by (simp add: sessions_valid_def)
  have "fmpred (\<lambda>k p. i64_ok k \<and> persist_valid w p) (fmmap to_persist ss)"
    using assms sessions_wf_lookup [OF wf] by (auto simp: sessions_valid_def fmpred_iff session_valid_def)
  moreover have "fmmap persist_norm (fmmap to_persist ss) = fmmap to_persist ss"
    using sessions_wf_lookup [OF wf]
    by (intro fmap_ext) (auto simp: option.map_comp o_def intro!: map_option_cong)
  ultimately obtain b where "marshal_state j (fmmap to_persist ss) = Some b"
    "unmarshal_state j b = Some (fmmap to_persist ss)"
    using state_roundtrip by metis
  then show ?thesis
    by (simp add: snapshotSessions_def loadSnapshot_def snapshot_map_wf [OF wf range_all]
        load_map_wf [OF wf range_all])
qed

end

text \<open>An entry that also fits on a line, and whose journaled tags are nil or non-empty.\<close>

definition entry_fits :: "wire \<Rightarrow> json \<Rightarrow> journalEntry \<Rightarrow> bool" where
  "entry_fits w j e \<longleftrightarrow> entry_valid w e \<and> je_ConnTags e \<noteq> Some fmempty \<and>
     (case marshal_entry j e of None \<Rightarrow> True | Some b \<Rightarrow> length b < maxToken)"

lemma entry_norm_id [simp]: "je_ConnTags e \<noteq> Some fmempty \<Longrightarrow> entry_norm e = e"
  by (auto simp: entry_norm_def mnorm_def mempty_def split: option.splits)

lemma session_valid_lookup:
  "sessions_valid w ss \<Longrightarrow> fmlookup ss k = Some s \<Longrightarrow> session_valid w s"
  by (auto simp: sessions_valid_def dest: fmpredD)

lemma sessions_valid_upd:
  "sessions_valid w ss \<Longrightarrow> sessions_wf (fmupd k s ss) \<Longrightarrow> session_valid w s \<Longrightarrow> sessions_valid w (fmupd k s ss)"
  by (simp add: sessions_valid_def fmpred_upd)

lemma sessions_valid_put:
  assumes "sessions_valid w ss" "fmlookup ss k = Some s" "s_PlayerID s' = s_PlayerID s"
    and "s_ConnTags s' \<noteq> Some fmempty" "session_valid w s'"
  shows "sessions_valid w (fmupd k s' ss)"
  using assms by (auto simp: sessions_valid_def fmpred_upd intro: sessions_wf_put)

lemma load_or_new_valid:
  "sessions_valid w ss \<Longrightarrow> str_ok w [] \<Longrightarrow> i64_ok pid \<Longrightarrow> session_valid w (load_or_new ss pid)"
  by (auto simp: load_or_new_def new_Session_def session_valid_def i64_ok_def i64_min_def i64_max_def
      dest: session_valid_lookup split: option.split)

lemma replay_entry_valid:
  assumes "sessions_valid w ss" "entry_valid w e" "je_ConnTags e \<noteq> Some fmempty" "str_ok w []"
  shows "sessions_valid w (replay_entry e ss)"
proof -
  have wf: "sessions_wf ss"
    using assms(1) by (simp add: sessions_valid_def)
  have ok0: "i64_ok 0"
    by (simp add: i64_ok_def i64_min_def i64_max_def)
  have "sessions_valid w (replay_save e ss)"
    using assms replay_save_wf [OF wf assms(3)] load_or_new_valid [OF assms(1,4), of "je_PlayerID e"] ok0
    by (auto simp: replay_save_def Let_def entry_valid_def session_valid_def intro!: sessions_valid_upd)
  moreover have "sessions_valid w (replay_disconnect e ss)"
    using assms wf session_valid_lookup [OF assms(1), of "je_PlayerID e"]
    by (auto simp: replay_disconnect_def entry_valid_def session_valid_def split: option.split
        intro!: sessions_valid_put)
  moreover have "sessions_valid w (replay_reconnect e ss)"
    using assms wf session_valid_lookup [OF assms(1), of "je_PlayerID e"] ok0
    by (auto simp: replay_reconnect_def entry_valid_def session_valid_def split: option.split
        intro!: sessions_valid_put)
  ultimately show ?thesis
    using assms(1) by (simp add: replay_entry_def)
qed

text \<open>The session table and its journal entries keep the contract of the store.\<close>

sublocale session_json \<subseteq> recoverable "snapshotSessions j rng" "loadSnapshot j rng" "replaySession j"
  fmempty "sessions_valid w" "marshal_entry j" replay_entry "entry_fits w j"
proof unfold_locales
  show "sessions_valid w s \<Longrightarrow> \<exists>b. snapshotSessions j rng s = Some b \<and> loadSnapshot j rng b fmempty = (s, True)" for s
    by (rule load_snapshotSessions)
  show "sessions_valid w s \<Longrightarrow> entry_fits w j e \<Longrightarrow> sessions_valid w (replay_entry e s)" for s e
    by (simp add: replay_entry_valid entry_fits_def str_ok_nil)
  show "\<exists>b. marshal_entry j e = Some b \<and> entry_ok b \<and> (\<forall>s. replaySession j b s = (replay_entry e s, True))"
    if "entry_fits w j e" for e
  proof -
    have "entry_valid w e"
      using that by (simp add: entry_fits_def)
    from entry_roundtrip [OF this]
    obtain b where "marshal_entry j e = Some b" "unmarshal_entry j b = Some (entry_norm e)"
      "b \<noteq> []" "CHR 0x0A \<notin> set b" "last b \<noteq> CHR 0x0D"
      by blast
    then show ?thesis
      using that by (simp add: entry_fits_def entry_ok_def replaySession_def)
  qed
qed

end
