(* ===== verification/SessionJson.thy ===== *)
theory SessionJson
  imports SessionPersist Wire "HOL-Library.Monad_Syntax"
begin

text \<open>
  A concrete JSON encoding of the two persisted types of the session service: compact
  objects with the field names and the omitempty rules of the struct tags, and a reader
  for that form. It shows that the laws of the locale \<open>session_json\<close> can hold, and
  carries the concrete runs of the session service.
\<close>

section \<open>Strings\<close>

definition hex_digit :: "nat \<Rightarrow> char" where
  "hex_digit n = (if n < 10 then char_of (48 + n) else char_of (87 + n))"

definition hex_val :: "char \<Rightarrow> nat" where
  "hex_val c = (let n = of_char c in if n < 58 then n - 48 else n - 87)"

definition html_unsafe :: "char \<Rightarrow> bool" where
  "html_unsafe c \<longleftrightarrow> (of_char c :: nat) < 32 \<or> c = CHR ''<'' \<or> c = CHR ''>'' \<or> c = CHR ''&''"

definition short_escape :: "char \<Rightarrow> char option" where
  "short_escape c =
     (if c = CHR 0x22 then Some (CHR 0x22) else if c = CHR 0x5C then Some (CHR 0x5C)
      else if c = CHR 0x0A then Some (CHR ''n'') else if c = CHR 0x0D then Some (CHR ''r'')
      else if c = CHR 0x09 then Some (CHR ''t'') else if c = CHR 0x08 then Some (CHR ''b'')
      else if c = CHR 0x0C then Some (CHR ''f'') else None)"

definition short_unescape :: "char \<Rightarrow> char option" where
  "short_unescape c =
     (if c = CHR 0x22 then Some (CHR 0x22) else if c = CHR 0x5C then Some (CHR 0x5C)
      else if c = CHR ''n'' then Some (CHR 0x0A) else if c = CHR ''r'' then Some (CHR 0x0D)
      else if c = CHR ''t'' then Some (CHR 0x09) else if c = CHR ''b'' then Some (CHR 0x08)
      else if c = CHR ''f'' then Some (CHR 0x0C) else None)"

definition jesc :: "char \<Rightarrow> bytes" where
  "jesc c =
     (case short_escape c of
        Some e \<Rightarrow> [CHR 0x5C, e]
      | None \<Rightarrow>
          if html_unsafe c
          then [CHR 0x5C, CHR ''u'', CHR ''0'', CHR ''0'', hex_digit (of_char c div 16), hex_digit (of_char c mod 16)]
          else [c])"

definition jstr :: "string \<Rightarrow> bytes" where
  "jstr s = CHR 0x22 # concat (map jesc s) @ [CHR 0x22]"

fun unq :: "bytes \<Rightarrow> (string \<times> bytes) option" where
  "unq [] = None"
| "unq (c # cs) =
     (if c = CHR 0x22 then Some ([], cs)
      else if c \<noteq> CHR 0x5C then map_option (\<lambda>(s, r). (c # s, r)) (unq cs)
      else case cs of
        [] \<Rightarrow> None
      | e # r \<Rightarrow>
        (if e \<noteq> CHR ''u''
         then (case short_unescape e of
             None \<Rightarrow> None
           | Some x \<Rightarrow> map_option (\<lambda>(s, r). (x # s, r)) (unq r))
         else case r of
            a # b # x # y # r' \<Rightarrow>
              (if a = CHR ''0'' \<and> b = CHR ''0''
               then map_option (\<lambda>(s, r). (char_of (16 * hex_val x + hex_val y) # s, r)) (unq r')
               else None)
          | _ \<Rightarrow> None))"

definition rstr :: "bytes \<Rightarrow> (string \<times> bytes) option" where
  "rstr b = (case b of [] \<Rightarrow> None | c # r \<Rightarrow> if c = CHR 0x22 then unq r else None)"

lemma hex_val_digit: "n < 16 \<Longrightarrow> hex_val (hex_digit n) = n"
  by (auto simp: hex_val_def hex_digit_def Let_def)

lemma of_char_less: "(of_char c :: nat) < 256"
  using range_nat_of_char by auto

lemma unq_jesc: "unq (jesc c @ r) = map_option (\<lambda>(s, r). (c # s, r)) (unq r)"
proof (cases "short_escape c")
  case (Some e)
  then have "e \<noteq> CHR ''u''" "short_unescape e = Some c"
    by (auto simp: short_escape_def short_unescape_def split: if_splits)
  with Some show ?thesis
    by (simp add: jesc_def)
next
  case None
  have c: "char_of (16 * hex_val (hex_digit (of_char c div 16)) + hex_val (hex_digit (of_char c mod 16))) = c"
    using of_char_less [of c] by (simp add: hex_val_digit less_mult_imp_div_less)
  show ?thesis
  proof (cases "html_unsafe c")
    case True
    with None c show ?thesis by (simp add: jesc_def)
  next
    case False
    from None have "c \<noteq> CHR 0x22" "c \<noteq> CHR 0x5C"
      by (auto simp: short_escape_def)
    with None False show ?thesis by (simp add: jesc_def)
  qed
qed

lemma unq_escaped: "unq (concat (map jesc s) @ CHR 0x22 # r) = Some (s, r)"
  by (induction s) (simp_all add: unq_jesc)

lemma rstr_jstr [simp]: "rstr (jstr s @ r) = Some (s, r)"
  by (simp add: rstr_def jstr_def unq_escaped)

lemma jesc_no_newline: "CHR 0x0A \<notin> set (jesc c)"
proof -
  have "hex_digit n \<noteq> CHR 0x0A" if "n < 16" for n
  proof
    assume "hex_digit n = CHR 0x0A"
    then have "(of_char (hex_digit n) :: nat) = 10" by simp
    with that show False by (simp add: hex_digit_def split: if_splits)
  qed
  then have "hex_digit (of_char c div 16) \<noteq> CHR 0x0A" "hex_digit (of_char c mod 16) \<noteq> CHR 0x0A"
    using of_char_less [of c] by (simp_all add: less_mult_imp_div_less)
  then show ?thesis
    by (auto simp: jesc_def short_escape_def split: if_splits)
qed

section \<open>Literals, numbers and pair lists\<close>

definition lit :: "bytes \<Rightarrow> bytes \<Rightarrow> bytes option" where
  "lit s b = (if take (length s) b = s then Some (drop (length s) b) else None)"

definition fkey :: "char \<Rightarrow> string \<Rightarrow> bytes" where
  "fkey sep k = sep # CHR 0x22 # k @ [CHR 0x22, CHR '':'']"

definition num_char :: "char \<Rightarrow> bool" where
  "num_char c \<longleftrightarrow> is_digit c \<or> c = CHR ''-''"

definition rint :: "bytes \<Rightarrow> (i64 \<times> bytes) option" where
  "rint b = (case ParseInt (takeWhile num_char b) of
     (n, None) \<Rightarrow> Some (n, dropWhile num_char b) | _ \<Rightarrow> None)"

text \<open>A field that may be absent.\<close>

definition opt :: "bytes \<Rightarrow> (bytes \<Rightarrow> ('a \<times> bytes) option) \<Rightarrow> 'a \<Rightarrow> bytes \<Rightarrow> ('a \<times> bytes) option" where
  "opt key rd dflt b = (case lit key b of None \<Rightarrow> Some (dflt, b) | Some r \<Rightarrow> rd r)"

fun pairs :: "('v \<Rightarrow> bytes) \<Rightarrow> (string \<times> 'v) list \<Rightarrow> bytes" where
  "pairs pv [] = []"
| "pairs pv ((k, v) # ps) = jstr k @ CHR '':'' # pv v @ (if ps = [] then [] else CHR '','' # pairs pv ps)"

fun rpairs :: "(bytes \<Rightarrow> ('v \<times> bytes) option) \<Rightarrow> nat \<Rightarrow> bytes \<Rightarrow> ((string \<times> 'v) list \<times> bytes) option" where
  "rpairs rv 0 b = None"
| "rpairs rv (Suc n) b = do {
     (k, b1) \<leftarrow> rstr b;
     b2 \<leftarrow> lit [CHR '':''] b1;
     (v, b3) \<leftarrow> rv b2;
     (case b3 of
        [] \<Rightarrow> None
      | c # b4 \<Rightarrow>
          if c = CHR '','' then map_option (\<lambda>(ps, r). ((k, v) # ps, r)) (rpairs rv n b4)
          else if c = CHR ''}'' then Some ([(k, v)], b4) else None)
   }"

definition robject :: "(bytes \<Rightarrow> ('v \<times> bytes) option) \<Rightarrow> bytes \<Rightarrow> ((string \<times> 'v) list \<times> bytes) option" where
  "robject rv b = do {
     b1 \<leftarrow> lit ''{'' b;
     (case b1 of [] \<Rightarrow> None | c # r \<Rightarrow> if c = CHR ''}'' then Some ([], r) else rpairs rv (length b1) b1)
   }"

definition object :: "('v \<Rightarrow> bytes) \<Rightarrow> (string \<times> 'v) list \<Rightarrow> bytes" where
  "object pv ps = CHR ''{'' # pairs pv ps @ ''}''"

lemma lit_append [simp]: "lit s (s @ r) = Some r"
  by (simp add: lit_def)

lemma lit_Cons [simp]: "lit [c] (c # r) = Some r"
  by (simp add: lit_def)

lemma num_char_FormatInt: "c \<in> set (FormatInt n) \<Longrightarrow> num_char c"
  by (auto simp: FormatInt_def num_char_def split: if_splits dest: format_nat_digits)

lemma rint_FormatInt [simp]:
  "i64_ok n \<Longrightarrow> \<not> num_char c \<Longrightarrow> rint (FormatInt n @ c # r) = Some (n, c # r)"
proof -
  assume "i64_ok n" "\<not> num_char c"
  moreover have "takeWhile num_char (FormatInt n @ c # r) = FormatInt n"
    "dropWhile num_char (FormatInt n @ c # r) = c # r"
    using \<open>\<not> num_char c\<close> num_char_FormatInt [of _ n]
    by (simp_all add: takeWhile_append2 dropWhile_append2)
  ultimately show ?thesis
    by (simp add: rint_def ParseInt_FormatInt)
qed

lemma rpairs_pairs:
  assumes "\<And>k v r. (k, v) \<in> set ps \<Longrightarrow> rv (pv v @ r) = Some (g v, r)"
  shows "ps \<noteq> [] \<Longrightarrow> length ps \<le> n \<Longrightarrow>
    rpairs rv n (pairs pv ps @ CHR ''}'' # r) = Some (map (\<lambda>(k, v). (k, g v)) ps, r)"
  using assms
proof (induction ps arbitrary: n)
  case (Cons p ps)
  obtain k v where p: "p = (k, v)" by (cases p)
  obtain m where n: "n = Suc m" using Cons.prems(2) by (cases n) auto
  have v: "rv (pv v @ r) = Some (g v, r)" for r
    using Cons.prems(3) p by auto
  show ?case
  proof (cases "ps = []")
    case True
    then show ?thesis by (simp add: p n v)
  next
    case False
    have "rpairs rv m (pairs pv ps @ CHR ''}'' # r) = Some (map (\<lambda>(k, v). (k, g v)) ps, r)"
      using Cons.IH [of m] Cons.prems False n by auto
    with False show ?thesis by (simp add: p n v)
  qed
qed simp

lemma length_pairs: "length ps \<le> length (pairs pv ps)"
  by (induction pv ps rule: pairs.induct) (auto simp: jstr_def)

lemma pairs_head: "ps \<noteq> [] \<Longrightarrow> \<exists>r. pairs pv ps = CHR 0x22 # r"
  by (cases ps) (auto simp: jstr_def)

lemma robject_object:
  assumes "\<And>k v r. (k, v) \<in> set ps \<Longrightarrow> rv (pv v @ r) = Some (g v, r)"
  shows "robject rv (object pv ps @ r) = Some (map (\<lambda>(k, v). (k, g v)) ps, r)"
proof (cases "ps = []")
  case False
  have "rpairs rv (Suc (length (pairs pv ps) + length r)) (pairs pv ps @ CHR ''}'' # r)
      = Some (map (\<lambda>(k, v). (k, g v)) ps, r)"
    using assms False length_pairs [of ps pv] by (intro rpairs_pairs) auto
  then show ?thesis
    using pairs_head [OF False, of pv] by (auto simp: robject_def object_def simp del: rpairs.simps)
qed (simp add: robject_def object_def)

section \<open>The two types\<close>

definition jtags :: "gomap \<Rightarrow> bytes" where
  "jtags m = (case m of None \<Rightarrow> [] | Some f \<Rightarrow>
     if f = fmempty then [] else fkey CHR '','' ''conn_tags'' @ object jstr (sorted_list_of_fmap f))"

definition rtags :: "bytes \<Rightarrow> (gomap \<times> bytes) option" where
  "rtags b = map_option (\<lambda>(ps, r). (Some (fmap_of_list ps), r)) (robject rstr b)"

definition jentry :: "journalEntry \<Rightarrow> bytes" where
  "jentry e = fkey CHR ''{'' ''op'' @ jstr (je_OP e)
     @ fkey CHR '','' ''player_id'' @ FormatInt (je_PlayerID e)
     @ (if je_GatewayID e = [] then [] else fkey CHR '','' ''gateway_id'' @ jstr (je_GatewayID e))
     @ jtags (je_ConnTags e)
     @ (if je_DisconnectedAt e = 0 then [] else fkey CHR '','' ''disconnected_at'' @ FormatInt (je_DisconnectedAt e))
     @ fkey CHR '','' ''ts'' @ FormatInt (je_TS e) @ ''}''"

definition rentry :: "bytes \<Rightarrow> journalEntry option" where
  "rentry b = do {
     b \<leftarrow> lit (fkey CHR ''{'' ''op'') b; (op, b) \<leftarrow> rstr b;
     b \<leftarrow> lit (fkey CHR '','' ''player_id'') b; (pid, b) \<leftarrow> rint b;
     (gw, b) \<leftarrow> opt (fkey CHR '','' ''gateway_id'') rstr [] b;
     (tags, b) \<leftarrow> opt (fkey CHR '','' ''conn_tags'') rtags None b;
     (da, b) \<leftarrow> opt (fkey CHR '','' ''disconnected_at'') rint 0 b;
     b \<leftarrow> lit (fkey CHR '','' ''ts'') b; (ts, b) \<leftarrow> rint b;
     if b = ''}'' then Some \<lparr>je_OP = op, je_PlayerID = pid, je_GatewayID = gw, je_ConnTags = tags,
       je_DisconnectedAt = da, je_TS = ts\<rparr> else None
   }"

definition jpersist :: "sessionPersist \<Rightarrow> bytes" where
  "jpersist p = fkey CHR ''{'' ''player_id'' @ FormatInt (sp_PlayerID p)
     @ fkey CHR '','' ''gateway_id'' @ jstr (sp_GatewayID p)
     @ jtags (sp_ConnTags p)
     @ fkey CHR '','' ''disconnected_at'' @ FormatInt (sp_DisconnectedAt p) @ ''}''"

definition rpersist :: "bytes \<Rightarrow> (sessionPersist \<times> bytes) option" where
  "rpersist b = do {
     b \<leftarrow> lit (fkey CHR ''{'' ''player_id'') b; (pid, b) \<leftarrow> rint b;
     b \<leftarrow> lit (fkey CHR '','' ''gateway_id'') b; (gw, b) \<leftarrow> rstr b;
     (tags, b) \<leftarrow> opt (fkey CHR '','' ''conn_tags'') rtags None b;
     b \<leftarrow> lit (fkey CHR '','' ''disconnected_at'') b; (da, b) \<leftarrow> rint b;
     b \<leftarrow> lit ''}'' b;
     Some (\<lparr>sp_PlayerID = pid, sp_GatewayID = gw, sp_ConnTags = tags, sp_DisconnectedAt = da\<rparr>, b)
   }"

lemma not_num_char [simp]: "\<not> num_char CHR '',''" "\<not> num_char CHR ''}''"
  by (simp_all add: num_char_def is_digit_def)

lemma fmap_of_sorted_list: "fmap_of_list (sorted_list_of_fmap f) = f"
  by (rule fmap_ext) (simp add: fmlookup_of_list map_of_sorted_list)

lemma rtags_object: "rtags (object jstr (sorted_list_of_fmap f) @ r) = Some (Some f, r)"
  using robject_object [of "sorted_list_of_fmap f" rstr jstr "\<lambda>v. v" r]
  by (simp add: rtags_def fmap_of_sorted_list)

text \<open>An optional field reads back, whether it was written or the next field follows at once.\<close>

lemma opt_tags:
  assumes "lit (fkey CHR '','' ''conn_tags'') r = None"
  shows "opt (fkey CHR '','' ''conn_tags'') rtags None (jtags m @ r) = Some (mnorm m, r)"
  using assms by (auto simp: opt_def jtags_def rtags_object mnorm_def mempty_def split: option.splits)

lemma opt_written: "opt key rd d (key @ r) = rd r"
  by (simp add: opt_def)

lemma opt_absent: "lit key b = None \<Longrightarrow> opt key rd d b = Some (d, b)"
  by (simp add: opt_def)

lemma lit_fkey_ne: "lit (fkey c (a # k)) (fkey c' (a' # k') @ r) = None" if "a \<noteq> a'"
  using that by (simp add: lit_def fkey_def)

definition comma :: "bytes \<Rightarrow> bool" where
  "comma b \<longleftrightarrow> (\<exists>r. b = CHR '','' # r)"

lemma comma_fields [simp]:
  "comma (fkey CHR '','' k @ r)"
  "comma r \<Longrightarrow> comma (jtags m @ r)"
  "comma r \<Longrightarrow> comma ((if c then [] else fkey CHR '','' k @ s) @ r)"
  by (auto simp: comma_def fkey_def jtags_def split: option.splits)

lemma rint_comma [simp]: "i64_ok n \<Longrightarrow> comma r \<Longrightarrow> rint (FormatInt n @ r) = Some (n, r)"
  by (auto simp: comma_def)

lemma rint_close [simp]: "i64_ok n \<Longrightarrow> rint (FormatInt n @ ''}'' @ r) = Some (n, ''}'' @ r)"
  using rint_FormatInt [of n "CHR ''}''" r] by simp

text \<open>Skipping the keys of fields that were left out.\<close>

lemma lit_skip:
  "a \<noteq> CHR ''c'' \<Longrightarrow> lit (fkey CHR '','' (a # k)) r = None \<Longrightarrow> lit (fkey CHR '','' (a # k)) (jtags m @ r) = None"
  "a \<noteq> a' \<Longrightarrow> lit (fkey CHR '','' (a # k)) r = None \<Longrightarrow>
     lit (fkey CHR '','' (a # k)) ((if c then [] else fkey CHR '','' (a' # k') @ s) @ r) = None"
  by (auto simp: jtags_def lit_fkey_ne split: option.splits)

lemma rpersist_jpersist:
  assumes "persist_valid w p"
  shows "rpersist (jpersist p @ r) = Some (persist_norm p, r)"
proof -
  have "lit (fkey CHR '','' ''conn_tags'') (fkey CHR '','' ''disconnected_at'' @ b) = None" for b
    by (simp add: lit_fkey_ne)
  note tags = opt_tags [OF this]
  show ?thesis
    using assms rint_close [of "sp_DisconnectedAt p" r]
    by (simp add: rpersist_def jpersist_def tags persist_valid_def persist_norm_def del: append_Cons)
qed

lemma rentry_jentry:
  assumes "entry_valid w e"
  shows "rentry (jentry e) = Some (entry_norm e)"
proof -
  define T3 where "T3 = fkey CHR '','' ''ts'' @ FormatInt (je_TS e) @ ''}''"
  define T2 where "T2 = (if je_DisconnectedAt e = 0 then [] else fkey CHR '','' ''disconnected_at'' @ FormatInt (je_DisconnectedAt e)) @ T3"
  define T1 where "T1 = jtags (je_ConnTags e) @ T2"
  define T0 where "T0 = (if je_GatewayID e = [] then [] else fkey CHR '','' ''gateway_id'' @ jstr (je_GatewayID e)) @ T1"
  have valid: "i64_ok (je_PlayerID e)" "i64_ok (je_DisconnectedAt e)" "i64_ok (je_TS e)"
    using assms by (simp_all add: entry_valid_def)
  have comma: "comma T3" "comma T2" "comma T1" "comma T0"
    by (simp_all add: T3_def T2_def T1_def T0_def)
  have skip3: "lit (fkey CHR '','' (a # k)) T3 = None" if "a \<noteq> CHR ''t''" for a k
    using that by (simp add: T3_def lit_fkey_ne)
  have skip2: "lit (fkey CHR '','' (a # k)) T2 = None" if "a \<noteq> CHR ''t''" "a \<noteq> CHR ''d''" for a k
    unfolding T2_def using that by (intro lit_skip skip3) auto
  have gw: "opt (fkey CHR '','' ''gateway_id'') rstr [] T0 = Some (je_GatewayID e, T1)"
    by (auto simp: T0_def T1_def opt_written lit_skip skip2 intro!: opt_absent)
  have tags: "opt (fkey CHR '','' ''conn_tags'') rtags None T1 = Some (mnorm (je_ConnTags e), T2)"
    unfolding T1_def by (intro opt_tags skip2) simp_all
  have da: "opt (fkey CHR '','' ''disconnected_at'') rint 0 T2 = Some (je_DisconnectedAt e, T3)"
    using valid comma by (auto simp: T2_def opt_written skip3 intro!: opt_absent)
  have ts: "lit (fkey CHR '','' ''ts'') T3 = Some (FormatInt (je_TS e) @ ''}'')"
    by (simp add: T3_def)
  have "jentry e = fkey CHR ''{'' ''op'' @ jstr (je_OP e) @ fkey CHR '','' ''player_id'' @ FormatInt (je_PlayerID e) @ T0"
    by (simp add: jentry_def T0_def T1_def T2_def T3_def)
  then show ?thesis
    using valid comma by (simp add: rentry_def gw tags da ts entry_norm_def)
qed

section \<open>The snapshot map\<close>

definition jstate :: "(i64, sessionPersist) fmap \<Rightarrow> bytes" where
  "jstate m = object jpersist (map (\<lambda>(k, p). (FormatInt k, p)) (sorted_list_of_fmap m))"

definition rstate :: "bytes \<Rightarrow> (i64, sessionPersist) fmap option" where
  "rstate b = (case robject rpersist b of
     Some (ps, []) \<Rightarrow>
       if list_all (\<lambda>(k, _). snd (ParseInt k) = None) ps
       then Some (fmap_of_list (map (\<lambda>(k, p). (fst (ParseInt k), p)) ps)) else None
   | _ \<Rightarrow> None)"

lemma rstate_jstate:
  assumes "fmpred (\<lambda>k p. i64_ok k \<and> persist_valid w p) m"
  shows "rstate (jstate m) = Some (fmmap persist_norm m)"
proof -
  let ?ps = "sorted_list_of_fmap m"
  have ok: "i64_ok k \<and> persist_valid w p" if "(k, p) \<in> set ?ps" for k p
    using that assms by (auto simp: set_sorted_list_of_fmap dest: fmpredD)
  have "robject rpersist (object jpersist (map (\<lambda>(k, p). (FormatInt k, p)) ?ps) @ []) =
      Some (map (\<lambda>(k, v). (k, persist_norm v)) (map (\<lambda>(k, p). (FormatInt k, p)) ?ps), [])"
    by (rule robject_object) (auto dest: ok intro: rpersist_jpersist)
  then have "rstate (jstate m) = Some (fmap_of_list (map (\<lambda>(k, p). (fst (ParseInt (FormatInt k)), persist_norm p)) ?ps))"
    using ok by (auto simp: rstate_def jstate_def list_all_iff ParseInt_FormatInt o_def case_prod_unfold)
  also have "map (\<lambda>(k, p). (fst (ParseInt (FormatInt k)), persist_norm p)) ?ps = map (\<lambda>(k, p). (k, persist_norm p)) ?ps"
    using ok by (intro map_cong) (auto simp: ParseInt_FormatInt)
  also have "fmap_of_list (map (\<lambda>(k, p). (k, persist_norm p)) ?ps) = fmmap persist_norm m"
    by (rule fmap_ext) (simp add: fmlookup_of_list map_of_map map_of_sorted_list)
  finally show ?thesis .
qed

section \<open>The instance\<close>

lemma jstr_no_newline: "CHR 0x0A \<notin> set (jstr s)"
  using jesc_no_newline by (auto simp: jstr_def)

lemma FormatInt_no_newline: "CHR 0x0A \<notin> set (FormatInt n)"
  using num_char_FormatInt [of "CHR 0x0A" n] by (auto simp: num_char_def is_digit_def)

lemma pairs_no_newline: "CHR 0x0A \<notin> set (pairs jstr ps)"
  by (induction jstr ps rule: pairs.induct) (auto simp: jstr_no_newline)

lemma jentry_no_newline: "CHR 0x0A \<notin> set (jentry e)"
  by (auto simp: jentry_def fkey_def jtags_def object_def jstr_no_newline FormatInt_no_newline
      pairs_no_newline split: option.splits)

definition go_json :: json where
  "go_json = \<lparr>marshal_state = (\<lambda>m. Some (jstate m)), unmarshal_state = rstate,
     marshal_entry = (\<lambda>e. Some (jentry e)), unmarshal_entry = rentry\<rparr>"

interpretation sj: session_json pb_wire go_json sorted_list_of_fset
proof unfold_locales
  show "set (sorted_list_of_fset S) = fset S" for S :: "i64 fset"
    by (simp add: sorted_list_of_fset.rep_eq)
  show "\<exists>b. marshal_state go_json m = Some b \<and> unmarshal_state go_json b = Some (fmmap persist_norm m)"
    if "fmpred (\<lambda>k p. i64_ok k \<and> persist_valid pb_wire p) m" for m
    using rstate_jstate [OF that] by (simp add: go_json_def)
  show "\<exists>b. marshal_entry go_json e = Some b \<and> unmarshal_entry go_json b = Some (entry_norm e)
      \<and> b \<noteq> [] \<and> CHR 0x0A \<notin> set b \<and> last b \<noteq> CHR 0x0D" if "entry_valid pb_wire e" for e
    using rentry_jentry [OF that] jentry_no_newline [of e]
    by (simp add: go_json_def) (simp add: jentry_def fkey_def)
qed

end
