(* ===== verification/SessionSvr.thy ===== *)
theory SessionSvr
  imports SessionJson Registry
begin

text \<open>
  apps/sessionsvr/internal/router/session_router.go and expiry.go: the handlers of the
  session service and the scan for expired sessions. Each handler is one step of the
  state; the wall clock in seconds and milliseconds and the outcome of the journal write
  are in \<open>sess_env\<close>. The message library, the JSON library and the connections of the
  server, in the order of the connection manager, are arguments.
\<close>

record sess_env =
  se_now :: i64
  se_ms :: i64
  se_io :: "nat option"

definition SessionTTL :: i64 where
  "SessionTTL = 120"

section \<open>Handlers\<close>

definition save_session :: "SessionData \<Rightarrow> sessions \<Rightarrow> sessions" where
  "save_session data ss = fmupd (sd_PlayerId data)
     ((load_or_new ss (sd_PlayerId data))
        \<lparr>s_GatewayID := sd_GatewayId data, s_ConnTags := sd_ConnTags data, s_DisconnectedAt := 0\<rparr>) ss"

definition handleSave :: "wire \<Rightarrow> json \<Rightarrow> sess_env \<Rightarrow> bytes \<Rightarrow> sess_state \<Rightarrow> sess_state" where
  "handleSave w j ev body st =
     (case unm_SessionData w body of
        None \<Rightarrow> st
      | Some data \<Rightarrow>
          journalAppend j (se_io ev) (se_ms ev)
            \<lparr>je_OP = ''save'', je_PlayerID = sd_PlayerId data, je_GatewayID = sd_GatewayId data,
              je_ConnTags = sd_ConnTags data, je_DisconnectedAt = 0, je_TS = 0\<rparr>
            (st\<lparr>ss_sessions := save_session data (ss_sessions st)\<rparr>))"

definition handleGet :: "wire \<Rightarrow> conn \<Rightarrow> bytes \<Rightarrow> sess_state \<Rightarrow> sent list" where
  "handleGet w c body st =
     (case unm_SessionData w body of
        None \<Rightarrow> []
      | Some data \<Rightarrow>
          let resp = \<lparr>sd_PlayerId = sd_PlayerId data, sd_GatewayId = '''', sd_ConnTags = None, sd_DisconnectedAt = 0\<rparr>;
              resp = (case fmlookup (ss_sessions st) (sd_PlayerId data) of
                  None \<Rightarrow> resp
                | Some s \<Rightarrow> resp\<lparr>sd_GatewayId := s_GatewayID s, sd_ConnTags := s_ConnTags s,
                    sd_DisconnectedAt := s_DisconnectedAt s\<rparr>)
          in [Sent c (msg_number SESSION_GET) (mar_SessionData w resp)])"

definition handleDisconnect :: "wire \<Rightarrow> json \<Rightarrow> sess_env \<Rightarrow> bytes \<Rightarrow> sess_state \<Rightarrow> sess_state" where
  "handleDisconnect w j ev body st =
     (case unm_SessionData w body of
        None \<Rightarrow> st
      | Some data \<Rightarrow>
          let pid = sd_PlayerId data;
              s = load_or_new (ss_sessions st) pid
          in if s_GatewayID s \<noteq> '''' \<and> s_GatewayID s \<noteq> sd_GatewayId data
             then st\<lparr>ss_sessions := fmupd pid s (ss_sessions st)\<rparr>
             else let s1 = (if s_GatewayID s = '''' then s\<lparr>s_GatewayID := sd_GatewayId data\<rparr> else s);
                      s2 = (if s_ConnTags s1 = None then s1\<lparr>s_ConnTags := sd_ConnTags data\<rparr> else s1);
                      s3 = s2\<lparr>s_DisconnectedAt := se_now ev\<rparr>
                  in journalAppend j (se_io ev) (se_ms ev)
                       \<lparr>je_OP = ''disconnect'', je_PlayerID = pid, je_GatewayID = sd_GatewayId data,
                         je_ConnTags = sd_ConnTags data, je_DisconnectedAt = se_now ev, je_TS = 0\<rparr>
                       (st\<lparr>ss_sessions := fmupd pid s3 (ss_sessions st)\<rparr>))"

text \<open>The server is \<open>None\<close> when the router has none; otherwise its connections.\<close>

definition handleReconnect ::
  "wire \<Rightarrow> json \<Rightarrow> sess_env \<Rightarrow> conn list option \<Rightarrow> conn \<Rightarrow> bytes \<Rightarrow> sess_state \<Rightarrow> sess_state \<times> sent list" where
  "handleReconnect w j ev server c body st =
     (case unm_SessionData w body of
        None \<Rightarrow> (st, [])
      | Some data \<Rightarrow>
         (case fmlookup (ss_sessions st) (sd_PlayerId data) of
            None \<Rightarrow> (st, [])
          | Some s \<Rightarrow>
              let s1 = s\<lparr>s_DisconnectedAt := 0, s_GatewayID := sd_GatewayId data,
                         s_ConnTags := (if \<not> mempty (sd_ConnTags data) then sd_ConnTags data else s_ConnTags s)\<rparr>;
                  st1 = journalAppend j (se_io ev) (se_ms ev)
                    \<lparr>je_OP = ''reconnect'', je_PlayerID = sd_PlayerId data, je_GatewayID = sd_GatewayId data,
                      je_ConnTags = sd_ConnTags data, je_DisconnectedAt = 0, je_TS = 0\<rparr>
                    (st\<lparr>ss_sessions := fmupd (sd_PlayerId data) s1 (ss_sessions st)\<rparr>);
                  reply = Sent c (msg_number SESSION_RECONNECT)
                    (mar_SessionData w \<lparr>sd_PlayerId = s_PlayerID s1, sd_GatewayId = s_GatewayID s1,
                       sd_ConnTags = s_ConnTags s1, sd_DisconnectedAt = 0\<rparr>);
                  inv = mar_SessionData w \<lparr>sd_PlayerId = sd_PlayerId data, sd_GatewayId = s_GatewayID s,
                       sd_ConnTags = None, sd_DisconnectedAt = 0\<rparr>
              in (st1, reply #
                   (case server of
                      Some conns \<Rightarrow>
                        if s_GatewayID s \<noteq> '''' \<and> s_GatewayID s \<noteq> sd_GatewayId data
                        then map (\<lambda>g. Sent g (msg_number SESSION_INVALIDATE) inv) conns else []
                    | None \<Rightarrow> []))))"

definition SessionRouter_Handle ::
  "wire \<Rightarrow> json \<Rightarrow> sess_env \<Rightarrow> conn list option \<Rightarrow> conn \<Rightarrow> u32 \<Rightarrow> bytes \<Rightarrow> sess_state \<Rightarrow> sess_state \<times> sent list" where
  "SessionRouter_Handle w j ev server c msgID body st =
     (if msgID = msg_number SESSION_SAVE then (handleSave w j ev body st, [])
      else if msgID = msg_number SESSION_GET then (st, handleGet w c body st)
      else if msgID = msg_number SESSION_DISCONNECT then (handleDisconnect w j ev body st, [])
      else if msgID = msg_number SESSION_RECONNECT then handleReconnect w j ev server c body st
      else (st, []))"

section \<open>Expiry\<close>

definition notifyForceLeaveRoom ::
  "wire \<Rightarrow> nat \<Rightarrow> props \<Rightarrow> Registry \<Rightarrow> i64 \<Rightarrow> string \<Rightarrow> string \<Rightarrow> sent list" where
  "notifyForceLeaveRoom w rnd ps reg pid matchID serverID =
     (let key = (if serverID = '''' then matchID else serverID)
      in case RouteTo rnd ps reg SvcRoomSvr key of
        None \<Rightarrow> []
      | Some c \<Rightarrow> [Sent c (msg_number SESSION_FORCE_LEAVE)
          (mar_SessionData w \<lparr>sd_PlayerId = pid, sd_GatewayId = '''',
             sd_ConnTags = Some (fmupd TagMatchID matchID fmempty), sd_DisconnectedAt = 0\<rparr>)])"

definition notifyForceLeaveQueue ::
  "wire \<Rightarrow> nat \<Rightarrow> props \<Rightarrow> Registry \<Rightarrow> i64 \<Rightarrow> string \<Rightarrow> sent list" where
  "notifyForceLeaveQueue w rnd ps reg pid matchType =
     (case RouteTo rnd ps reg SvcMatchSvr matchType of
        None \<Rightarrow> []
      | Some c \<Rightarrow> [Sent c (msg_number SESSION_FORCE_LEAVE_QUEUE)
          (mar_SessionData w \<lparr>sd_PlayerId = pid, sd_GatewayId = '''',
             sd_ConnTags = Some (fmupd TagMatchType matchType fmempty), sd_DisconnectedAt = 0\<rparr>)])"

text \<open>The difference of the two clock values is an int64 and may wrap.\<close>

definition expired :: "i64 \<Rightarrow> Session \<Rightarrow> bool" where
  "expired now s \<longleftrightarrow> s_DisconnectedAt s \<noteq> 0 \<and> SessionTTL \<le> i64_wrap (now - s_DisconnectedAt s)"

definition expire_one ::
  "wire \<Rightarrow> nat \<Rightarrow> props \<Rightarrow> Registry \<Rightarrow> i64 \<Rightarrow> i64 \<Rightarrow> sessions \<Rightarrow> sessions \<times> sent list" where
  "expire_one w rnd ps reg now key ss =
     (case fmlookup ss key of
        None \<Rightarrow> (ss, [])
      | Some s \<Rightarrow>
          if \<not> expired now s then (ss, [])
          else let matchID = mget (s_ConnTags s) TagMatchID;
                   matchType = mget (s_ConnTags s) TagMatchType;
                   roomSvrID = mget (s_ConnTags s) TagRoomSvrID
               in (fmdrop key ss,
                   (if matchID \<noteq> '''' then notifyForceLeaveRoom w rnd ps reg (s_PlayerID s) matchID roomSvrID else [])
                   @ (if matchType \<noteq> '''' then notifyForceLeaveQueue w rnd ps reg (s_PlayerID s) matchType else [])))"

text \<open>One tick of the scanner; the keys are ranged over in the order given.\<close>

fun expiry_scan ::
  "wire \<Rightarrow> nat \<Rightarrow> props \<Rightarrow> Registry \<Rightarrow> i64 \<Rightarrow> i64 list \<Rightarrow> sessions \<Rightarrow> sessions \<times> sent list" where
  "expiry_scan w rnd ps reg now [] ss = (ss, [])"
| "expiry_scan w rnd ps reg now (key # keys) ss =
     (case expire_one w rnd ps reg now key ss of
        (ss1, out1) \<Rightarrow> (case expiry_scan w rnd ps reg now keys ss1 of (ss2, out2) \<Rightarrow> (ss2, out1 @ out2)))"

definition empty_disk :: disk where
  "empty_disk = \<lparr>d_snapshot = None, d_tmp = None, d_journal = None\<rparr>"

definition fresh_state :: "disk \<Rightarrow> sess_state" where
  "fresh_state d = \<lparr>ss_sessions = fmempty, ss_store = None, ss_disk = d\<rparr>"

section \<open>The table invariant is kept\<close>

lemma fmupd_same: "fmlookup m k = Some v \<Longrightarrow> fmupd k v m = m"
  by (rule fmap_ext) auto

lemma i64_ok_0 [simp]: "i64_ok 0"
  by (simp add: i64_ok_def i64_min_def i64_max_def)

lemma sessions_valid_new:
  assumes "sessions_valid w ss" "s_PlayerID s = pid" "s_ConnTags s \<noteq> Some fmempty" "session_valid w s"
  shows "sessions_valid w (fmupd pid s ss)"
  using assms by (auto simp: sessions_valid_def fmpred_upd session_norm_def)

lemma sessions_valid_wf: "sessions_valid w ss \<Longrightarrow> sessions_wf ss"
  by (simp add: sessions_valid_def)

context wire_codec
begin

lemma handleSave_valid:
  assumes "sessions_valid w (ss_sessions st)"
  shows "sessions_valid w (ss_sessions (handleSave w j ev body st))"
proof (cases "unm_SessionData w body")
  case (Some data)
  note d = unm_SessionData_valid [OF Some]
  then show ?thesis
    using assms load_or_new_valid [OF assms str_ok_nil d(4)]
    by (auto simp: handleSave_def Some save_session_def session_valid_def sessions_valid_wf
        intro!: sessions_valid_new)
qed (simp add: handleSave_def assms)

lemma handleDisconnect_valid:
  assumes "sessions_valid w (ss_sessions st)" "i64_ok (se_now ev)"
  shows "sessions_valid w (ss_sessions (handleDisconnect w j ev body st))"
proof (cases "unm_SessionData w body")
  case (Some data)
  note d = unm_SessionData_valid [OF Some]
  then show ?thesis
    using assms load_or_new_valid [OF assms(1) str_ok_nil d(4)]
    by (auto simp: handleDisconnect_def Some Let_def session_valid_def sessions_valid_wf
        intro!: sessions_valid_new)
qed (simp add: handleDisconnect_def assms)

lemma handleReconnect_valid:
  assumes "sessions_valid w (ss_sessions st)"
  shows "sessions_valid w (ss_sessions (fst (handleReconnect w j ev server c body st)))"
proof (cases "unm_SessionData w body")
  case (Some data)
  note d = unm_SessionData_valid [OF Some]
  show ?thesis
  proof (cases "fmlookup (ss_sessions st) (sd_PlayerId data)")
    case None
    with Some assms show ?thesis by (simp add: handleReconnect_def)
  next
    case s: (Some s)
    have "session_valid w s" "s_ConnTags s \<noteq> Some fmempty"
      using session_valid_lookup [OF assms s] assms s by (auto dest: sessions_valid_wf)
    then show ?thesis
      using assms d s
      by (auto simp: handleReconnect_def Some Let_def session_valid_def intro!: sessions_valid_put)
  qed
qed (simp add: handleReconnect_def assms)

lemma Handle_valid:
  assumes "sessions_valid w (ss_sessions st)" "i64_ok (se_now ev)"
  shows "sessions_valid w (ss_sessions (fst (SessionRouter_Handle w j ev server c msgID body st)))"
  using assms handleSave_valid handleDisconnect_valid handleReconnect_valid
  by (simp add: SessionRouter_Handle_def)

end

section \<open>Expiry\<close>

lemma expire_one_fst:
  "fst (expire_one w rnd ps reg now key ss) =
     (case fmlookup ss key of None \<Rightarrow> ss | Some s \<Rightarrow> if expired now s then fmdrop key ss else ss)"
  by (simp add: expire_one_def Let_def split: option.splits)

lemma expiry_scan_lookup:
  "fmlookup (fst (expiry_scan w rnd ps reg now keys ss)) k =
     (case fmlookup ss k of
        None \<Rightarrow> None
      | Some s \<Rightarrow> if k \<in> set keys \<and> expired now s then None else Some s)"
proof (induction keys arbitrary: ss)
  case (Cons key keys)
  have "fst (expiry_scan w rnd ps reg now (key # keys) ss) =
      fst (expiry_scan w rnd ps reg now keys (fst (expire_one w rnd ps reg now key ss)))"
    by (simp split: prod.splits)
  then show ?case
    using Cons.IH by (auto simp: expire_one_fst split: option.splits)
qed (simp split: option.splits)



lemma expiry_scan_valid:
  assumes "sessions_valid w ss"
  shows "sessions_valid w (fst (expiry_scan w' rnd ps reg now keys ss))"
proof -
  have sub: "fmlookup ss k = Some s" if "fmlookup (fst (expiry_scan w' rnd ps reg now keys ss)) k = Some s" for k s
    using that by (auto simp: expiry_scan_lookup split: option.splits if_splits)
  show ?thesis
    using assms by (auto simp: sessions_valid_def sessions_wf_def fmpred_iff dest!: sub)
qed

text \<open>
  C3: Every request, whatever its number and body, and every expiry scan keeps the session
  table well formed: each session is stored under its own player, its tags are nil or
  non-empty, its strings are valid and its numbers are 64 bit integers.
\<close>

theorem sessions_invariant:
  assumes "wire_codec w" "sessions_valid w (ss_sessions st)" "i64_ok (se_now ev)"
  shows "sessions_valid w (ss_sessions (fst (SessionRouter_Handle w j ev server c msgID body st))) \<and>
    sessions_valid w (fst (expiry_scan w rnd ps reg now keys (ss_sessions st)))"
  using wire_codec.Handle_valid [OF assms] expiry_scan_valid [OF assms(2)] by blast

theorem sessions_invariant_witness:
  "sessions_valid pb_wire (ss_sessions (fst (SessionRouter_Handle pb_wire go_json
     \<lparr>se_now = 100, se_ms = 5, se_io = None\<rparr> None 1 (msg_number SESSION_SAVE) '''' (fresh_state empty_disk))))"
  using sessions_invariant [OF pb.wire_codec_axioms, of "fresh_state empty_disk" "\<lparr>se_now = 100, se_ms = 5, se_io = None\<rparr>"]
  by (simp add: fresh_state_def sessions_valid_def i64_ok_def i64_min_def i64_max_def)

section \<open>Journal entries against live handlers\<close>

text \<open>The entry that the handler of a request journals, if it journals one.\<close>

definition request_entry :: "wire \<Rightarrow> sess_env \<Rightarrow> u32 \<Rightarrow> bytes \<Rightarrow> sessions \<Rightarrow> journalEntry option" where
  "request_entry w ev msgID body ss =
     (case unm_SessionData w body of
        None \<Rightarrow> None
      | Some d \<Rightarrow>
          let entry = \<lparr>je_OP = '''', je_PlayerID = sd_PlayerId d, je_GatewayID = sd_GatewayId d,
                je_ConnTags = sd_ConnTags d, je_DisconnectedAt = 0, je_TS = se_ms ev\<rparr>;
              s = load_or_new ss (sd_PlayerId d)
          in if msgID = msg_number SESSION_SAVE then Some (entry\<lparr>je_OP := ''save''\<rparr>)
             else if msgID = msg_number SESSION_DISCONNECT then
               if s_GatewayID s \<noteq> '''' \<and> s_GatewayID s \<noteq> sd_GatewayId d then None
               else Some (entry\<lparr>je_OP := ''disconnect'', je_DisconnectedAt := se_now ev\<rparr>)
             else if msgID = msg_number SESSION_RECONNECT then
               if fmlookup ss (sd_PlayerId d) = None then None else Some (entry\<lparr>je_OP := ''reconnect''\<rparr>)
             else None)"

text \<open>
  The requests whose entry, replayed, does what the handler did: a save carries tags or
  finds none, and a disconnect finds a session.
\<close>

definition replay_agrees :: "wire \<Rightarrow> sess_env \<Rightarrow> u32 \<Rightarrow> bytes \<Rightarrow> sessions \<Rightarrow> bool" where
  "replay_agrees w ev msgID body ss \<longleftrightarrow>
     (case unm_SessionData w body of
        None \<Rightarrow> True
      | Some d \<Rightarrow>
          if msgID = msg_number SESSION_SAVE
          then sd_ConnTags d \<noteq> None \<or> s_ConnTags (load_or_new ss (sd_PlayerId d)) = None
          else if msgID = msg_number SESSION_DISCONNECT
          then fmlookup ss (sd_PlayerId d) \<noteq> None \<and> se_now ev \<noteq> 0
          else True)"

definition live_sessions :: "wire \<Rightarrow> json \<Rightarrow> sess_env \<Rightarrow> conn list option \<Rightarrow> conn \<Rightarrow> u32 \<Rightarrow> bytes \<Rightarrow> sess_state \<Rightarrow> sessions" where
  "live_sessions w j ev server c msgID body st =
     ss_sessions (fst (SessionRouter_Handle w j ev server c msgID body st))"

lemma replay_entry_ops:
  "je_OP e = ''save'' \<Longrightarrow> replay_entry e ss = replay_save e ss"
  "je_OP e = ''disconnect'' \<Longrightarrow> replay_entry e ss = replay_disconnect e ss"
  "je_OP e = ''reconnect'' \<Longrightarrow> replay_entry e ss = replay_reconnect e ss"
  by (simp_all add: replay_entry_def)

lemma load_or_new_Some: "fmlookup ss k = Some s \<Longrightarrow> load_or_new ss k = s"
  by (simp add: load_or_new_def)

lemma journalAppend_TS:
  "journalAppend j io ts \<lparr>je_OP = a, je_PlayerID = b, je_GatewayID = c, je_ConnTags = d, je_DisconnectedAt = e, je_TS = 0\<rparr> st =
   journalAppend j io ts \<lparr>je_OP = a, je_PlayerID = b, je_GatewayID = c, je_ConnTags = d, je_DisconnectedAt = e, je_TS = ts\<rparr> st"
  by (simp add: journalAppend_def split: option.split)

lemma tags_upd_same: "s_ConnTags s = t \<Longrightarrow> s\<lparr>s_GatewayID := g, s_ConnTags := t, s_DisconnectedAt := x\<rparr> = s\<lparr>s_GatewayID := g, s_DisconnectedAt := x\<rparr>"
  by (cases s) simp

lemma Handle_entry:
  assumes "replay_agrees w ev msgID body (ss_sessions st)"
    and "\<And>d. unm_SessionData w body = Some d \<Longrightarrow> sd_ConnTags d \<noteq> Some fmempty"
  shows "fst (SessionRouter_Handle w j ev server c msgID body st) =
    (case request_entry w ev msgID body (ss_sessions st) of
       None \<Rightarrow> st
     | Some e \<Rightarrow> journalAppend j (se_io ev) (se_ms ev) e
         (st\<lparr>ss_sessions := replay_entry e (ss_sessions st)\<rparr>))"
proof (cases "unm_SessionData w body")
  case None
  then show ?thesis
    by (simp add: SessionRouter_Handle_def handleSave_def handleDisconnect_def handleReconnect_def request_entry_def)
next
  case (Some d)
  have norm: "mempty (sd_ConnTags d) \<longleftrightarrow> sd_ConnTags d = None"
    using assms(2) [OF Some] by (cases "sd_ConnTags d") auto
  consider "msgID = msg_number SESSION_SAVE" | "msgID = msg_number SESSION_DISCONNECT"
    | "msgID = msg_number SESSION_RECONNECT"
    | "msgID \<noteq> msg_number SESSION_SAVE" "msgID \<noteq> msg_number SESSION_DISCONNECT" "msgID \<noteq> msg_number SESSION_RECONNECT"
    by blast
  then show ?thesis
  proof cases
    case 1
    then show ?thesis
      using Some assms(1)
      by (auto simp: SessionRouter_Handle_def handleSave_def request_entry_def replay_agrees_def Let_def
          replay_entry_ops replay_save_def save_session_def journalAppend_TS tags_upd_same)
  next
    case 2
    then obtain s where s: "fmlookup (ss_sessions st) (sd_PlayerId d) = Some s" "se_now ev \<noteq> 0"
      using Some assms(1) by (auto simp: replay_agrees_def)
    then show ?thesis
      using Some 2
      by (cases s) (auto simp: SessionRouter_Handle_def handleDisconnect_def request_entry_def Let_def
          replay_entry_ops replay_disconnect_def load_or_new_Some journalAppend_TS fmupd_same)
  next
    case 3
    then show ?thesis
      using Some norm
      by (auto simp: SessionRouter_Handle_def handleReconnect_def request_entry_def Let_def
          replay_entry_ops replay_reconnect_def journalAppend_TS split: option.splits)
  next
    case 4
    then show ?thesis
      by (simp add: SessionRouter_Handle_def request_entry_def Some Let_def)
  qed
qed

section \<open>Restarts\<close>

text \<open>What happens to the service: requests, and ticks of the snapshot timer.\<close>

datatype sess_event = Request sess_env conn u32 bytes | SnapshotTick

fun sess_step :: "wire \<Rightarrow> json \<Rightarrow> conn list option \<Rightarrow> sess_event \<Rightarrow> sess_state \<Rightarrow> sess_state" where
  "sess_step w j server (Request ev c msgID body) st = fst (SessionRouter_Handle w j ev server c msgID body st)"
| "sess_step w j server SnapshotTick st = StartAutoSnapshot_tick snap_fine st"

text \<open>
  An event whose effect the files record: a snapshot, or a request whose entry agrees with
  its handler, fits on a line of the journal and is written without an error.
\<close>

fun recorded :: "wire \<Rightarrow> json \<Rightarrow> sess_event \<Rightarrow> sess_state \<Rightarrow> bool" where
  "recorded w j (Request ev c msgID body) st \<longleftrightarrow>
     replay_agrees w ev msgID body (ss_sessions st) \<and> se_io ev = None \<and> i64_ok (se_now ev) \<and> i64_ok (se_ms ev) \<and>
     (case request_entry w ev msgID body (ss_sessions st) of
        None \<Rightarrow> True
      | Some e \<Rightarrow> (case marshal_entry j e of None \<Rightarrow> False | Some b \<Rightarrow> length b < maxToken))"
| "recorded w j SnapshotTick st \<longleftrightarrow> True"

fun all_recorded :: "wire \<Rightarrow> json \<Rightarrow> conn list option \<Rightarrow> sess_event list \<Rightarrow> sess_state \<Rightarrow> bool" where
  "all_recorded w j server [] st \<longleftrightarrow> True"
| "all_recorded w j server (x # xs) st \<longleftrightarrow> recorded w j x st \<and> all_recorded w j server xs (sess_step w j server x st)"

definition on_disk :: "wire \<Rightarrow> json \<Rightarrow> range_order \<Rightarrow> sess_state \<Rightarrow> bool" where
  "on_disk w j rng st \<longleftrightarrow> sessions_valid w (ss_sessions st) \<and>
     (\<exists>s es. ss_store st = Some s \<and> store_ready (snapshotSessions j rng) s \<and>
        durable_by (loadSnapshot j rng) (replaySession j) (ss_disk st) fmempty es (ss_sessions st))"

context session_json
begin

lemma request_entry_fits:
  assumes "recorded w j (Request ev c msgID body) st" "request_entry w ev msgID body (ss_sessions st) = Some e"
    and "str_ok w ''save''" "str_ok w ''disconnect''" "str_ok w ''reconnect''"
  shows "entry_fits w j e"
proof -
  obtain d where d: "unm_SessionData w body = Some d"
    using assms(2) by (auto simp: request_entry_def split: option.splits)
  note v = unm_SessionData_valid [OF d]
  have "entry_valid w e \<and> je_ConnTags e \<noteq> Some fmempty"
    using assms v by (auto simp: request_entry_def d Let_def entry_valid_def split: if_splits)
  then show ?thesis
    using assms(1,2) by (auto simp: entry_fits_def split: option.splits)
qed

lemma on_disk_journal:
  assumes "on_disk w j rng st" "entry_fits w j e" "je_TS e = ms"
  shows "on_disk w j rng (journalAppend j None ms e (st\<lparr>ss_sessions := replay_entry e (ss_sessions st)\<rparr>))"
proof -
  obtain s es where s: "ss_store st = Some s" "store_ready (snapshotSessions j rng) s"
    and dur: "durable_by (loadSnapshot j rng) (replaySession j) (ss_disk st) fmempty es (ss_sessions st)"
    and val: "sessions_valid w (ss_sessions st)"
    using assms(1) by (auto simp: on_disk_def)
  obtain b where b: "marshal_entry j e = Some b" "entry_ok b"
    "replaySession j b (ss_sessions st) = (replay_entry e (ss_sessions st), True)"
    using enc_replay [OF assms(2)] by blast
  have app: "Append None b s (ss_disk st) = (s, write_journal (journal_line b) (ss_disk st), None)"
    using s by (intro Append_ok) (simp_all add: store_ready_def)
  have e: "e\<lparr>je_TS := ms\<rparr> = e"
    using assms(3) by (cases e) simp
  have "\<exists>es'. durable_by (loadSnapshot j rng) (replaySession j) (write_journal (journal_line b) (ss_disk st))
      fmempty es' (replay_entry e (ss_sessions st))"
    using durable_append [OF dur b(2,3) app] by blast
  then show ?thesis
    using s b step_good [OF val assms(2)] by (simp add: journalAppend_def e app on_disk_def)
qed

lemma on_disk_snapshot:
  assumes "on_disk w j rng st"
  shows "on_disk w j rng (StartAutoSnapshot_tick snap_fine st)"
proof -
  obtain s where s: "ss_store st = Some s" "store_ready (snapshotSessions j rng) s"
    and val: "sessions_valid w (ss_sessions st)"
    using assms by (auto simp: on_disk_def)
  obtain s' d' where op: "do_op (marshal_entry j) replay_entry SnapshotOp (ss_sessions st, s, ss_disk st) = (ss_sessions st, s', d')"
    by (cases "Snapshot snap_fine (ss_sessions st) s (ss_disk st)") simp
  then have tick: "StartAutoSnapshot_tick snap_fine st = st\<lparr>ss_store := Some s', ss_disk := d'\<rparr>"
    using s by (auto simp: StartAutoSnapshot_tick_def auto_tick_def store_ready_def split: prod.splits)
  show ?thesis
    using snapshot_op [OF val s(2) op] val by (auto simp: tick on_disk_def)
qed

lemma on_disk_step:
  assumes "on_disk w j rng st" "recorded w j x st"
    and "str_ok w ''save''" "str_ok w ''disconnect''" "str_ok w ''reconnect''"
  shows "on_disk w j rng (sess_step w j server x st)"
proof (cases x)
  case (Request ev c msgID body)
  have eq: "fst (SessionRouter_Handle w j ev server c msgID body st) =
      (case request_entry w ev msgID body (ss_sessions st) of
         None \<Rightarrow> st
       | Some e \<Rightarrow> journalAppend j (se_io ev) (se_ms ev) e (st\<lparr>ss_sessions := replay_entry e (ss_sessions st)\<rparr>))"
    using assms(2) Request unm_SessionData_valid(3) by (intro Handle_entry) auto
  show ?thesis
  proof (cases "request_entry w ev msgID body (ss_sessions st)")
    case (Some e)
    then have "je_TS e = se_ms ev"
      by (auto simp: request_entry_def Let_def split: option.splits if_splits)
    with Some show ?thesis
      using on_disk_journal [OF assms(1) request_entry_fits [OF assms(2) [unfolded Request] Some assms(3-5)]]
        assms(2) Request by (simp add: eq)
  qed (use assms(1) Request eq in simp)
qed (use assms on_disk_snapshot in simp)

lemma on_disk_run:
  assumes "on_disk w j rng st" "all_recorded w j server xs st"
    and "str_ok w ''save''" "str_ok w ''disconnect''" "str_ok w ''reconnect''"
  shows "on_disk w j rng (fold (sess_step w j server) xs st)"
  using assms(1,2)
  by (induction xs arbitrary: st) (auto intro: on_disk_step [OF _ _ assms(3-5)])

end

lemma InitStore_recover:
  "ss_sessions (fst (InitStore io_fine j rng (fresh_state d))) =
     recover io_fine (loadSnapshot j rng) (replaySession j) d fmempty"
  by (simp add: InitStore_def OpenStore_def session_config_def fresh_state_def io_fine_def Let_def)

lemma InitStore_on_disk: "on_disk w j rng (fst (InitStore io_fine j rng (fresh_state empty_disk)))"
  by (simp add: InitStore_def OpenStore_def session_config_def fresh_state_def io_fine_def Let_def
      on_disk_def sessions_valid_def store_ready_def with_defaults_def recover_def empty_disk_def
      replayJournal_def durable_by_def journal_bytes_def journal_of_def snapshot_base_def
      exI [of _ "[]"])

text \<open>
  C1: The session service that starts on an empty directory, handles recorded requests and
  takes snapshots at any time between them, and is then started again on the files it
  wrote, has the same sessions as before.
\<close>

theorem session_restart:
  assumes "session_json w j rng"
    and "str_ok w ''save''" "str_ok w ''disconnect''" "str_ok w ''reconnect''"
    and "st0 = fst (InitStore io_fine j rng (fresh_state empty_disk))"
    and "all_recorded w j server xs st0"
    and "st = fold (sess_step w j server) xs st0"
  shows "ss_sessions (fst (InitStore io_fine j rng (fresh_state (ss_disk st)))) = ss_sessions st"
proof -
  have "on_disk w j rng st"
    using session_json.on_disk_run [OF assms(1) _ assms(6,2,3,4)] InitStore_on_disk assms(5,7) by simp
  then obtain es where "durable_by (loadSnapshot j rng) (replaySession j) (ss_disk st) fmempty es (ss_sessions st)"
    by (auto simp: on_disk_def)
  then show ?thesis
    by (simp add: InitStore_recover durable_recover)
qed

definition sample_data :: SessionData where
  "sample_data = \<lparr>sd_PlayerId = 7, sd_GatewayId = ''g'', sd_ConnTags = None, sd_DisconnectedAt = 0\<rparr>"

definition sample_env :: sess_env where
  "sample_env = \<lparr>se_now = 100, se_ms = 5, se_io = None\<rparr>"

lemma sample_read: "unm_SessionData pb_wire (mar_SessionData pb_wire sample_data) = Some sample_data"
  by (simp add: pb.SessionData_roundtrip sample_data_def i64_ok_def i64_min_def i64_max_def pb_str_ok utf8_ok_def)

lemma sample_fields:
  "sd_PlayerId sample_data = 7" "sd_GatewayId sample_data = ''g''" "sd_ConnTags sample_data = None"
  by (simp_all add: sample_data_def)

lemma sample_numbers: "FormatInt 7 = ''7''" "FormatInt 5 = ''5''" "FormatInt 100 = ''100''"
  by (simp_all add: FormatInt_def format_nat.simps digit_char_def char_of_eq_iff)

lemma sample_line:
  "length (jentry \<lparr>je_OP = ''save'', je_PlayerID = 7, je_GatewayID = ''g'', je_ConnTags = None, je_DisconnectedAt = 0, je_TS = 5\<rparr>) < maxToken"
  "length (jentry \<lparr>je_OP = ''disconnect'', je_PlayerID = 7, je_GatewayID = ''g'', je_ConnTags = None, je_DisconnectedAt = 100, je_TS = 5\<rparr>) < maxToken"
  by (simp_all add: jentry_def fkey_def jstr_def jesc_def short_escape_def html_unsafe_def jtags_def sample_numbers maxToken_def)

definition sample_start :: sess_state where
  "sample_start = fst (InitStore io_fine go_json sorted_list_of_fset (fresh_state empty_disk))"

lemma sample_start_empty: "ss_sessions sample_start = fmempty"
  by (simp add: sample_start_def InitStore_recover recover_def replayJournal_def empty_disk_def)

definition sample_run :: "sess_event list" where
  "sample_run = [Request sample_env 1 (msg_number SESSION_SAVE) (mar_SessionData pb_wire sample_data),
     Request sample_env 1 (msg_number SESSION_DISCONNECT) (mar_SessionData pb_wire sample_data), SnapshotTick]"

lemma sample_recorded: "all_recorded pb_wire go_json None sample_run sample_start"
  using sample_line
  by (simp add: sample_run_def sample_read replay_agrees_def request_entry_def Let_def sample_start_empty
      load_or_new_def new_Session_def sample_fields sample_env_def go_json_def i64_ok_def i64_min_def i64_max_def
      SessionRouter_Handle_def handleSave_def save_session_def)

lemma sample_result:
  "fmlookup (ss_sessions (fold (sess_step pb_wire go_json None) sample_run sample_start)) 7 =
     Some \<lparr>s_PlayerID = 7, s_GatewayID = ''g'', s_ConnTags = None, s_DisconnectedAt = 100\<rparr>"
  by (simp add: sample_run_def sample_read SessionRouter_Handle_def handleSave_def handleDisconnect_def Let_def
      sample_fields sample_env_def load_or_new_def new_Session_def save_session_def sample_start_empty)

theorem session_restart_witness:
  "fmlookup (ss_sessions (fst (InitStore io_fine go_json sorted_list_of_fset
       (fresh_state (ss_disk (fold (sess_step pb_wire go_json None) sample_run sample_start)))))) 7 =
     Some \<lparr>s_PlayerID = 7, s_GatewayID = ''g'', s_ConnTags = None, s_DisconnectedAt = 100\<rparr>"
  using session_restart [OF sj.session_json_axioms _ _ _ sample_start_def sample_recorded refl] sample_result
  by (simp add: pb_str_ok utf8_ok_def)

section \<open>Failures of the disk\<close>

text \<open>The requests of a run, each with what it meets, and all that is sent.\<close>

fun sess_serve :: "wire \<Rightarrow> json \<Rightarrow> conn list option \<Rightarrow> (sess_env \<times> conn \<times> u32 \<times> bytes) list \<Rightarrow> sess_state \<Rightarrow> sess_state \<times> sent list" where
  "sess_serve w j server [] st = (st, [])"
| "sess_serve w j server ((ev, c, msgID, body) # reqs) st =
     (case SessionRouter_Handle w j ev server c msgID body st of
        (st1, out) \<Rightarrow> (case sess_serve w j server reqs st1 of (st2, out2) \<Rightarrow> (st2, out @ out2)))"

text \<open>Requests that differ at most in the outcome and the time of the journal write.\<close>

definition same_request :: "sess_env \<times> conn \<times> u32 \<times> bytes \<Rightarrow> sess_env \<times> conn \<times> u32 \<times> bytes \<Rightarrow> bool" where
  "same_request x y \<longleftrightarrow> se_now (fst x) = se_now (fst y) \<and> snd x = snd y"

lemma Handle_any_disk:
  assumes "ss_sessions st = ss_sessions st'" "se_now ev = se_now ev'"
  shows "ss_sessions (fst (SessionRouter_Handle w j ev server c msgID body st)) =
      ss_sessions (fst (SessionRouter_Handle w j ev' server c msgID body st'))"
    and "snd (SessionRouter_Handle w j ev server c msgID body st) = snd (SessionRouter_Handle w j ev' server c msgID body st')"
  using assms
  by (auto simp: SessionRouter_Handle_def handleSave_def handleGet_def handleDisconnect_def handleReconnect_def Let_def split: option.split)

text \<open>
  C14: Failures of the disk do not disturb the running service. Whatever the journal writes of
  the two runs meet, and whether the store could be opened at all, the same requests on the
  same sessions give the same sessions and the same messages.
\<close>

theorem disk_failures_harmless:
  assumes "list_all2 same_request xs ys" "ss_sessions st = ss_sessions st'"
  shows "ss_sessions (fst (sess_serve w j server xs st)) = ss_sessions (fst (sess_serve w j server ys st')) \<and>
    snd (sess_serve w j server xs st) = snd (sess_serve w j server ys st')"
  using assms
proof (induction arbitrary: st st' rule: list_all2_induct)
  case (Cons x xs y ys)
  obtain ev c m b ev' where xy: "x = (ev, c, m, b)" "y = (ev', c, m, b)" "se_now ev = se_now ev'"
    using Cons.hyps(1) by (cases x, cases y) (auto simp: same_request_def)
  note step = Handle_any_disk [OF Cons.prems xy(3), of w j server c m b]
  show ?case
    using Cons.IH [OF step(1)] step(2) by (auto simp: xy split: prod.split)
qed simp

theorem disk_failures_harmless_witness:
  "fmlookup (ss_sessions (fst (sess_serve pb_wire go_json None [(sample_env\<lparr>se_io := Some 3\<rparr>, 1, msg_number SESSION_SAVE, mar_SessionData pb_wire sample_data)]
     sample_start))) 7 = fmlookup (ss_sessions (handleSave pb_wire go_json sample_env (mar_SessionData pb_wire sample_data) (sample_start\<lparr>ss_store := None\<rparr>))) 7 \<and>
   fmlookup (ss_sessions (handleSave pb_wire go_json sample_env (mar_SessionData pb_wire sample_data) (sample_start\<lparr>ss_store := None\<rparr>))) 7 \<noteq> None"
proof -
  let ?b = "mar_SessionData pb_wire sample_data"
  have "ss_sessions (fst (sess_serve pb_wire go_json None [(sample_env\<lparr>se_io := Some 3\<rparr>, 1, msg_number SESSION_SAVE, ?b)] sample_start)) =
      ss_sessions (fst (sess_serve pb_wire go_json None [(sample_env, 1, msg_number SESSION_SAVE, ?b)] (sample_start\<lparr>ss_store := None\<rparr>)))"
    using disk_failures_harmless [of "[(sample_env\<lparr>se_io := Some 3\<rparr>, 1, msg_number SESSION_SAVE, ?b)]" "[(sample_env, 1, msg_number SESSION_SAVE, ?b)]"
        sample_start "sample_start\<lparr>ss_store := None\<rparr>" pb_wire go_json None] by (simp add: same_request_def)
  moreover have "sd_PlayerId sample_data = 7"
    by (simp add: sample_data_def)
  ultimately show ?thesis
    using sample_read by (simp add: SessionRouter_Handle_def handleSave_def save_session_def)
qed

section \<open>Behaviour of the handlers\<close>

text \<open>
  What the service saved for a player is what it answers: after a save, the reply to a
  get for the same player decodes to the saved gateway and tags, and says connected.
\<close>

theorem save_then_get:
  assumes "wire_codec w" "unm_SessionData w body = Some d" "unm_SessionData w ask = Some q"
    and "sd_PlayerId q = sd_PlayerId d"
  shows "\<exists>reply. handleGet w c ask (handleSave w j ev body st) = [Sent c (msg_number SESSION_GET) reply] \<and>
    unm_SessionData w reply = Some \<lparr>sd_PlayerId = sd_PlayerId d, sd_GatewayId = sd_GatewayId d,
      sd_ConnTags = sd_ConnTags d, sd_DisconnectedAt = 0\<rparr>"
proof -
  note v = wire_codec.unm_SessionData_valid [OF assms(1,2)]
  have "mnorm (sd_ConnTags d) = sd_ConnTags d"
    using v(3) by (auto simp: mnorm_def mempty_def split: option.splits)
  then show ?thesis
    using v assms(2-4)
    by (simp add: handleGet_def handleSave_def save_session_def Let_def
        wire_codec.SessionData_roundtrip [OF assms(1)])
qed

theorem save_then_get_witness:
  "\<exists>reply. handleGet pb_wire 3 (mar_SessionData pb_wire sample_data)
       (handleSave pb_wire go_json sample_env (mar_SessionData pb_wire sample_data) sample_start)
     = [Sent 3 (msg_number SESSION_GET) reply] \<and>
   unm_SessionData pb_wire reply = Some \<lparr>sd_PlayerId = 7, sd_GatewayId = ''g'', sd_ConnTags = None, sd_DisconnectedAt = 0\<rparr>"
  using save_then_get [OF pb.wire_codec_axioms sample_read sample_read refl, of 3 go_json sample_env sample_start]
  by (simp add: sample_fields)

text \<open>
  A disconnect that arrives from a gateway other than the one the session is at, and a
  reconnect of a player without a session, leave the service exactly as it was.
\<close>

theorem stale_messages_ignored:
  assumes "unm_SessionData w body = Some d"
  shows "(fmlookup (ss_sessions st) (sd_PlayerId d) = Some s \<and> s_GatewayID s \<noteq> '''' \<and> s_GatewayID s \<noteq> sd_GatewayId d
      \<longrightarrow> SessionRouter_Handle w j ev server c (msg_number SESSION_DISCONNECT) body st = (st, [])) \<and>
    (fmlookup (ss_sessions st) (sd_PlayerId d) = None
      \<longrightarrow> SessionRouter_Handle w j ev server c (msg_number SESSION_RECONNECT) body st = (st, []))"
  using assms
  by (auto simp: SessionRouter_Handle_def handleDisconnect_def handleReconnect_def Let_def load_or_new_Some fmupd_same)

theorem stale_messages_ignored_witness:
  "SessionRouter_Handle pb_wire go_json sample_env None 1 (msg_number SESSION_RECONNECT)
     (mar_SessionData pb_wire sample_data) sample_start = (sample_start, [])"
  using stale_messages_ignored [OF sample_read, of sample_start "new_Session 7" go_json sample_env None 1] sample_start_empty
  by simp

text \<open>
  C17: A player who reconnects through another gateway takes the session over: the session
  is connected at the new gateway, keeps its tags unless the request brings tags, the
  caller is told, and every connected gateway is told which gateway is out of date.
\<close>

theorem reconnect_takes_over:
  assumes "wire_codec w" "sessions_valid w (ss_sessions st)" "unm_SessionData w body = Some d"
    and "fmlookup (ss_sessions st) (sd_PlayerId d) = Some s" "s_GatewayID s \<noteq> ''''" "s_GatewayID s \<noteq> sd_GatewayId d"
  shows "\<exists>st' reply inv.
    SessionRouter_Handle w j ev (Some conns) c (msg_number SESSION_RECONNECT) body st =
      (st', Sent c (msg_number SESSION_RECONNECT) reply # map (\<lambda>g. Sent g (msg_number SESSION_INVALIDATE) inv) conns) \<and>
    fmlookup (ss_sessions st') (sd_PlayerId d) = Some \<lparr>s_PlayerID = sd_PlayerId d, s_GatewayID = sd_GatewayId d,
      s_ConnTags = (if sd_ConnTags d = None then s_ConnTags s else sd_ConnTags d), s_DisconnectedAt = 0\<rparr> \<and>
    unm_SessionData w inv = Some \<lparr>sd_PlayerId = sd_PlayerId d, sd_GatewayId = s_GatewayID s,
      sd_ConnTags = None, sd_DisconnectedAt = 0\<rparr>"
proof -
  note v = wire_codec.unm_SessionData_valid [OF assms(1,3)]
  have s: "session_valid w s" "s_PlayerID s = sd_PlayerId d"
    using session_valid_lookup [OF assms(2,4)] sessions_wf_lookup [OF sessions_valid_wf [OF assms(2)] assms(4)] by auto
  have "mempty (sd_ConnTags d) \<longleftrightarrow> sd_ConnTags d = None"
    using v(3) by (cases "sd_ConnTags d") auto
  then show ?thesis
    using s v assms(3-6)
    by (cases s) (auto simp: SessionRouter_Handle_def handleReconnect_def Let_def session_valid_def
        wire_codec.SessionData_roundtrip [OF assms(1)])
qed

definition sample_move :: SessionData where
  "sample_move = \<lparr>sd_PlayerId = 7, sd_GatewayId = ''h'', sd_ConnTags = None, sd_DisconnectedAt = 0\<rparr>"

lemma sample_move_read: "unm_SessionData pb_wire (mar_SessionData pb_wire sample_move) = Some sample_move"
  by (simp add: pb.SessionData_roundtrip sample_move_def i64_ok_def i64_min_def i64_max_def pb_str_ok utf8_ok_def)

definition sample_saved :: sess_state where
  "sample_saved = handleSave pb_wire go_json sample_env (mar_SessionData pb_wire sample_data) sample_start"

theorem reconnect_takes_over_witness:
  "\<exists>st' reply inv.
    SessionRouter_Handle pb_wire go_json sample_env (Some [4, 5]) 5 (msg_number SESSION_RECONNECT)
      (mar_SessionData pb_wire sample_move) sample_saved =
      (st', [Sent 5 (msg_number SESSION_RECONNECT) reply, Sent 4 (msg_number SESSION_INVALIDATE) inv,
             Sent 5 (msg_number SESSION_INVALIDATE) inv]) \<and>
    fmlookup (ss_sessions st') 7 = Some \<lparr>s_PlayerID = 7, s_GatewayID = ''h'', s_ConnTags = None, s_DisconnectedAt = 0\<rparr>"
proof -
  have valid: "sessions_valid pb_wire (ss_sessions sample_saved)"
    unfolding sample_saved_def by (rule pb.handleSave_valid) (simp add: sample_start_empty sessions_valid_def)
  have s: "fmlookup (ss_sessions sample_saved) (sd_PlayerId sample_move) =
      Some \<lparr>s_PlayerID = 7, s_GatewayID = ''g'', s_ConnTags = None, s_DisconnectedAt = 0\<rparr>"
    by (simp add: sample_saved_def handleSave_def sample_read save_session_def sample_fields sample_move_def
        load_or_new_def sample_start_empty new_Session_def)
  from reconnect_takes_over [OF pb.wire_codec_axioms valid sample_move_read s, of go_json sample_env "[4, 5]" 5]
  show ?thesis
    by (auto simp: sample_move_def)
qed

text \<open>Where the replay does something else than the handler.\<close>

lemma replay_differs_from_live:
  assumes "unm_SessionData w body = Some d"
  shows "(fmlookup (ss_sessions st) (sd_PlayerId d) = None \<longrightarrow>
      (\<exists>e. request_entry w ev (msg_number SESSION_DISCONNECT) body (ss_sessions st) = Some e \<and>
         replay_entry e (ss_sessions st) = ss_sessions st \<and>
         fmlookup (live_sessions w j ev server c (msg_number SESSION_DISCONNECT) body st) (sd_PlayerId d) \<noteq> None)) \<and>
    (fmlookup (ss_sessions st) (sd_PlayerId d) = Some s \<and> s_ConnTags s = Some t \<and> sd_ConnTags d = None \<longrightarrow>
      (\<exists>e s1 s2. request_entry w ev (msg_number SESSION_SAVE) body (ss_sessions st) = Some e \<and>
         fmlookup (replay_entry e (ss_sessions st)) (sd_PlayerId d) = Some s1 \<and> s_ConnTags s1 = Some t \<and>
         fmlookup (live_sessions w j ev server c (msg_number SESSION_SAVE) body st) (sd_PlayerId d) = Some s2 \<and>
         s_ConnTags s2 = None))"
  using assms
  by (auto simp: request_entry_def Let_def load_or_new_def new_Session_def replay_entry_ops replay_disconnect_def
      replay_save_def live_sessions_def SessionRouter_Handle_def handleDisconnect_def handleSave_def save_session_def)

text \<open>
  C39: The replay of the journal against the live handlers. Replaying the entry of a request
  has the effect that its handler had exactly when a save carries tags or finds a session
  without tags, and a disconnect finds a session; all other requests agree always. So a
  disconnect of an unknown player and a save that clears the tags are not restored by a
  restart from the journal.
\<close>

theorem replay_equals_live_iff:
  assumes "wire_codec w" "se_now ev \<noteq> 0"
  shows "live_sessions w j ev server c msgID body st =
      (case request_entry w ev msgID body (ss_sessions st) of None \<Rightarrow> ss_sessions st | Some e \<Rightarrow> replay_entry e (ss_sessions st)) \<longleftrightarrow>
    (\<forall>d. unm_SessionData w body = Some d \<longrightarrow>
      (msgID = msg_number SESSION_SAVE \<longrightarrow> sd_ConnTags d \<noteq> None \<or> s_ConnTags (load_or_new (ss_sessions st) (sd_PlayerId d)) = None) \<and>
      (msgID = msg_number SESSION_DISCONNECT \<longrightarrow> fmlookup (ss_sessions st) (sd_PlayerId d) \<noteq> None))"
    (is "?same \<longleftrightarrow> ?agree")
proof
  assume ?agree
  then have "replay_agrees w ev msgID body (ss_sessions st)"
    using assms(2) by (auto simp: replay_agrees_def split: option.split)
  then show ?same
    using wire_codec.unm_SessionData_valid(3) [OF assms(1)]
    by (simp add: live_sessions_def Handle_entry split: option.split)
next
  assume same: ?same
  show ?agree
  proof (intro allI impI conjI)
    fix d
    assume d: "unm_SessionData w body = Some d" and save: "msgID = msg_number SESSION_SAVE"
    show "sd_ConnTags d \<noteq> None \<or> s_ConnTags (load_or_new (ss_sessions st) (sd_PlayerId d)) = None"
    proof (rule ccontr)
      assume "\<not> (sd_ConnTags d \<noteq> None \<or> s_ConnTags (load_or_new (ss_sessions st) (sd_PlayerId d)) = None)"
      then obtain s t where "fmlookup (ss_sessions st) (sd_PlayerId d) = Some s" "s_ConnTags s = Some t" "sd_ConnTags d = None"
        by (auto simp: load_or_new_def new_Session_def split: option.splits)
      then show False
        using replay_differs_from_live [OF d, of st ev j server c s t] same save by auto
    qed
  next
    fix d
    assume d: "unm_SessionData w body = Some d" and disc: "msgID = msg_number SESSION_DISCONNECT"
    show "fmlookup (ss_sessions st) (sd_PlayerId d) \<noteq> None"
    proof
      assume none: "fmlookup (ss_sessions st) (sd_PlayerId d) = None"
      then show False
        using replay_differs_from_live [OF d, of st ev j server c] same disc by auto
    qed
  qed
qed

theorem replay_equals_live_iff_witness:
  "live_sessions pb_wire go_json sample_env None 1 (msg_number SESSION_DISCONNECT) (mar_SessionData pb_wire sample_data) sample_start \<noteq>
     (case request_entry pb_wire sample_env (msg_number SESSION_DISCONNECT) (mar_SessionData pb_wire sample_data) (ss_sessions sample_start) of
        None \<Rightarrow> ss_sessions sample_start | Some e \<Rightarrow> replay_entry e (ss_sessions sample_start))"
proof -
  have "se_now sample_env \<noteq> 0"
    by (simp add: sample_env_def)
  from replay_equals_live_iff [OF pb.wire_codec_axioms this, of go_json None 1 "msg_number SESSION_DISCONNECT" "mar_SessionData pb_wire sample_data" sample_start]
  show ?thesis
    using sample_read sample_start_empty by auto
qed

end
