(* ===== verification/Mains.thy ===== *)
theory Mains
  imports SessionSvr GatewayRoutes
begin

text \<open>
  The main functions of the services (apps/*/cmd/main.go): what each one loads, dials,
  announces and registers before it serves. A main function that panics gives the
  panic. The flags, the configuration file, the outcomes of the connection attempts and
  the files of the store are arguments.
\<close>

section \<open>Servers\<close>

datatype main_panic = LoadPanic load_error | ConfPanic conf_panic

record backend_server =
  bs_Host :: string
  bs_TCPPort :: i64
  bs_identity :: ServiceIdentityRouter
  bs_routers :: router_table

definition new_server :: "string \<Rightarrow> i64 \<Rightarrow> string \<Rightarrow> u32 list \<Rightarrow> u32 list \<Rightarrow> backend_server" where
  "new_server host port service forwardMsgIDs sendMsgIDs = \<lparr>bs_Host = host, bs_TCPPort = port,
     bs_identity = \<lparr>sir_Service = service, sir_ForwardMsgIDs = forwardMsgIDs, sir_SendMsgIDs = sendMsgIDs\<rparr>,
     bs_routers = server_New\<rparr>"

definition AddRouter :: "MsgID \<Rightarrow> router \<Rightarrow> backend_server \<Rightarrow> backend_server" where
  "AddRouter m r s = s\<lparr>bs_routers := bs_routers s @ [(msg_number m, r)]\<rparr>"

text \<open>The configuration and the address of the instance.\<close>

definition load_and_lookup :: "yaml \<Rightarrow> bytes option \<Rightarrow> string \<Rightarrow> string \<Rightarrow> main_panic + Config \<times> string \<times> i64" where
  "load_and_lookup y file service svrID =
     (case Load y file of
        (_, Some e) \<Rightarrow> Inl (LoadPanic e)
      | (cfg, None) \<Rightarrow>
         (case LookupServer (services cfg service) svrID of
            Inl e \<Rightarrow> Inl (ConfPanic e)
          | Inr node \<Rightarrow>
             (case ParseHostPort (sn_Listen node) of
                Inl e \<Rightarrow> Inl (ConfPanic e)
              | Inr (host, port) \<Rightarrow> Inr (cfg, host, port))))"

section \<open>Main functions\<close>

definition chatsvr_main :: "yaml \<Rightarrow> bytes option \<Rightarrow> string \<Rightarrow> main_panic + backend_server" where
  "chatsvr_main y file csID =
     (case load_and_lookup y file SvcChatSvr csID of
        Inl e \<Rightarrow> Inl e
      | Inr (cfg, host, port) \<Rightarrow>
          Inr (AddRouter CHAT_REQ ''ChatRouter''
            (new_server host port SvcChatSvr [msg_number CHAT_REQ] [msg_number CHAT_RESP])))"

definition matchsvr_main :: "yaml \<Rightarrow> bytes option \<Rightarrow> string \<Rightarrow> main_panic + backend_server" where
  "matchsvr_main y file svrID =
     (case load_and_lookup y file SvcMatchSvr svrID of
        Inl e \<Rightarrow> Inl e
      | Inr (cfg, host, port) \<Rightarrow>
          Inr (AddRouter ROOM_DESTROYED_PUSH ''MatchRouter'' (AddRouter MATCH_QUERY_REQ ''MatchRouter''
            (AddRouter MATCH_ALLOCATE_REQ ''MatchRouter'' (AddRouter MATCH_ENTER_REQ ''MatchRouter''
              (new_server host port SvcMatchSvr
                 (map msg_number [MATCH_ENTER_REQ, MATCH_ALLOCATE_REQ, MATCH_QUERY_REQ, ROOM_DESTROYED_PUSH])
                 (map msg_number [MATCH_ENTER_RESP, MATCH_RESULT_PUSH, MATCH_ALLOCATE_RESP, MATCH_QUERY_RESP])))))))"

definition roomsvr_main ::
  "yaml \<Rightarrow> bytes option \<Rightarrow> string \<Rightarrow> conn option list \<Rightarrow> main_panic + backend_server \<times> Registry \<times> props \<times> sent list" where
  "roomsvr_main y file svrID attempts =
     (case load_and_lookup y file SvcRoomSvr svrID of
        Inl e \<Rightarrow> Inl e
      | Inr (cfg, host, port) \<Rightarrow>
         (case RegistryDial cfg SvcMatchSvr [] ByHash attempts (NewRegistry SvcRoomSvr) fmempty of
            Inl e \<Rightarrow> Inl (ConfPanic e)
          | Inr (reg, ps, out) \<Rightarrow>
              Inr (AddRouter ROOM_LEAVE_REQ ''RoomRouter'' (AddRouter ROOM_JOIN_REQ ''RoomRouter''
                (new_server host port SvcRoomSvr
                   (map msg_number [ROOM_JOIN_REQ, ROOM_LEAVE_REQ])
                   (map msg_number [ROOM_JOIN_RESP, ROOM_LEAVE_RESP, ROOM_EVENT_PUSH]))), reg, ps, out)))"

text \<open>
  The store is opened before the other services are dialled; an error of the store is only
  logged. The two dials share the connection properties.
\<close>

definition sessionsvr_main ::
  "yaml \<Rightarrow> bytes option \<Rightarrow> string \<Rightarrow> open_io \<Rightarrow> json \<Rightarrow> range_order \<Rightarrow> conn option list \<Rightarrow> conn option list \<Rightarrow> sess_state
   \<Rightarrow> main_panic + backend_server \<times> sess_state \<times> Registry \<times> props \<times> sent list" where
  "sessionsvr_main y file svrID io j rng rooms matches st =
     (case load_and_lookup y file SvcSessionSvr svrID of
        Inl e \<Rightarrow> Inl e
      | Inr (cfg, host, port) \<Rightarrow>
          let st1 = fst (InitStore io j rng st)
          in case RegistryDial cfg SvcRoomSvr [] ByHash rooms (NewRegistry SvcSessionSvr) fmempty of
               Inl e \<Rightarrow> Inl (ConfPanic e)
             | Inr (reg1, ps1, out1) \<Rightarrow>
                (case RegistryDial cfg SvcMatchSvr [] ByHash matches reg1 ps1 of
                   Inl e \<Rightarrow> Inl (ConfPanic e)
                 | Inr (reg2, ps2, out2) \<Rightarrow>
                     Inr (AddRouter SESSION_RECONNECT ''SessionRouter'' (AddRouter SESSION_DISCONNECT ''SessionRouter''
                       (AddRouter SESSION_GET ''SessionRouter'' (AddRouter SESSION_SAVE ''SessionRouter''
                         (new_server host port SvcSessionSvr [] [])))), st1, reg2, ps2, out1 @ out2)))"

definition gateway_main ::
  "yaml \<Rightarrow> bytes option \<Rightarrow> string \<Rightarrow> string list \<Rightarrow> string list \<Rightarrow> (string \<Rightarrow> conn option list) \<Rightarrow> main_panic + GatewayServer \<times> sent list" where
  "gateway_main y file gwID order dials att =
     (case gateway_New y file gwID order dials att of
        Inl e \<Rightarrow> Inl (LoadPanic e)
      | Inr (Inl e) \<Rightarrow> Inl (ConfPanic e)
      | Inr (Inr started) \<Rightarrow> Inr started)"

section \<open>What is served\<close>

definition serves :: "backend_server \<Rightarrow> MsgID \<Rightarrow> bool" where
  "serves s m \<longleftrightarrow> msg_number m \<in> fst ` set (bs_routers s)"

lemmas main_defs = chatsvr_main_def matchsvr_main_def roomsvr_main_def sessionsvr_main_def new_server_def AddRouter_def
  server_New_def serves_def

text \<open>
  Every backend that starts registers each message number once, where a second
  registration would panic, and has a router for exactly the numbers it announces to the
  gateways, besides the ping and identity numbers.
\<close>

theorem mains_serve_announced:
  assumes "chatsvr_main y file csID = Inr cs" "matchsvr_main y file msID = Inr ms"
    and "roomsvr_main y file rsID attempts = Inr (rs, reg, ps, out)" "s \<in> {cs, ms, rs}"
  shows "map fst (bs_routers s) = msg_number PING # msg_number SERVICE_IDENTITY # sir_ForwardMsgIDs (bs_identity s) \<and>
    distinct (map fst (bs_routers s))"
  using assms by (auto simp: main_defs split: sum.splits prod.splits)

text \<open>
  The services never handle the messages about expired and restored sessions: a started
  room service has no router for the force-leave and the reconnected message, and a
  started match service none for the force-leave-queue message, although their handlers
  exist, and the session service and the gateway send these messages.
\<close>

theorem session_messages_unserved:
  assumes "matchsvr_main y file msID = Inr ms" "roomsvr_main y file rsID attempts = Inr (rs, reg, ps, out)"
  shows "\<not> serves rs SESSION_FORCE_LEAVE \<and> \<not> serves rs SESSION_RECONNECTED \<and> \<not> serves ms SESSION_FORCE_LEAVE_QUEUE"
  using assms by (auto simp: main_defs split: sum.splits prod.splits)

section \<open>Witnesses\<close>

definition one_node :: "ServerNode list" where
  "one_node = [\<lparr>sn_ID = ''i'', sn_TCPListen = '''', sn_WSListen = '''', sn_Listen = ''gs:1'', sn_PublicAddr = ''''\<rparr>]"

definition one_of_each :: yaml where
  "one_of_each b cfg = (cfg\<lparr>cf_Services := fmupd SvcChatSvr one_node (fmupd SvcMatchSvr one_node (fmupd SvcRoomSvr one_node fmempty))\<rparr>, True)"

lemma one_of_each_lookup:
  "load_and_lookup one_of_each (Some []) SvcChatSvr '''' = Inr (fst (one_of_each [] empty_Config), ''gs'', 1)"
  "load_and_lookup one_of_each (Some []) SvcMatchSvr '''' = Inr (fst (one_of_each [] empty_Config), ''gs'', 1)"
  "load_and_lookup one_of_each (Some []) SvcRoomSvr '''' = Inr (fst (one_of_each [] empty_Config), ''gs'', 1)"
proof -
  have "ParseHostPort ''gs:1'' = Inr (''gs'', 1)" by (simp add: addr_defs)
  then show
    "load_and_lookup one_of_each (Some []) SvcChatSvr '''' = Inr (fst (one_of_each [] empty_Config), ''gs'', 1)"
    "load_and_lookup one_of_each (Some []) SvcMatchSvr '''' = Inr (fst (one_of_each [] empty_Config), ''gs'', 1)"
    "load_and_lookup one_of_each (Some []) SvcRoomSvr '''' = Inr (fst (one_of_each [] empty_Config), ''gs'', 1)"
    by (simp_all add: load_and_lookup_def Load_def one_of_each_def services_def LookupServer_def one_node_def
        SvcChatSvr_def SvcMatchSvr_def SvcRoomSvr_def)
qed

lemma one_of_each_mains:
  "\<exists>cs. chatsvr_main one_of_each (Some []) '''' = Inr cs" "\<exists>ms. matchsvr_main one_of_each (Some []) '''' = Inr ms"
  "\<exists>rs reg ps out. roomsvr_main one_of_each (Some []) '''' [Some 1] = Inr (rs, reg, ps, out)"
proof -
  have "ParseHostPort ''gs:1'' = Inr (''gs'', 1)" by (simp add: addr_defs)
  moreover have "services (fst (one_of_each [] empty_Config)) SvcMatchSvr = one_node"
    by (simp add: one_of_each_def services_def SvcChatSvr_def SvcMatchSvr_def)
  ultimately show
    "\<exists>cs. chatsvr_main one_of_each (Some []) '''' = Inr cs" "\<exists>ms. matchsvr_main one_of_each (Some []) '''' = Inr ms"
    "\<exists>rs reg ps out. roomsvr_main one_of_each (Some []) '''' [Some 1] = Inr (rs, reg, ps, out)"
    by (simp_all add: chatsvr_main_def matchsvr_main_def roomsvr_main_def one_of_each_lookup RegistryDial_def Dial_def Let_def one_node_def)
qed

theorem mains_serve_announced_witness:
  "\<exists>cs. chatsvr_main one_of_each (Some []) '''' = Inr cs \<and> map fst (bs_routers cs) = [1, 1001, 5]"
proof -
  obtain cs ms rs reg ps out where run: "chatsvr_main one_of_each (Some []) '''' = Inr cs"
      "matchsvr_main one_of_each (Some []) '''' = Inr ms" "roomsvr_main one_of_each (Some []) '''' [Some 1] = Inr (rs, reg, ps, out)"
    using one_of_each_mains by blast
  have "sir_ForwardMsgIDs (bs_identity cs) = [5]"
    using run(1) by (simp add: one_of_each_lookup chatsvr_main_def new_server_def AddRouter_def) auto
  then show ?thesis
    using mains_serve_announced [OF run, of cs] run(1) by simp
qed

theorem session_messages_unserved_witness:
  "\<exists>ms rs reg ps out. matchsvr_main one_of_each (Some []) '''' = Inr ms \<and>
     roomsvr_main one_of_each (Some []) '''' [Some 1] = Inr (rs, reg, ps, out) \<and> \<not> serves rs SESSION_FORCE_LEAVE"
  using one_of_each_mains session_messages_unserved by blast

end
