(* ===== verification/SvcHelper.thy ===== *)
theory SvcHelper
  imports Conf Auth Discovery
begin

text \<open>
  tools/svchelper: the command line helper that builds, starts, stops and lists the
  services. Every use it makes of the system is a \<open>call\<close>; a run is a function of the list of
  the calls so far, oldest first, and gives the longer list. What the system answers to
  a call is the parameter \<open>os\<close>, which sees all calls so far, so that two calls may be answered
  differently. A run that ends in os.Exit(1) or a panic has no result. Progress and error
  messages are left out, the output of the query commands is kept.
\<close>

section \<open>The system\<close>

datatype status_line =
    Down string string
  | Up string string
  | Link string string i64

datatype call =
    RangeServices
  | RangeGRPC
  | RangePids
  | ReadDir string
  | Stat string
  | Netstat
  | ReadFile string
  | MkdirAll string
  | OpenLog string
  | Run "string list" string "string list"
  | Start string "string list" string
  | FindProcess i64
  | Kill i64
  | Sleep nat
  | WriteFile string bytes
  | Now
  | Post string bytes
  | Print string
  | Status status_line

datatype stat = Exists | NotExists | StatError

record os =
  os_services :: "call list \<Rightarrow> string list"
  os_grpc :: "call list \<Rightarrow> string list"
  os_pids :: "call list \<Rightarrow> i64 list"
  os_dir :: "call list \<Rightarrow> (string \<times> bool) list"
  os_stat :: "call list \<Rightarrow> stat"
  os_netstat :: "call list \<Rightarrow> string \<times> bool"
  os_file :: "call list \<Rightarrow> bytes option"
  os_run :: "call list \<Rightarrow> bool"
  os_start :: "call list \<Rightarrow> i64 option"
  os_process :: "call list \<Rightarrow> bool"
  os_now :: "call list \<Rightarrow> i64"
  os_post :: "call list \<Rightarrow> bytes option"
  os_windows :: bool

type_synonym 'a act = "call list \<Rightarrow> 'a option \<times> call list"

definition ret :: "'a \<Rightarrow> 'a act" where
  "ret a h = (Some a, h)"

definition exit1 :: "'a act" where
  "exit1 h = (None, h)"

definition bnd :: "'a act \<Rightarrow> ('a \<Rightarrow> 'b act) \<Rightarrow> 'b act" where
  "bnd m f h = (case m h of (None, h') \<Rightarrow> (None, h') | (Some a, h') \<Rightarrow> f a h')"

definition thn :: "unit act \<Rightarrow> 'b act \<Rightarrow> 'b act" where
  "thn m m' = bnd m (\<lambda>_. m')"

definition tell :: "call \<Rightarrow> unit act" where
  "tell c h = (Some (), h @ [c])"

definition ask :: "(call list \<Rightarrow> 'a) \<Rightarrow> call \<Rightarrow> 'a act" where
  "ask q c h = (Some (q (h @ [c])), h @ [c])"

text \<open>A function of the configuration package that may panic.\<close>

definition checked :: "conf_panic + 'a \<Rightarrow> 'a act" where
  "checked r = (case r of Inl _ \<Rightarrow> exit1 | Inr a \<Rightarrow> ret a)"

fun each :: "('a \<Rightarrow> unit act) \<Rightarrow> 'a list \<Rightarrow> unit act" where
  "each f [] = ret ()"
| "each f (x # xs) = thn (f x) (each f xs)"

section \<open>Strings\<close>

definition Contains :: "string \<Rightarrow> string \<Rightarrow> bool" where
  "Contains s sub \<longleftrightarrow> sublist sub s"

text \<open>strings.Fields on ASCII text, which netstat prints.\<close>

definition is_space :: "char \<Rightarrow> bool" where
  "is_space c \<longleftrightarrow> c = CHR 0x20 \<or> c = CHR 0x09 \<or> c = CHR 0x0A \<or> c = CHR 0x0B \<or> c = CHR 0x0C \<or> c = CHR 0x0D"

fun fields_of :: "string \<Rightarrow> string \<Rightarrow> string list" where
  "fields_of acc [] = (if acc = [] then [] else [acc])"
| "fields_of acc (c # cs) =
     (if is_space c then (if acc = [] then fields_of [] cs else acc # fields_of [] cs)
      else fields_of (acc @ [c]) cs)"

definition Fields :: "string \<Rightarrow> string list" where
  "Fields s = fields_of [] s"

section \<open>Looking up the configuration\<close>

record svc_inst =
  in_svc :: string
  in_id :: string
  in_port :: i64

definition listenAddr :: "ServerNode \<Rightarrow> string" where
  "listenAddr n = (if sn_WSListen n \<noteq> '''' then sn_WSListen n else sn_Listen n)"

text \<open>
  The functions that range over the configured services take the order of the range as
  their second argument.
\<close>

fun find_node :: "Config \<Rightarrow> string list \<Rightarrow> string \<Rightarrow> string \<times> ServerNode option" where
  "find_node cfg [] sid = ('''', None)"
| "find_node cfg (svc # order) sid =
     (case find (\<lambda>n. sn_ID n = sid) (services cfg svc) of
        Some n \<Rightarrow> (svc, Some n)
      | None \<Rightarrow> find_node cfg order sid)"

definition findServiceNode :: "os \<Rightarrow> Config \<Rightarrow> string \<Rightarrow> (string \<times> ServerNode option) act" where
  "findServiceNode sys cfg sid = bnd (ask (os_services sys) RangeServices) (\<lambda>order. ret (find_node cfg order sid))"

fun node_insts :: "string \<Rightarrow> ServerNode list \<Rightarrow> conf_panic + svc_inst list" where
  "node_insts svc [] = Inr []"
| "node_insts svc (n # ns) =
     (if sn_ID n = '''' then node_insts svc ns
      else case ParseHostPort (listenAddr n) of
        Inl e \<Rightarrow> Inl e
      | Inr (_, p) \<Rightarrow> map_sum id ((#) \<lparr>in_svc = svc, in_id = sn_ID n, in_port = p\<rparr>) (node_insts svc ns))"

fun split_insts :: "Config \<Rightarrow> string list \<Rightarrow> conf_panic + svc_inst list \<times> svc_inst list" where
  "split_insts cfg [] = Inr ([], [])"
| "split_insts cfg (svc # order) =
     (case node_insts svc (services cfg svc) of
        Inl e \<Rightarrow> Inl e
      | Inr insts \<Rightarrow> map_sum id (\<lambda>(backends, gateways).
          if svc = SvcGateway then (backends, insts @ gateways) else (insts @ backends, gateways)) (split_insts cfg order))"

definition listInstances :: "os \<Rightarrow> Config \<Rightarrow> svc_inst list act" where
  "listInstances sys cfg = bnd (ask (os_services sys) RangeServices) (\<lambda>order.
     checked (map_sum id (\<lambda>(backends, gateways). backends @ gateways) (split_insts cfg order)))"

definition isGRPCService :: "Config \<Rightarrow> string \<Rightarrow> bool" where
  "isGRPCService cfg svc \<longleftrightarrow> fmlookup (cf_GRPC cfg) svc \<noteq> None"

definition grpcPort :: "Config \<Rightarrow> string \<Rightarrow> i64" where
  "grpcPort cfg svc = (case fmlookup (cf_GRPC cfg) svc of None \<Rightarrow> 0 | Some c \<Rightarrow> grpc_Port c)"

section \<open>Building\<close>

definition exeExt :: "os \<Rightarrow> string" where
  "exeExt sys = (if os_windows sys then ''.exe'' else '''')"

text \<open>The services of one directory below apps.\<close>

fun nested_services :: "os \<Rightarrow> string \<Rightarrow> (string \<times> bool) list \<Rightarrow> string list act" where
  "nested_services sys d [] = ret []"
| "nested_services sys d ((e, isdir) # es) =
     (if isdir then bnd (ask (os_stat sys) (Stat (''apps/'' @ d @ ''/'' @ e @ ''/cmd''))) (\<lambda>st.
        bnd (nested_services sys d es) (\<lambda>rest. ret (if st = Exists then e # rest else rest)))
      else nested_services sys d es)"

fun discover_dirs :: "os \<Rightarrow> (string \<times> bool) list \<Rightarrow> string list act" where
  "discover_dirs sys [] = ret []"
| "discover_dirs sys ((d, isdir) # ds) =
     (if \<not> isdir then discover_dirs sys ds
      else bnd (ask (os_stat sys) (Stat (''apps/'' @ d @ ''/cmd''))) (\<lambda>st.
        if st = Exists then bnd (discover_dirs sys ds) (\<lambda>rest. ret (d # rest))
        else bnd (ask (os_dir sys) (ReadDir (''apps/'' @ d))) (\<lambda>entries.
          bnd (nested_services sys d entries) (\<lambda>svcs.
          bnd (discover_dirs sys ds) (\<lambda>rest. ret (svcs @ rest))))))"

definition discoverServices :: "os \<Rightarrow> string list act" where
  "discoverServices sys = bnd (ask (os_dir sys) (ReadDir ''apps'')) (discover_dirs sys)"

fun nested_path :: "os \<Rightarrow> string \<Rightarrow> (string \<times> bool) list \<Rightarrow> string option act" where
  "nested_path sys svc [] = ret None"
| "nested_path sys svc ((d, isdir) # ds) =
     (if \<not> isdir then nested_path sys svc ds
      else bnd (ask (os_stat sys) (Stat (''apps/'' @ d @ ''/'' @ svc @ ''/cmd''))) (\<lambda>st.
        if st = Exists then ret (Some (''apps/'' @ d @ ''/'' @ svc @ ''/cmd''))
        else nested_path sys svc ds))"

text \<open>The empty string when there is no path.\<close>

definition findServicePath :: "os \<Rightarrow> string \<Rightarrow> string act" where
  "findServicePath sys svc = bnd (ask (os_dir sys) (ReadDir ''apps'')) (\<lambda>domains.
     bnd (nested_path sys svc domains) (\<lambda>r. case r of
       Some p \<Rightarrow> ret p
     | None \<Rightarrow> bnd (ask (os_stat sys) (Stat (''apps/'' @ svc @ ''/cmd''))) (\<lambda>st.
         ret (if st = Exists then ''apps/'' @ svc @ ''/cmd'' else ''''))))"

definition buildSelf :: "os \<Rightarrow> unit act" where
  "buildSelf sys = bnd (ask (os_run sys) (Run [] ''go'' [''build'', ''-o'', ''bin/svchelper'' @ exeExt sys, ''./tools/svchelper/''])) (\<lambda>_. ret ())"

text \<open>Runs a command and exits when it fails.\<close>

definition must_run :: "os \<Rightarrow> string list \<Rightarrow> string \<Rightarrow> string list \<Rightarrow> unit act" where
  "must_run sys env cmd args = bnd (ask (os_run sys) (Run env cmd args)) (\<lambda>ok. if ok then ret () else exit1)"

definition buildOne :: "os \<Rightarrow> string \<Rightarrow> unit act" where
  "buildOne sys svc = bnd (findServicePath sys svc) (\<lambda>path.
     if path = '''' then exit1
     else must_run sys [] ''go'' [''build'', ''-o'', ''bin/'' @ svc @ exeExt sys, ''./'' @ path])"

definition doBuild :: "os \<Rightarrow> Config \<Rightarrow> string \<Rightarrow> unit act" where
  "doBuild sys cfg target =
     (if target = ''all'' then bnd (discoverServices sys) (\<lambda>svcs. thn (each (buildOne sys) svcs) (buildSelf sys))
      else bnd (discoverServices sys) (\<lambda>svcs.
        if target \<in> set svcs then buildOne sys target
        else bnd (findServiceNode sys cfg target) (\<lambda>(svc, _).
          if svc = '''' then bnd (discoverServices sys) (\<lambda>_. exit1) else buildOne sys svc)))"

section \<open>Ports\<close>

definition port_pattern :: "i64 \<Rightarrow> string" where
  "port_pattern port = '':'' @ FormatInt port @ '' ''"

definition portOccupied :: "os \<Rightarrow> i64 \<Rightarrow> bool act" where
  "portOccupied sys port = bnd (ask (os_netstat sys) Netstat) (\<lambda>(out, _).
     ret (Contains out (port_pattern port) \<and> Contains out ''LISTENING''))"

fun pid_of_lines :: "i64 \<Rightarrow> string list \<Rightarrow> i64" where
  "pid_of_lines port [] = 0"
| "pid_of_lines port (line # lines) =
     (if Contains line (port_pattern port) \<and> Contains line ''LISTENING'' \<and> 5 \<le> length (Fields line)
      then fst (Atoi (last (Fields line)))
      else pid_of_lines port lines)"

definition findPIDByPort :: "os \<Rightarrow> i64 \<Rightarrow> i64 act" where
  "findPIDByPort sys port = bnd (ask (os_netstat sys) Netstat) (\<lambda>(out, ok).
     ret (if \<not> ok then 0 else pid_of_lines port (split_on (CHR 0x0A) out)))"

section \<open>Starting\<close>

definition printLogTail :: "os \<Rightarrow> string \<Rightarrow> unit act" where
  "printLogTail sys path = bnd (ask (os_file sys) (ReadFile path)) (\<lambda>r. case r of
     None \<Rightarrow> ret ()
   | Some data \<Rightarrow>
       (let lines = split_on (CHR 0x0A) data
        in each (\<lambda>l. tell (Print l)) (drop (if 6 < length lines then length lines - 6 else 0) lines)))"

text \<open>
  The wait for the port of a started process, at most \<open>n\<close> times 400 milliseconds; then the
  process is killed and the helper exits.
\<close>

fun poll_port :: "os \<Rightarrow> nat \<Rightarrow> string \<Rightarrow> i64 \<Rightarrow> i64 \<Rightarrow> string \<Rightarrow> unit act" where
  "poll_port sys 0 svc port pid logPath = thn (tell (Kill pid)) (thn (printLogTail sys logPath) exit1)"
| "poll_port sys (Suc n) svc port pid logPath = thn (tell (Sleep 400)) (bnd (portOccupied sys port) (\<lambda>occ.
     if occ then thn (tell (MkdirAll ''bin/.pids'')) (tell (WriteFile (''bin/.pids/'' @ svc @ ''.pid'') (FormatInt pid)))
     else poll_port sys n svc port pid logPath))"

definition build_if_missing :: "os \<Rightarrow> string \<Rightarrow> unit act" where
  "build_if_missing sys svc = bnd (ask (os_stat sys) (Stat (''bin/'' @ svc @ exeExt sys))) (\<lambda>st.
     if st = NotExists then buildOne sys svc else ret ())"

definition log_path :: "string \<Rightarrow> string \<Rightarrow> string" where
  "log_path svc sid = ''log/'' @ (if sid \<noteq> '''' then svc @ ''-'' @ sid else svc) @ ''.log''"

text \<open>Starts the binary with its output in the log file; the identifier of the process.\<close>

definition launch :: "os \<Rightarrow> string \<Rightarrow> string list \<Rightarrow> string \<Rightarrow> i64 act" where
  "launch sys svc args logPath = thn (tell (OpenLog logPath))
     (bnd (ask (os_start sys) (Start (''bin/'' @ svc @ exeExt sys) args logPath)) (\<lambda>r. case r of
        None \<Rightarrow> exit1
      | Some pid \<Rightarrow> ret pid))"

text \<open>The path of the configuration file that startGRPCService passes on.\<close>

definition service_conf :: "os \<Rightarrow> string \<Rightarrow> string act" where
  "service_conf sys svc = bnd (findServicePath sys svc) (\<lambda>p.
     if p = '''' then ret ''config.yml''
     else bnd (ask (os_stat sys) (Stat (take (length p - 4) p @ ''config.yml''))) (\<lambda>st.
       ret (if st = Exists then take (length p - 4) p @ ''config.yml'' else ''config.yml'')))"

definition startGRPCService :: "os \<Rightarrow> Config \<Rightarrow> string \<Rightarrow> string \<Rightarrow> unit act" where
  "startGRPCService sys cfg svc sid =
     (let port = grpcPort cfg svc; logPath = log_path svc sid
      in bnd (if 0 < port then portOccupied sys port else ret False) (\<lambda>occ.
        if occ then ret ()
        else thn (build_if_missing sys svc) (thn (tell (MkdirAll ''log''))
          (bnd (service_conf sys svc) (\<lambda>confPath.
           bnd (launch sys svc [''-conf'', confPath] logPath) (\<lambda>pid.
           if port = 0 then ret () else poll_port sys 20 svc port pid logPath))))))"

definition startOne :: "os \<Rightarrow> Config \<Rightarrow> string \<Rightarrow> string \<Rightarrow> i64 \<Rightarrow> string \<Rightarrow> unit act" where
  "startOne sys cfg svc sid port configPath =
     (if isGRPCService cfg svc then startGRPCService sys cfg svc sid
      else bnd (portOccupied sys port) (\<lambda>occ.
        if occ then ret ()
        else thn (build_if_missing sys svc) (thn (tell (MkdirAll ''log''))
          (bnd (launch sys svc ([''-conf'', configPath] @ (if sid \<noteq> '''' then [''-id'', sid] else [])) (log_path svc sid)) (\<lambda>pid.
           poll_port sys 20 svc port pid (log_path svc sid))))))"

text \<open>The node of an instance identifier and its port, or the end of the helper.\<close>

definition target_port :: "os \<Rightarrow> Config \<Rightarrow> string \<Rightarrow> (string \<times> i64) act" where
  "target_port sys cfg target = bnd (findServiceNode sys cfg target) (\<lambda>(svc, node).
     if svc = '''' then exit1
     else case node of
       None \<Rightarrow> exit1
     | Some n \<Rightarrow> bnd (checked (ParseHostPort (listenAddr n))) (\<lambda>(_, port). ret (svc, port)))"

definition doStart :: "os \<Rightarrow> Config \<Rightarrow> string \<Rightarrow> string \<Rightarrow> unit act" where
  "doStart sys cfg target configPath =
     (if target = ''all'' then bnd (listInstances sys cfg)
        (each (\<lambda>i. thn (startOne sys cfg (in_svc i) (in_id i) (in_port i) configPath) (tell (Sleep 1000))))
      else if isGRPCService cfg target then startOne sys cfg target target 0 configPath
      else bnd (target_port sys cfg target) (\<lambda>(svc, port). startOne sys cfg svc target port configPath))"

section \<open>Stopping\<close>

definition killByPort :: "os \<Rightarrow> i64 \<Rightarrow> unit act" where
  "killByPort sys port = bnd (findPIDByPort sys port) (\<lambda>pid.
     if 0 < pid then bnd (ask (os_process sys) (FindProcess pid)) (\<lambda>ok.
       if ok then thn (tell (Kill pid)) (tell (Sleep 300)) else exit1)
     else ret ())"

definition doStop :: "os \<Rightarrow> Config \<Rightarrow> string \<Rightarrow> unit act" where
  "doStop sys cfg target =
     (if target = ''all'' then bnd (listInstances sys cfg) (\<lambda>insts.
        thn (each (\<lambda>i. killByPort sys (in_port i)) insts)
          (bnd (ask (os_grpc sys) RangeGRPC)
            (each (\<lambda>svc. if 0 < grpcPort cfg svc then killByPort sys (grpcPort cfg svc) else ret ()))))
      else if isGRPCService cfg target then
        (if 0 < grpcPort cfg target then killByPort sys (grpcPort cfg target) else ret ())
      else bnd (target_port sys cfg target) (\<lambda>(_, port). killByPort sys port))"

section \<open>Docker\<close>

definition image_name :: "string \<Rightarrow> string \<Rightarrow> string \<Rightarrow> string" where
  "image_name registry svc version = registry @ ''/cardwar/'' @ svc @ '':'' @ version"

definition doDockerBuild :: "os \<Rightarrow> string \<Rightarrow> string \<Rightarrow> string \<Rightarrow> unit act" where
  "doDockerBuild sys svc version registry = bnd (findServicePath sys svc) (\<lambda>path.
     if path = '''' then exit1
     else let dockerfile = take (length path - 4) path @ ''/Dockerfile''
       in bnd (ask (os_stat sys) (Stat dockerfile)) (\<lambda>st.
         if st = NotExists then exit1
         else thn (must_run sys [''GOOS=linux'', ''CGO_ENABLED=0''] ''go''
                [''build'', ''-mod=vendor'', ''-ldflags=-s -w'', ''-o'', ''bin/'' @ svc @ ''-linux'', ''./'' @ path])
              (must_run sys [] ''docker'' [''build'', ''-f'', dockerfile,
                ''-t'', image_name registry svc version, ''-t'', image_name registry svc ''latest'', ''.''])))"

definition doDockerPush :: "os \<Rightarrow> string \<Rightarrow> string \<Rightarrow> string \<Rightarrow> unit act" where
  "doDockerPush sys svc version registry = must_run sys [] ''docker'' [''push'', image_name registry svc version]"

definition doDockerUp :: "os \<Rightarrow> string \<Rightarrow> unit act" where
  "doDockerUp sys svc = must_run sys [] ''docker''
     ([''compose'', ''up'', ''-d'', ''--pull'', ''always''] @ (if svc \<noteq> ''all'' then [svc] else []))"

definition doDockerDown :: "os \<Rightarrow> string \<Rightarrow> unit act" where
  "doDockerDown sys svc = must_run sys [] ''docker''
     ([''compose'', ''down''] @ (if svc \<noteq> ''all'' then [svc] else []))"

section \<open>The status command\<close>

record svcInstance =
  si_id :: string
  si_svc :: string
  si_port :: i64
  si_wsPort :: i64
  si_tcpPort :: i64

definition svc_instance :: "string \<Rightarrow> ServerNode \<Rightarrow> conf_panic + svcInstance" where
  "svc_instance svc n =
     (if svc = SvcGateway then
        (case ParseHostPort (sn_WSListen n) of
           Inl e \<Rightarrow> Inl e
         | Inr (_, ws) \<Rightarrow> (case ParseHostPort (sn_TCPListen n) of
             Inl e \<Rightarrow> Inl e
           | Inr (_, tcp) \<Rightarrow> Inr \<lparr>si_id = sn_ID n, si_svc = svc, si_port = 0, si_wsPort = ws, si_tcpPort = tcp\<rparr>))
      else (case ParseHostPort (sn_Listen n) of
        Inl e \<Rightarrow> Inl e
      | Inr (_, p) \<Rightarrow> Inr \<lparr>si_id = sn_ID n, si_svc = svc, si_port = p, si_wsPort = 0, si_tcpPort = 0\<rparr>))"

fun svc_instances :: "string \<Rightarrow> ServerNode list \<Rightarrow> conf_panic + svcInstance list" where
  "svc_instances svc [] = Inr []"
| "svc_instances svc (n # ns) =
     (case svc_instance svc n of Inl e \<Rightarrow> Inl e | Inr i \<Rightarrow> map_sum id ((#) i) (svc_instances svc ns))"

definition listInstancesOf :: "Config \<Rightarrow> string \<Rightarrow> conf_panic + svcInstance list" where
  "listInstancesOf cfg svc = svc_instances svc (services cfg svc)"

fun ordered_insts :: "Config \<Rightarrow> string list \<Rightarrow> conf_panic + svcInstance list \<times> svcInstance list" where
  "ordered_insts cfg [] = Inr ([], [])"
| "ordered_insts cfg (svc # order) =
     (case svc_instances svc (services cfg svc) of
        Inl e \<Rightarrow> Inl e
      | Inr insts \<Rightarrow> map_sum id (\<lambda>(backends, gateways).
          if svc = SvcGateway then (backends, insts @ gateways) else (insts @ backends, gateways)) (ordered_insts cfg order))"

definition listInstancesOrdered :: "os \<Rightarrow> Config \<Rightarrow> svcInstance list act" where
  "listInstancesOrdered sys cfg = bnd (ask (os_services sys) RangeServices) (\<lambda>order.
     checked (map_sum id (\<lambda>(backends, gateways). backends @ gateways) (ordered_insts cfg order)))"

fun connPID :: "string list \<Rightarrow> i64 \<Rightarrow> i64 \<Rightarrow> bool" where
  "connPID [] pid port \<longleftrightarrow> False"
| "connPID (line # nets) pid port \<longleftrightarrow>
     Contains line ('':'' @ FormatInt port) \<and> Contains line ''ESTABLISHED'' \<and> Contains line (FormatInt pid)
     \<or> connPID nets pid port"

definition connState :: "string list \<Rightarrow> i64 \<Rightarrow> i64 \<Rightarrow> string" where
  "connState nets pid port = (if connPID nets pid port then ''ESTABLISHED'' else ''NOT CONNECTED'')"

text \<open>The instances of all services but the gateways, by service.\<close>

fun groupByService :: "Config \<Rightarrow> string list \<Rightarrow> conf_panic + (string, svcInstance list) fmap" where
  "groupByService cfg [] = Inr fmempty"
| "groupByService cfg (svc # order) =
     (if svc = SvcGateway then groupByService cfg order
      else case listInstancesOf cfg svc of
        Inl e \<Rightarrow> Inl e
      | Inr insts \<Rightarrow> map_sum id (\<lambda>m. fmupd svc insts m) (groupByService cfg order))"

record running =
  portPid :: "(i64, i64) fmap"
  pidInfo :: "(i64, svc_inst) fmap"

fun scan_nodes :: "os \<Rightarrow> string \<Rightarrow> ServerNode list \<Rightarrow> running \<Rightarrow> running act" where
  "scan_nodes sys svc [] r = ret r"
| "scan_nodes sys svc (n # ns) r =
     (if sn_ID n = '''' then scan_nodes sys svc ns r
      else bnd (checked (ParseHostPort (listenAddr n))) (\<lambda>(_, p).
        bnd (findPIDByPort sys p) (\<lambda>pid.
        scan_nodes sys svc ns (r\<lparr>portPid := fmupd p pid (portPid r),
          pidInfo := (if 0 < pid then fmupd pid \<lparr>in_svc = svc, in_id = sn_ID n, in_port = p\<rparr> (pidInfo r) else pidInfo r)\<rparr>))))"

fun scan_services :: "os \<Rightarrow> Config \<Rightarrow> string list \<Rightarrow> running \<Rightarrow> running act" where
  "scan_services sys cfg [] r = ret r"
| "scan_services sys cfg (svc # order) r = bnd (scan_nodes sys svc (services cfg svc) r) (scan_services sys cfg order)"

definition link_key :: "string \<Rightarrow> string \<Rightarrow> string" where
  "link_key a b = a @ [CHR 0xE2, CHR 0x86, CHR 0x92] @ b"

text \<open>The connections of one running instance; the result is the set of the links printed.\<close>

fun show_links :: "string list \<Rightarrow> running \<Rightarrow> svcInstance \<Rightarrow> i64 \<Rightarrow> i64 list \<Rightarrow> string set \<Rightarrow> string set act" where
  "show_links nets r inst pid [] printed = ret printed"
| "show_links nets r inst pid (other # others) printed =
     (case fmlookup (pidInfo r) other of
        None \<Rightarrow> show_links nets r inst pid others printed
      | Some info \<Rightarrow>
          (let key = link_key (si_id inst) (in_id info)
           in if other = pid \<or> \<not> connPID nets pid (in_port info) \<or> key \<in> printed
              then show_links nets r inst pid others printed
              else thn (tell (Status (Link (in_id info) (in_svc info) (in_port info))))
                (show_links nets r inst pid others (insert key printed))))"

fun show_insts :: "os \<Rightarrow> string list \<Rightarrow> running \<Rightarrow> svcInstance list \<Rightarrow> string set \<Rightarrow> unit act" where
  "show_insts sys nets r [] printed = ret ()"
| "show_insts sys nets r (inst # insts) printed =
     (let gw = si_svc inst = SvcGateway;
          p = (if gw then si_wsPort inst else si_port inst);
          pid = (case fmlookup (portPid r) p of None \<Rightarrow> 0 | Some pid \<Rightarrow> pid);
          label = (if gw then si_id inst @ '' (ws:'' @ FormatInt (si_wsPort inst) @ '')'' else si_id inst)
      in if 0 < pid
         then thn (tell (Status (Up (label @ '' pid:'' @ FormatInt pid) (si_svc inst))))
           (bnd (ask (os_pids sys) RangePids) (\<lambda>others.
            bnd (show_links nets r inst pid others printed) (show_insts sys nets r insts)))
         else thn (tell (Status (Down label (si_svc inst)))) (show_insts sys nets r insts printed))"

definition showStatus :: "os \<Rightarrow> Config \<Rightarrow> unit act" where
  "showStatus sys cfg = bnd (ask (os_netstat sys) Netstat) (\<lambda>(out, _).
     bnd (ask (os_services sys) RangeServices) (\<lambda>order.
     bnd (scan_services sys cfg order \<lparr>portPid = fmempty, pidInfo = fmempty\<rparr>) (\<lambda>r.
     bnd (listInstancesOrdered sys cfg) (\<lambda>insts.
     show_insts sys (split_on (CHR 0x0A) out) r insts {}))))"

section \<open>The etcd command\<close>

text \<open>
  base64.StdEncoding.DecodeString: line ends are skipped, the input is read in groups of
  four characters, the last of which may be padded; what was decoded before an error is
  kept, and the error is ignored by the caller.
\<close>

definition b64_digit :: "char \<Rightarrow> nat option" where
  "b64_digit c =
     (let n = of_char c
      in if 65 \<le> n \<and> n \<le> 90 then Some (n - 65)
         else if 97 \<le> n \<and> n \<le> 122 then Some (n - 71)
         else if 48 \<le> n \<and> n \<le> 57 then Some (n + 4)
         else if c = CHR ''+'' then Some 62
         else if c = CHR ''/'' then Some 63
         else None)"

fun b64_groups :: "string \<Rightarrow> string" where
  "b64_groups (a # b # c # d # rest) =
     (case (b64_digit a, b64_digit b) of
        (Some x, Some y) \<Rightarrow>
          (case (b64_digit c, b64_digit d) of
             (Some z, Some w) \<Rightarrow>
               char_of (x * 4 + y div 16) # char_of (y mod 16 * 16 + z div 4) # char_of (z mod 4 * 64 + w) # b64_groups rest
           | (Some z, None) \<Rightarrow>
               if d = CHR ''='' then [char_of (x * 4 + y div 16), char_of (y mod 16 * 16 + z div 4)] else []
           | (None, _) \<Rightarrow>
               if c = CHR ''='' \<and> d = CHR ''='' then [char_of (x * 4 + y div 16)] else [])
      | _ \<Rightarrow> [])"
| "b64_groups _ = []"

definition b64_decode :: "string \<Rightarrow> string" where
  "b64_decode s = b64_groups (filter (\<lambda>c. c \<noteq> CHR 0x0A \<and> c \<noteq> CHR 0x0D) s)"

definition etcd_url :: string where
  "etcd_url = ''http://192.168.1.110:2379/v3/kv/range''"

definition quoted :: "string \<Rightarrow> string" where
  "quoted s = CHR 0x22 # s @ [CHR 0x22]"

definition range_request :: "string \<Rightarrow> string \<Rightarrow> bytes" where
  "range_request key range_end =
     ''{'' @ quoted ''key'' @ '':'' @ quoted key @ '','' @ quoted ''range_end'' @ '':'' @ quoted range_end @ ''}''"

text \<open>
  The parameter \<open>kvs_of\<close> stands for json.Unmarshal: the encoded keys and values found in
  the body of the answer.
\<close>

definition showEtcd :: "os \<Rightarrow> (bytes \<Rightarrow> (string \<times> string) list) \<Rightarrow> unit act" where
  "showEtcd sys kvs_of = bnd (ask (os_post sys) (Post etcd_url (range_request ''L3NlcnZpY2VzLw=='' ''L3NlcnZpY2VzMA=='')))
     (\<lambda>r. case r of
        None \<Rightarrow> exit1
      | Some body \<Rightarrow>
          if kvs_of body = [] then tell (Print ''No services registered in etcd'')
          else thn (tell (Print ''Registered services:''))
            (each (\<lambda>(k, v). tell (Print (''  '' @ b64_decode k @ '' -> '' @ b64_decode v))) (kvs_of body)))"

section \<open>The commands\<close>

text \<open>The libraries the helper calls: YAML and JSON decoding, tokens.\<close>

record libs =
  lib_yaml :: yaml
  lib_jwt :: jwt
  lib_kvs :: "bytes \<Rightarrow> (string \<times> string) list"

definition load_config :: "os \<Rightarrow> libs \<Rightarrow> string \<Rightarrow> Config act" where
  "load_config sys lib path = bnd (ask (os_file sys) (ReadFile path)) (\<lambda>file.
     case Load (lib_yaml lib) file of (cfg, None) \<Rightarrow> ret cfg | (_, Some _) \<Rightarrow> exit1)"

definition print_nodes :: "Config \<Rightarrow> string \<Rightarrow> unit act" where
  "print_nodes cfg svc = each (\<lambda>n. if sn_ID n \<noteq> '''' then tell (Print (sn_ID n @ '' '' @ svc)) else ret ()) (services cfg svc)"

definition helper_query :: "os \<Rightarrow> libs \<Rightarrow> string list \<Rightarrow> unit act" where
  "helper_query sys lib args =
     bnd (load_config sys lib (if 3 \<le> length args \<and> suffix ''.yml'' (last args) then last args else ''config.yml'')) (\<lambda>cfg.
       let cmd = args ! 1; short = length args < 3
       in if cmd = ''list'' then bnd (ask (os_services sys) RangeServices) (each (print_nodes cfg))
          else if cmd = ''type'' then
            (if short then exit1
             else bnd (findServiceNode sys cfg (args ! 2)) (\<lambda>(svc, _). if svc = '''' then exit1 else tell (Print svc)))
          else if cmd = ''port'' then
            (if short then exit1
             else bnd (findServiceNode sys cfg (args ! 2)) (\<lambda>(_, node). case node of
               None \<Rightarrow> exit1
             | Some n \<Rightarrow> bnd (checked (ParseHostPort (listenAddr n))) (\<lambda>(_, p). tell (Print (FormatInt p)))))
          else if cmd = ''jwt'' then
            (if short then exit1
             else bnd (ask (os_now sys) Now) (\<lambda>now.
               case GenerateJWT (lib_jwt lib) now (parse_int (args ! 2)) (gc_JWTSecret (cf_Gateway cfg)) of
                 None \<Rightarrow> exit1
               | Some token \<Rightarrow> tell (Print token)))
          else if cmd = ''status'' \<or> cmd = ''conns'' then showStatus sys cfg
          else if cmd = ''etcd'' then showEtcd sys (lib_kvs lib)
          else ret ())"

definition service_command :: "os \<Rightarrow> Config \<Rightarrow> string \<Rightarrow> string \<Rightarrow> string \<Rightarrow> unit act" where
  "service_command sys cfg cmd target configPath =
     (if cmd = ''build'' then doBuild sys cfg target
      else if cmd = ''start'' then doStart sys cfg target configPath
      else if cmd = ''stop'' then doStop sys cfg target
      else if cmd = ''restart'' then
        thn (doStop sys cfg target) (thn (tell (Sleep 1000)) (doStart sys cfg target configPath))
      else if cmd = ''reboot'' then
        thn (doStop sys cfg target) (thn (doBuild sys cfg target) (doStart sys cfg target configPath))
      else exit1)"

definition helper_main :: "os \<Rightarrow> libs \<Rightarrow> string list \<Rightarrow> unit act" where
  "helper_main sys lib args =
     (if length args < 2 then exit1
      else let cmd = args ! 1; target = args ! 2
        in if cmd \<in> set [''list'', ''type'', ''port'', ''jwt'', ''status'', ''conns'', ''etcd''] then helper_query sys lib args
           else if length args < 3 then exit1
           else if cmd = ''docker-build'' \<or> cmd = ''docker-push'' then
             (let version = (if 3 < length args then args ! 3 else ''latest'');
                  registry = (if 4 < length args then args ! 4 else ''localhost:5000'')
              in if cmd = ''docker-build'' then doDockerBuild sys target version registry
                 else doDockerPush sys target version registry)
           else if cmd = ''docker-up'' then doDockerUp sys target
           else if cmd = ''docker-down'' then doDockerDown sys target
           else (let configPath = (if 3 < length args then args ! 3 else ''config.yml'')
             in bnd (load_config sys lib configPath) (\<lambda>cfg. service_command sys cfg cmd target configPath)))"

lemmas act_defs = ret_def exit1_def bnd_def thn_def tell_def ask_def checked_def

end
