(* ===== verification/SvcStart.thy ===== *)
theory SvcStart
  imports SvcHelper
begin

text \<open>
  What the command line helper does when it starts services: which processes the command
  start all starts and in which order, that every start ends in bounded time and leaves
  no process behind when it fails, and which configuration a gRPC service gets.
\<close>

section \<open>Starting all instances\<close>


definition instance_of :: "string \<Rightarrow> ServerNode \<Rightarrow> svc_inst" where
  "instance_of svc n = \<lparr>in_svc = svc, in_id = sn_ID n, in_port = snd (projr (ParseHostPort (listenAddr n)))\<rparr>"

definition instances_of :: "Config \<Rightarrow> string \<Rightarrow> svc_inst list" where
  "instances_of cfg svc = map (instance_of svc) (filter (\<lambda>n. sn_ID n \<noteq> '''') (services cfg svc))"

definition start_order :: "Config \<Rightarrow> string list \<Rightarrow> svc_inst list" where
  "start_order cfg order = concat (map (instances_of cfg) (filter (\<lambda>svc. svc \<noteq> SvcGateway) order)) @
     concat (map (instances_of cfg) (filter (\<lambda>svc. svc = SvcGateway) order))"

definition start_call :: "os \<Rightarrow> string \<Rightarrow> svc_inst \<Rightarrow> call" where
  "start_call sys path i = Start (''bin/'' @ in_svc i @ exeExt sys) [''-conf'', path, ''-id'', in_id i] (log_path (in_svc i) (in_id i))"

definition starts :: "call list \<Rightarrow> call list" where
  "starts h = filter (\<lambda>c. case c of Start _ _ _ \<Rightarrow> True | _ \<Rightarrow> False) h"

definition occupied :: "os \<Rightarrow> call list \<Rightarrow> i64 \<Rightarrow> bool" where
  "occupied sys h port \<longleftrightarrow> Contains (fst (os_netstat sys h)) (port_pattern port) \<and> Contains (fst (os_netstat sys h)) ''LISTENING''"

lemma starts_simps [simp]:
  "starts [] = []" "starts (h @ g) = starts h @ starts g"
  "starts (Start b a l # h) = Start b a l # starts h"
  by (simp_all add: starts_def)

lemma starts_skip [simp]: "\<nexists>b a l. c = Start b a l \<Longrightarrow> starts (c # h) = starts h"
  by (cases c) (simp_all add: starts_def)

lemma portOccupied_run [simp]: "portOccupied sys port h = (Some (occupied sys (h @ [Netstat]) port), h @ [Netstat])"
  by (simp add: portOccupied_def act_defs occupied_def split_def)

definition address_ok :: "ServerNode \<Rightarrow> bool" where
  "address_ok n \<longleftrightarrow> sn_ID n = '''' \<or> \<not> isl (ParseHostPort (listenAddr n))"

definition addresses_ok :: "Config \<Rightarrow> bool" where
  "addresses_ok cfg \<longleftrightarrow> fmpred (\<lambda>_. list_all address_ok) (cf_Services cfg)"

lemma node_insts_eq:
  "list_all address_ok ns \<Longrightarrow> node_insts svc ns = Inr (map (instance_of svc) (filter (\<lambda>n. sn_ID n \<noteq> '''') ns))"
proof (induction ns)
  case (Cons n ns)
  then show ?case
    by (cases "ParseHostPort (listenAddr n)") (auto simp: instance_of_def address_ok_def)
qed simp

lemma split_insts_eq:
  assumes "addresses_ok cfg"
  shows "split_insts cfg order = Inr (concat (map (instances_of cfg) (filter (\<lambda>svc. svc \<noteq> SvcGateway) order)),
     concat (map (instances_of cfg) (filter (\<lambda>svc. svc = SvcGateway) order)))"
proof (induction order)
  case (Cons svc order)
  have "list_all address_ok (services cfg svc)"
    using assms by (cases "fmlookup (cf_Services cfg) svc") (simp_all add: addresses_ok_def services_def fmpred_iff)
  from node_insts_eq [OF this, of svc] Cons show ?case
    by (simp add: instances_of_def)
qed simp

lemma listInstances_run:
  assumes "addresses_ok cfg"
  shows "listInstances sys cfg h = (Some (start_order cfg (os_services sys (h @ [RangeServices]))), h @ [RangeServices])"
  by (simp add: listInstances_def act_defs split_insts_eq [OF assms] start_order_def)

lemma poll_first:
  assumes "occupied sys (h @ [Sleep 400, Netstat]) port"
  shows "poll_port sys 20 svc port pid log h =
    (Some (), h @ [Sleep 400, Netstat, MkdirAll ''bin/.pids'', WriteFile (''bin/.pids/'' @ svc @ ''.pid'') (FormatInt pid)])"
  using poll_port.simps(2) [of sys 19 svc port pid log] assms by (simp add: act_defs)

lemma bnd_run: "m h = (Some a, h1) \<Longrightarrow> bnd m f h = f a h1"
  by (simp add: bnd_def)

lemma thn_run: "m h = (Some (), h1) \<Longrightarrow> thn m m' h = m' h1"
  by (simp add: thn_def bnd_def)

lemma build_if_missing_run:
  "os_stat sys (h @ [Stat (''bin/'' @ svc @ exeExt sys)]) \<noteq> NotExists \<Longrightarrow>
   build_if_missing sys svc h = (Some (), h @ [Stat (''bin/'' @ svc @ exeExt sys)])"
  by (simp add: build_if_missing_def act_defs)

lemma launch_run:
  "os_start sys (h @ [OpenLog l, Start (''bin/'' @ svc @ exeExt sys) args l]) = Some pid \<Longrightarrow>
   launch sys svc args l h = (Some pid, h @ [OpenLog l, Start (''bin/'' @ svc @ exeExt sys) args l])"
  by (simp add: launch_def act_defs)

lemma tell_run: "tell c h = (Some (), h @ [c])"
  by (simp add: tell_def)

text \<open>One instance, on a system where a started instance listens.\<close>

lemma startOne_run:
  assumes "\<not> isGRPCService cfg (in_svc i)" "in_id i \<noteq> ''''"
    and occ: "\<And>g. occupied sys g (in_port i) \<longleftrightarrow> start_call sys path i \<in> set g"
    and "\<And>g. os_stat sys g \<noteq> NotExists" "\<And>g. os_start sys g \<noteq> None"
  shows "\<exists>h'. startOne sys cfg (in_svc i) (in_id i) (in_port i) path h = (Some (), h @ h') \<and>
    starts h' = (if start_call sys path i \<in> set h then [] else [start_call sys path i])"
proof (cases "start_call sys path i \<in> set h")
  case True
  then have "startOne sys cfg (in_svc i) (in_id i) (in_port i) path h = (Some (), h @ [Netstat])"
    using assms(1) by (simp add: startOne_def act_defs occ)
  with True show ?thesis by (intro exI [of _ "[Netstat]"]) simp
next
  case False
  let ?b = "''bin/'' @ in_svc i @ exeExt sys" and ?l = "log_path (in_svc i) (in_id i)"
  let ?s = "Start ?b [''-conf'', path, ''-id'', in_id i] ?l"
  have sc: "start_call sys path i = ?s"
    by (simp add: start_call_def)
  let ?h = "h @ [Netstat] @ [Stat ?b] @ [MkdirAll ''log'']"
  obtain pid where pid: "os_start sys (?h @ [OpenLog ?l, ?s]) = Some pid"
    using assms(5) [of "?h @ [OpenLog ?l, ?s]"] by blast
  have "startOne sys cfg (in_svc i) (in_id i) (in_port i) path h =
      poll_port sys 20 (in_svc i) (in_port i) pid ?l (?h @ [OpenLog ?l, ?s])"
    using assms(1,2) launch_run [OF pid] build_if_missing_run [OF assms(4)] False
    by (simp add: startOne_def thn_run bnd_run tell_run occ sc)
  also have "\<dots> = (Some (), (?h @ [OpenLog ?l, ?s]) @ [Sleep 400, Netstat, MkdirAll ''bin/.pids'', WriteFile (''bin/.pids/'' @ in_svc i @ ''.pid'') (FormatInt pid)])"
    by (rule poll_first) (simp add: occ sc)
  finally have "startOne sys cfg (in_svc i) (in_id i) (in_port i) path h = (Some (), h @ (([Netstat] @ [Stat ?b] @ [MkdirAll ''log''] @ [OpenLog ?l, ?s]) @ [Sleep 400, Netstat, MkdirAll ''bin/.pids'', WriteFile (''bin/.pids/'' @ in_svc i @ ''.pid'') (FormatInt pid)]))"
    by simp
  moreover have "starts (([Netstat] @ [Stat ?b] @ [MkdirAll ''log''] @ [OpenLog ?l, ?s]) @ [Sleep 400, Netstat, MkdirAll ''bin/.pids'', WriteFile (''bin/.pids/'' @ in_svc i @ ''.pid'') (FormatInt pid)]) = [?s]"
    by simp
  ultimately show ?thesis
    using False unfolding sc by auto
qed

lemma start_call_in_starts: "start_call sys path i \<in> set h \<longleftrightarrow> start_call sys path i \<in> set (starts h)"
  by (simp add: starts_def start_call_def)

lemma start_call_inject: "start_call sys path i = start_call sys path j \<longleftrightarrow> in_svc i = in_svc j \<and> in_id i = in_id j"
  by (auto simp: start_call_def log_path_def)

lemma each_start_run:
  assumes "distinct (map (\<lambda>i. (in_svc i, in_id i)) insts)"
    and "\<And>i. i \<in> set insts \<Longrightarrow> \<not> isGRPCService cfg (in_svc i) \<and> in_id i \<noteq> ''''"
    and "\<And>g i. i \<in> set insts \<Longrightarrow> occupied sys g (in_port i) \<longleftrightarrow> start_call sys path i \<in> set g"
    and "\<And>g. os_stat sys g \<noteq> NotExists" "\<And>g. os_start sys g \<noteq> None"
  shows "\<exists>h'. each (\<lambda>i. thn (startOne sys cfg (in_svc i) (in_id i) (in_port i) path) (tell (Sleep 1000))) insts h = (Some (), h @ h') \<and>
    starts h' = map (start_call sys path) (filter (\<lambda>i. start_call sys path i \<notin> set h) insts)"
  using assms(1-3)
proof (induction insts arbitrary: h)
  case (Cons i insts)
  obtain h1 where h1: "startOne sys cfg (in_svc i) (in_id i) (in_port i) path h = (Some (), h @ h1)"
      "starts h1 = (if start_call sys path i \<in> set h then [] else [start_call sys path i])"
    using startOne_run [of cfg i sys path h] Cons.prems assms(4,5) by auto
  let ?h = "h @ h1 @ [Sleep 1000]"
  obtain h2 where h2: "each (\<lambda>i. thn (startOne sys cfg (in_svc i) (in_id i) (in_port i) path) (tell (Sleep 1000))) insts ?h = (Some (), ?h @ h2)"
      "starts h2 = map (start_call sys path) (filter (\<lambda>i. start_call sys path i \<notin> set ?h) insts)"
    using Cons.IH [of ?h] Cons.prems by auto
  have "start_call sys path j \<in> set ?h \<longleftrightarrow> start_call sys path j \<in> set h" if "j \<in> set insts" for j
  proof -
    have "start_call sys path j \<noteq> start_call sys path i"
      using Cons.prems(1) that by (auto simp: start_call_inject image_iff)
    then have "start_call sys path j \<notin> set h1"
      using h1(2) by (subst start_call_in_starts) simp
    then show ?thesis
      by (simp add: start_call_def)
  qed
  then have "starts h2 = map (start_call sys path) (filter (\<lambda>i. start_call sys path i \<notin> set h) insts)"
    unfolding h2(2) by (intro arg_cong [where f = "map _"] filter_cong) auto
  moreover have "thn (startOne sys cfg (in_svc i) (in_id i) (in_port i) path) (tell (Sleep 1000)) h = (Some (), ?h)"
    by (simp add: thn_run h1(1) tell_run)
  ultimately show ?case
    using h1(2) h2(1) by (intro exI [of _ "h1 @ Sleep 1000 # h2"]) (simp add: thn_run)
qed (simp add: act_defs)

lemma set_instances_of: "set (instances_of cfg svc) = {instance_of svc n |n. n \<in> set (services cfg svc) \<and> sn_ID n \<noteq> ''''}"
  by (auto simp: instances_of_def)

lemma set_start_order: "set (start_order cfg order) = (\<Union>svc\<in>set order. set (instances_of cfg svc))"
  by (auto simp: start_order_def)

lemma instance_of_sel [simp]: "in_svc (instance_of svc n) = svc" "in_id (instance_of svc n) = sn_ID n"
  by (simp_all add: instance_of_def)


text \<open>One chat server and one gateway, on a system where nothing else runs.\<close>

definition cs_node :: ServerNode where
  "cs_node = \<lparr>sn_ID = ''cs-1'', sn_TCPListen = '''', sn_WSListen = '''', sn_Listen = '':8001'', sn_PublicAddr = ''''\<rparr>"

definition ws_node :: ServerNode where
  "ws_node = \<lparr>sn_ID = ''gw-1'', sn_TCPListen = '':9000'', sn_WSListen = '':9001'', sn_Listen = '''', sn_PublicAddr = ''''\<rparr>"

definition two_services :: Config where
  "two_services = empty_Config\<lparr>cf_Services := fmupd SvcGateway [ws_node] (fmupd SvcChatSvr [cs_node] fmempty)\<rparr>"

definition chat_start :: call where
  "chat_start = Start ''bin/chatsvr'' [''-conf'', ''config.yml'', ''-id'', ''cs-1''] ''log/chatsvr-cs-1.log''"

definition gw_start :: call where
  "gw_start = Start ''bin/gateway'' [''-conf'', ''config.yml'', ''-id'', ''gw-1''] ''log/gateway-gw-1.log''"

definition idle_os :: os where
  "idle_os = \<lparr>os_services = (\<lambda>_. [SvcGateway, SvcChatSvr]), os_grpc = (\<lambda>_. []), os_pids = (\<lambda>_. []), os_dir = (\<lambda>_. []),
     os_stat = (\<lambda>_. Exists),
     os_netstat = (\<lambda>h. ((if chat_start \<in> set h then '' TCP 0.0.0.0:8001 0.0.0.0:0 LISTENING 7 '' else '''') @
       (if gw_start \<in> set h then '' TCP 0.0.0.0:9001 0.0.0.0:0 LISTENING 8 '' else ''''), True)),
     os_file = (\<lambda>_. None), os_run = (\<lambda>_. True), os_start = (\<lambda>_. Some 7), os_process = (\<lambda>_. True),
     os_now = (\<lambda>_. 0), os_post = (\<lambda>_. None), os_windows = False\<rparr>"

lemma idle_ports: "ParseHostPort '':8001'' = Inr ('''', 8001)" "ParseHostPort '':9001'' = Inr ('''', 9001)"
  by (simp_all add: addr_defs)

lemma idle_instances:
  "instances_of two_services SvcChatSvr = [\<lparr>in_svc = SvcChatSvr, in_id = ''cs-1'', in_port = 8001\<rparr>]"
  "instances_of two_services SvcGateway = [\<lparr>in_svc = SvcGateway, in_id = ''gw-1'', in_port = 9001\<rparr>]"
  by (simp_all add: instances_of_def services_def two_services_def cs_node_def ws_node_def instance_of_def listenAddr_def
    SvcChatSvr_def SvcGateway_def idle_ports)

lemma idle_order: "start_order two_services [SvcGateway, SvcChatSvr] =
    [\<lparr>in_svc = SvcChatSvr, in_id = ''cs-1'', in_port = 8001\<rparr>, \<lparr>in_svc = SvcGateway, in_id = ''gw-1'', in_port = 9001\<rparr>]"
  using idle_instances by (simp add: start_order_def SvcChatSvr_def SvcGateway_def)

lemma idle_calls:
  "map (start_call idle_os ''config.yml'') (start_order two_services [SvcGateway, SvcChatSvr]) = [chat_start, gw_start]"
proof -
  have "exeExt idle_os = ''''"
    by (simp add: exeExt_def idle_os_def)
  then show ?thesis
    unfolding idle_order by (simp add: start_call_def chat_start_def gw_start_def log_path_def SvcChatSvr_def SvcGateway_def)
qed

lemma idle_occupied: "occupied idle_os g 8001 \<longleftrightarrow> chat_start \<in> set g" "occupied idle_os g 9001 \<longleftrightarrow> gw_start \<in> set g"
proof -
  have pat: "port_pattern 8001 = '':8001 ''" "port_pattern 9001 = '':9001 ''"
    by (simp_all add: port_pattern_def FormatInt_def format_nat.simps digit_char_def char_of_eq_iff)
  show "occupied idle_os g 8001 \<longleftrightarrow> chat_start \<in> set g" "occupied idle_os g 9001 \<longleftrightarrow> gw_start \<in> set g"
    by (simp_all add: occupied_def pat idle_os_def Contains_def sublist_code)
qed

lemma idle_os_sel [simp]: "os_services idle_os h = [SvcGateway, SvcChatSvr]" "os_stat idle_os h = Exists" "os_start idle_os h = Some 7"
  by (simp_all add: idle_os_def)


section \<open>Starting ends, and leaves nothing behind when it fails\<close>

definition kills :: "call list \<Rightarrow> call list" where
  "kills h = filter (\<lambda>c. case c of Kill _ \<Rightarrow> True | _ \<Rightarrow> False) h"

definition slept :: "call list \<Rightarrow> nat" where
  "slept h = sum_list (map (\<lambda>c. case c of Sleep ms \<Rightarrow> ms | _ \<Rightarrow> 0) h)"

lemma kills_simps [simp]: "kills [] = []" "kills (h @ g) = kills h @ kills g" "kills (Kill p # h) = Kill p # kills h"
  by (simp_all add: kills_def)

lemma kills_skip [simp]: "\<nexists>p. c = Kill p \<Longrightarrow> kills (c # h) = kills h"
  by (cases c) (simp_all add: kills_def)

lemma slept_simps [simp]: "slept [] = 0" "slept (h @ g) = slept h + slept g" "slept (Sleep ms # h) = ms + slept h"
  by (simp_all add: slept_def)

lemma slept_skip [simp]: "\<nexists>ms. c = Sleep ms \<Longrightarrow> slept (c # h) = slept h"
  by (cases c) (simp_all add: slept_def)

text \<open>An action that neither starts nor kills a process nor waits.\<close>

definition quiet :: "'a act \<Rightarrow> bool" where
  "quiet m \<longleftrightarrow> (\<forall>h. \<exists>g. snd (m h) = h @ g \<and> starts g = [] \<and> kills g = [] \<and> slept g = 0)"

named_theorems quiet_intros

lemma quiet_ret [quiet_intros]: "quiet (ret a)" and quiet_exit1 [quiet_intros]: "quiet exit1"
  by (simp_all add: quiet_def act_defs)

lemma quiet_bnd [quiet_intros]:
  assumes "quiet m" "\<And>a. quiet (f a)"
  shows "quiet (bnd m f)"
  unfolding quiet_def
proof
  fix h
  obtain g where g: "snd (m h) = h @ g" "starts g = []" "kills g = []" "slept g = 0"
    using assms(1) by (auto simp: quiet_def)
  show "\<exists>g. snd (bnd m f h) = h @ g \<and> starts g = [] \<and> kills g = [] \<and> slept g = 0"
  proof (cases "fst (m h)")
    case None
    with g show ?thesis by (intro exI [of _ g]) (simp add: bnd_def split_def)
  next
    case (Some a)
    obtain g' where "snd (f a (h @ g)) = (h @ g) @ g'" "starts g' = []" "kills g' = []" "slept g' = 0"
      using assms(2) [of a] unfolding quiet_def by blast
    with Some g show ?thesis by (intro exI [of _ "g @ g'"]) (simp add: bnd_def split_def)
  qed
qed

lemma quiet_thn [quiet_intros]: "quiet m \<Longrightarrow> quiet m' \<Longrightarrow> quiet (thn m m')"
  unfolding thn_def by (intro quiet_bnd)

lemma quiet_ask [quiet_intros]: "starts [c] = [] \<Longrightarrow> kills [c] = [] \<Longrightarrow> slept [c] = 0 \<Longrightarrow> quiet (ask q c)"
  and quiet_tell [quiet_intros]: "starts [c] = [] \<Longrightarrow> kills [c] = [] \<Longrightarrow> slept [c] = 0 \<Longrightarrow> quiet (tell c)"
  by (simp_all add: quiet_def act_defs)

lemma quiet_if [quiet_intros]: "(b \<Longrightarrow> quiet m) \<Longrightarrow> (\<not> b \<Longrightarrow> quiet m') \<Longrightarrow> quiet (if b then m else m')"
  by simp

lemma quiet_option [quiet_intros]: "quiet m \<Longrightarrow> (\<And>a. quiet (f a)) \<Longrightarrow> quiet (case r of None \<Rightarrow> m | Some a \<Rightarrow> f a)"
  by (cases r) simp_all

lemma quiet_each [quiet_intros]: "(\<And>x. quiet (f x)) \<Longrightarrow> quiet (each f xs)"
  by (induction xs) (auto intro: quiet_intros)

lemma quiet_nested_path [quiet_intros]: "quiet (nested_path sys svc ds)"
  by (induction sys svc ds rule: nested_path.induct) (auto intro!: quiet_intros)

lemma quiet_findServicePath [quiet_intros]: "quiet (findServicePath sys svc)"
  unfolding findServicePath_def by (intro quiet_intros) simp_all

lemma quiet_must_run [quiet_intros]: "quiet (must_run sys env cmd args)"
  unfolding must_run_def by (intro quiet_intros) simp_all

lemma quiet_buildOne [quiet_intros]: "quiet (buildOne sys svc)"
  unfolding buildOne_def by (intro quiet_intros)

lemma quiet_build_if_missing [quiet_intros]: "quiet (build_if_missing sys svc)"
  unfolding build_if_missing_def by (intro quiet_intros) simp_all

lemma quiet_service_conf [quiet_intros]: "quiet (service_conf sys svc)"
  unfolding service_conf_def by (intro quiet_intros) simp_all

lemma quiet_portOccupied [quiet_intros]: "quiet (portOccupied sys port)"
  unfolding portOccupied_def by (auto intro!: quiet_intros)

lemma quiet_printLogTail [quiet_intros]: "quiet (printLogTail sys path)"
  unfolding printLogTail_def Let_def by (intro quiet_intros) simp_all

text \<open>A run that starts at most one process and, when it fails, has killed it.\<close>

definition clean_run :: "os \<Rightarrow> call list \<Rightarrow> 'a option \<Rightarrow> call list \<Rightarrow> bool" where
  "clean_run sys h r g \<longleftrightarrow> starts g = [] \<and> kills g = [] \<or>
     (\<exists>u b a l v. g = u @ Start b a l # v \<and> starts g = [Start b a l] \<and>
       (case os_start sys (h @ u @ [Start b a l]) of
          None \<Rightarrow> r = None \<and> kills g = []
        | Some pid \<Rightarrow> kills g = (if r = None then [Kill pid] else [])))"

lemma poll_run:
  "\<exists>r g. poll_port sys n svc port pid log h = (r, h @ g) \<and> slept g \<le> 400 * n \<and> starts g = [] \<and>
     kills g = (if r = None then [Kill pid] else [])"
proof (induction n arbitrary: h)
  case 0
  obtain g where "snd (printLogTail sys log (h @ [Kill pid])) = (h @ [Kill pid]) @ g" "starts g = []" "kills g = []" "slept g = 0"
    using quiet_printLogTail [of sys log] unfolding quiet_def by blast
  then show ?case
    by (intro exI [of _ None] exI [of _ "Kill pid # g"])
      (auto simp: act_defs split_def split: option.split)
next
  case (Suc n)
  obtain occ where occ: "portOccupied sys port (h @ [Sleep 400]) = (Some occ, h @ [Sleep 400, Netstat])"
    by (simp add: portOccupied_def act_defs split_def)
  obtain r g where rg: "poll_port sys n svc port pid log (h @ [Sleep 400, Netstat]) = (r, (h @ [Sleep 400, Netstat]) @ g)"
      "slept g \<le> 400 * n" "starts g = []" "kills g = (if r = None then [Kill pid] else [])"
    using Suc.IH [of "h @ [Sleep 400, Netstat]"] by blast
  show ?case
  proof (cases occ)
    case True
    with occ show ?thesis
      by (intro exI [of _ "Some ()"] exI [of _ "[Sleep 400, Netstat, MkdirAll ''bin/.pids'', WriteFile (''bin/.pids/'' @ svc @ ''.pid'') (FormatInt pid)]"])
        (simp add: act_defs)
  next
    case False
    with occ rg show ?thesis
      by (intro exI [of _ r] exI [of _ "[Sleep 400, Netstat] @ g"]) (simp add: act_defs)
  qed
qed

definition tidy :: "os \<Rightarrow> 'a act \<Rightarrow> bool" where
  "tidy sys m \<longleftrightarrow> (\<forall>h. \<exists>r g. m h = (r, h @ g) \<and> slept g \<le> 8000 \<and> clean_run sys h r g)"

lemma quiet_tidy: "quiet m \<Longrightarrow> tidy sys m"
  unfolding quiet_def tidy_def clean_run_def by (metis le0 prod.collapse)

lemma clean_runI:
  assumes "g = u @ Start b a l # v" "starts g = [Start b a l]"
    and "case os_start sys (h @ u @ [Start b a l]) of
      None \<Rightarrow> r = None \<and> kills g = [] | Some pid \<Rightarrow> kills g = (if r = None then [Kill pid] else [])"
  shows "clean_run sys h r g"
  unfolding clean_run_def using assms by blast

lemma clean_run_quiet_prefix:
  assumes "clean_run sys (h @ q) r g" "starts q = []" "kills q = []"
  shows "clean_run sys h r (q @ g)"
  using assms(1) unfolding clean_run_def [of sys "h @ q"]
proof (elim disjE exE conjE)
  fix u b a l v
  assume "g = u @ Start b a l # v" "starts g = [Start b a l]"
    and "case os_start sys ((h @ q) @ u @ [Start b a l]) of None \<Rightarrow> r = None \<and> kills g = []
      | Some pid \<Rightarrow> kills g = (if r = None then [Kill pid] else [])"
  with assms(2,3) show "clean_run sys h r (q @ g)"
    by (intro clean_runI [where u = "q @ u" and b = b and a = a and l = l and v = v]) (auto split: option.splits if_splits)
qed (simp add: clean_run_def assms(2,3))

lemma tidy_bnd:
  assumes "quiet m" "\<And>a. tidy sys (f a)"
  shows "tidy sys (bnd m f)"
  unfolding tidy_def
proof
  fix h
  obtain q where q: "snd (m h) = h @ q" "starts q = []" "kills q = []" "slept q = 0"
    using assms(1) by (auto simp: quiet_def)
  show "\<exists>r g. bnd m f h = (r, h @ g) \<and> slept g \<le> 8000 \<and> clean_run sys h r g"
  proof (cases "fst (m h)")
    case None
    with q show ?thesis
      by (intro exI [of _ None] exI [of _ q]) (simp add: bnd_def split_def clean_run_def)
  next
    case (Some a)
    obtain r g where rg: "f a (h @ q) = (r, (h @ q) @ g)" "slept g \<le> 8000" "clean_run sys (h @ q) r g"
      using assms(2) [of a] unfolding tidy_def by blast
    with Some q clean_run_quiet_prefix [OF rg(3)] show ?thesis
      by (intro exI [of _ r] exI [of _ "q @ g"]) (simp add: bnd_def split_def)
  qed
qed

lemma tidy_thn: "quiet m \<Longrightarrow> tidy sys m' \<Longrightarrow> tidy sys (thn m m')"
  unfolding thn_def by (intro tidy_bnd)

lemma tidy_if: "tidy sys m \<Longrightarrow> tidy sys m' \<Longrightarrow> tidy sys (if b then m else m')"
  by simp

lemma tidy_launch:
  assumes "\<And>pid. f pid = ret () \<or> f pid = poll_port sys 20 svc port pid l"
  shows "tidy sys (bnd (launch sys svc args l) f)"
  unfolding tidy_def
proof
  fix h
  let ?b = "''bin/'' @ svc @ exeExt sys" and ?u = "[OpenLog l]"
  have start: "h @ ?u @ [Start ?b args l] = (h @ [OpenLog l]) @ [Start ?b args l]"
    by simp
  show "\<exists>r g. bnd (launch sys svc args l) f h = (r, h @ g) \<and> slept g \<le> 8000 \<and> clean_run sys h r g"
  proof (cases "os_start sys (h @ ?u @ [Start ?b args l])")
    case None
    then have "bnd (launch sys svc args l) f h = (None, h @ [OpenLog l, Start ?b args l])"
      by (simp add: launch_def act_defs)
    moreover have "clean_run sys h None [OpenLog l, Start ?b args l]"
      using None by (intro clean_runI [where u = ?u and b = ?b and a = args and l = l and v = "[]"]) simp_all
    ultimately show ?thesis
      by (intro exI [of _ None] exI [of _ "[OpenLog l, Start ?b args l]"]) simp
  next
    case (Some pid)
    let ?h = "h @ [OpenLog l, Start ?b args l]"
    have run: "bnd (launch sys svc args l) f h = f pid ?h"
      using Some by (simp add: launch_def act_defs)
    obtain r g where rg: "f pid ?h = (r, ?h @ g)" "slept g \<le> 8000" "starts g = []" "kills g = (if r = None then [Kill pid] else [])"
    proof (cases "f pid = ret ()")
      case True
      then show ?thesis using that [of "Some ()" "[]"] by (simp add: ret_def)
    next
      case False
      with assms [of pid] poll_run [of sys 20 svc port pid l ?h] that show ?thesis by auto
    qed
    have "clean_run sys h r ([OpenLog l, Start ?b args l] @ g)"
      using Some rg(3,4) by (intro clean_runI [where u = ?u and b = ?b and a = args and l = l and v = g]) simp_all
    with run rg show ?thesis
      by (intro exI [of _ r] exI [of _ "[OpenLog l, Start ?b args l] @ g"]) simp
  qed
qed

text \<open>
  C32: Starting an instance ends on every system: it waits for at most eight seconds and starts at most one
  process; it fails when the process cannot be started, and a run that fails after the
  process started has killed that process and no other. A run that succeeds kills nothing.
\<close>

theorem start_ends:
  "\<exists>r g. startOne sys cfg svc sid port path h = (r, h @ g) \<and> slept g \<le> 8000 \<and>
     (starts g = [] \<and> kills g = [] \<or>
      (\<exists>u b a l v. g = u @ Start b a l # v \<and> starts g = [Start b a l] \<and>
        (case os_start sys (h @ u @ [Start b a l]) of
           None \<Rightarrow> r = None \<and> kills g = []
         | Some pid \<Rightarrow> kills g = (if r = None then [Kill pid] else []))))"
proof -
  have "tidy sys (startGRPCService sys cfg svc sid)"
    unfolding startGRPCService_def Let_def
    by (intro tidy_bnd tidy_thn tidy_if tidy_launch quiet_intros quiet_tidy) (auto intro: quiet_intros)
  moreover have "tidy sys (bnd (portOccupied sys port) (\<lambda>occ.
        if occ then ret ()
        else thn (build_if_missing sys svc) (thn (tell (MkdirAll ''log''))
          (bnd (launch sys svc ([''-conf'', path] @ (if sid \<noteq> '''' then [''-id'', sid] else [])) (log_path svc sid)) (\<lambda>pid.
           poll_port sys 20 svc port pid (log_path svc sid))))))"
    by (intro tidy_bnd tidy_thn tidy_if tidy_launch quiet_intros quiet_tidy disjI2 refl) simp_all
  ultimately have "tidy sys (startOne sys cfg svc sid port path)"
    by (simp add: startOne_def)
  then show ?thesis
    unfolding tidy_def clean_run_def by blast
qed

section \<open>The configuration of a gRPC service\<close>

text \<open>
  startGRPCService is meant to prefer the configuration file in the directory of the
  service, but asks for a file whose name lacks the separator: whenever that file does not
  exist, the service gets the common file, whether it has a file of its own or not.
\<close>

theorem service_config_ignored:
  assumes "findServicePath sys svc h = (Some (dir @ ''/cmd''), h1)"
    and "os_stat sys (h1 @ [Stat (dir @ ''config.yml'')]) \<noteq> Exists"
  shows "service_conf sys svc h = (Some ''config.yml'', h1 @ [Stat (dir @ ''config.yml'')])"
  using assms by (simp add: service_conf_def act_defs)

text \<open>The files of the user service in the repository.\<close>

definition repo_os :: os where
  "repo_os = idle_os\<lparr>os_dir := (\<lambda>h. if last h = ReadDir ''apps'' then [(''user'', True)] else []),
     os_stat := (\<lambda>h. if last h \<in> Stat ` {''apps/user/user-service/cmd'', ''apps/user/user-service/config.yml''} then Exists else NotExists)\<rparr>"

theorem user_service_config_ignored:
  "os_stat repo_os (h @ [Stat ''apps/user/user-service/config.yml'']) = Exists \<and>
   fst (service_conf repo_os ''user-service'' []) = Some ''config.yml''"
proof -
  let ?h = "[ReadDir ''apps'', Stat ''apps/user/user-service/cmd'']"
  have "findServicePath repo_os ''user-service'' [] = (Some (''apps/user/user-service'' @ ''/cmd''), ?h)"
    by (simp add: findServicePath_def act_defs repo_os_def)
  from service_config_ignored [OF this] show ?thesis
    by (simp add: repo_os_def)
qed

end
