(* ===== verification/SvcQuery.thy ===== *)
theory SvcQuery
  imports SvcStart
begin

text \<open>
  How the command line helper reads the system: the processes it finds in the output of
  netstat and kills, the ports it takes for occupied, and the services it lists from etcd.
\<close>

section \<open>Searching the output of netstat\<close>

lemma sublist_split:
  assumes "c \<notin> set s" "s \<noteq> []"
  shows "sublist s (u @ c # v) \<longleftrightarrow> sublist s u \<or> sublist s v"
proof -
  have pre: "prefix t (c # v) \<longleftrightarrow> t = []" if "c \<notin> set t" for t
    using that by (cases t) auto
  have "sublist s (c # v) \<longleftrightarrow> sublist s v"
    using assms by (simp add: sublist_Cons_right pre)
  moreover have "(\<exists>s1 s2. s = s1 @ s2 \<and> suffix s1 u \<and> prefix s2 (c # v)) \<longleftrightarrow> suffix s u"
  proof
    assume "\<exists>s1 s2. s = s1 @ s2 \<and> suffix s1 u \<and> prefix s2 (c # v)"
    then obtain s1 s2 where s12: "s = s1 @ s2" "suffix s1 u" "prefix s2 (c # v)"
      by blast
    with assms(1) pre [of s2] show "suffix s u" by simp
  qed (intro exI [of _ s] exI [of _ "[]"], simp)
  ultimately show ?thesis
    using suffix_imp_sublist [of s u] by (simp add: sublist_append) blast
qed

lemma sublist_split_end:
  assumes "c \<notin> set s" "s \<noteq> []" "c \<notin> set u"
  shows "sublist (s @ [c]) (u @ c # v) \<longleftrightarrow> suffix s u \<or> sublist (s @ [c]) v"
proof -
  have no: "\<not> sublist (s @ [c]) u"
    using assms(3) set_mono_sublist [of "s @ [c]" u] by auto
  have "\<not> prefix (s @ [c]) (c # v)"
    using assms by (cases s) auto
  then have "sublist (s @ [c]) (c # v) \<longleftrightarrow> sublist (s @ [c]) v"
    by (simp add: sublist_Cons_right)
  moreover have "(\<exists>s1 s2. s @ [c] = s1 @ s2 \<and> suffix s1 u \<and> prefix s2 (c # v)) \<longleftrightarrow> suffix s u"
  proof
    assume "\<exists>s1 s2. s @ [c] = s1 @ s2 \<and> suffix s1 u \<and> prefix s2 (c # v)"
    then obtain s1 s2 where s12: "s @ [c] = s1 @ s2" "suffix s1 u" "prefix s2 (c # v)"
      by blast
    have "c \<notin> set s1"
      using s12(2) assms(3) set_mono_suffix by blast
    with s12(1) obtain s2' where s2: "s2 = s2' @ [c]" "s = s1 @ s2'"
      by (cases s2 rule: rev_cases) auto
    with s12(3) assms(1) have "s2' = []"
      by (cases s2') auto
    with s2 s12(2) show "suffix s u" by simp
  qed (intro exI [of _ s] exI [of _ "[c]"], simp)
  ultimately show ?thesis
    using no by (auto simp: sublist_append)
qed

text \<open>One line of netstat: words in columns, each preceded by blanks, and the end of the line.\<close>

fun netstat_row :: "(nat \<Rightarrow> string \<Rightarrow> nat) \<Rightarrow> nat \<Rightarrow> string list \<Rightarrow> string" where
  "netstat_row pad i [] = ''''"
| "netstat_row pad i (w # ws) = replicate (Suc (pad i w)) CHR 0x20 @ w @ netstat_row pad (Suc i) ws"

definition plain :: "string \<Rightarrow> bool" where
  "plain w \<longleftrightarrow> list_all (\<lambda>c. \<not> is_space c) w"

definition line_end :: "string \<Rightarrow> bool" where
  "line_end cr \<longleftrightarrow> cr = '''' \<or> cr = [CHR 0x0D]"

lemma plain_simps [simp]: "plain []" "plain (c # w) \<longleftrightarrow> \<not> is_space c \<and> plain w" "plain (u @ v) \<longleftrightarrow> plain u \<and> plain v"
  by (simp_all add: plain_def)

lemma plain_space [simp]: "plain w \<Longrightarrow> CHR 0x20 \<notin> set w" "plain w \<Longrightarrow> CHR 0x0A \<notin> set w" "plain w \<Longrightarrow> CHR 0x0D \<notin> set w"
  by (auto simp: plain_def list_all_iff is_space_def)

lemma sublist_blanks:
  "CHR 0x20 \<notin> set s \<Longrightarrow> s \<noteq> [] \<Longrightarrow> sublist s (replicate n CHR 0x20 @ r) \<longleftrightarrow> sublist s r"
  using sublist_split [of "CHR 0x20" s "[]"] by (induction n) auto

lemma sublist_end_blanks:
  "CHR 0x20 \<notin> set s \<Longrightarrow> s \<noteq> [] \<Longrightarrow> sublist (s @ [CHR 0x20]) (replicate n CHR 0x20 @ r) \<longleftrightarrow> sublist (s @ [CHR 0x20]) r"
  using sublist_split_end [of "CHR 0x20" s "[]"] by (induction n) auto

lemma row_Cons:
  "ws \<noteq> [] \<Longrightarrow> netstat_row pad i ws = CHR 0x20 # replicate (pad i (hd ws)) CHR 0x20 @ hd ws @ netstat_row pad (Suc i) (tl ws)"
  by (cases ws) auto

lemma row_contains:
  assumes "plain s" "s \<noteq> []" "list_all plain ws" "line_end cr"
  shows "sublist s (netstat_row pad i ws @ cr) \<longleftrightarrow> (\<exists>w\<in>set ws. sublist s w)"
  using assms(3)
proof (induction ws arbitrary: i)
  case Nil
  have "sublist s [CHR 0x0D] \<longleftrightarrow> False"
    using sublist_split [of "CHR 0x0D" s "[]" "[]"] assms(1,2) by simp
  then show ?case using assms(2,4) by (auto simp: line_end_def)
next
  case (Cons w ws)
  have "sublist s (w @ netstat_row pad (Suc i) ws @ cr) \<longleftrightarrow> sublist s w \<or> (\<exists>w\<in>set ws. sublist s w)"
  proof (cases "ws = []")
    case True
    then show ?thesis
      using assms sublist_split [of "CHR 0x0D" s w "[]"] by (auto simp: line_end_def)
  next
    case False
    have "sublist s (netstat_row pad (Suc i) ws @ cr) \<longleftrightarrow> (\<exists>w\<in>set ws. sublist s w)"
      using Cons by simp
    then show ?thesis
      using sublist_split [of "CHR 0x20" s "[]"] sublist_split [of "CHR 0x20" s w] assms(1,2) by (simp add: row_Cons [OF False])
  qed
  then show ?case
    using sublist_blanks [of s "Suc (pad i w)"] assms(1,2) by simp
qed

lemma row_contains_end:
  assumes "plain s" "s \<noteq> []" "list_all plain ws" "line_end cr"
  shows "sublist (s @ [CHR 0x20]) (netstat_row pad i ws @ cr) \<longleftrightarrow> (\<exists>w\<in>set (butlast ws). suffix s w)"
  using assms(3)
proof (induction ws arbitrary: i)
  case Nil
  then show ?case
    using assms(4) set_mono_sublist [of "s @ [CHR 0x20]" cr] by (auto simp: line_end_def)
next
  case (Cons w ws)
  have "sublist (s @ [CHR 0x20]) (w @ netstat_row pad (Suc i) ws @ cr) \<longleftrightarrow> (\<exists>w\<in>set (butlast (w # ws)). suffix s w)"
  proof (cases "ws = []")
    case True
    have "CHR 0x20 \<notin> set (w @ cr)"
      using Cons.prems assms(4) by (auto simp: line_end_def)
    then show ?thesis
      using True set_mono_sublist [of "s @ [CHR 0x20]" "w @ cr"] by auto
  next
    case False
    have "sublist (s @ [CHR 0x20]) (netstat_row pad (Suc i) ws @ cr) \<longleftrightarrow> (\<exists>w\<in>set (butlast ws). suffix s w)"
      using Cons by simp
    then show ?thesis
      using False sublist_split_end [of "CHR 0x20" s "[]"] sublist_split_end [of "CHR 0x20" s w] assms(1,2) Cons.prems
      by (simp add: row_Cons [OF False])
  qed
  then show ?case
    using sublist_end_blanks [of s "Suc (pad i w)"] assms(1,2) by simp
qed

lemma row_word: "w \<in> set ws \<Longrightarrow> sublist w (netstat_row pad i ws)"
proof (induction ws arbitrary: i)
  case (Cons v ws)
  have "sublist w (v @ netstat_row pad (Suc i) ws)"
    using Cons by (auto simp: sublist_append)
  then have "sublist w (replicate (Suc (pad i v)) CHR 0x20 @ v @ netstat_row pad (Suc i) ws)"
    using sublist_append [of w "replicate (Suc (pad i v)) CHR 0x20"] by blast
  then show ?case by simp
qed simp

lemma fields_word: "plain w \<Longrightarrow> fields_of acc (w @ r) = fields_of (acc @ w) r"
  by (induction w arbitrary: acc) (auto simp: plain_def)

lemma fields_blank [simp]: "fields_of [] (replicate n CHR 0x20 @ r) = fields_of [] r"
  by (induction n) (auto simp: is_space_def)

lemma fields_row:
  assumes "list_all (\<lambda>w. plain w \<and> w \<noteq> []) ws" "line_end cr"
  shows "fields_of [] (netstat_row pad i ws @ cr) = ws"
    and "acc \<noteq> [] \<Longrightarrow> fields_of acc (netstat_row pad i ws @ cr) = acc # ws"
proof -
  have "fields_of [] (netstat_row pad i ws @ cr) = ws \<and> (\<forall>acc. acc \<noteq> [] \<longrightarrow> fields_of acc (netstat_row pad i ws @ cr) = acc # ws)"
    using assms(1)
  proof (induction ws arbitrary: i)
    case Nil
    then show ?case using assms(2) by (auto simp: line_end_def is_space_def)
  next
    case (Cons w ws)
    then show ?case
      using fields_blank [of "pad i w"] by (simp add: is_space_def fields_word)
  qed
  then show "fields_of [] (netstat_row pad i ws @ cr) = ws"
    and "acc \<noteq> [] \<Longrightarrow> fields_of acc (netstat_row pad i ws @ cr) = acc # ws"
    by auto
qed

lemma split_on_row: "c \<notin> set l \<Longrightarrow> split_on c (l @ c # r) = l # split_on c r"
  by (induction l) auto

lemma row_no_newline: "list_all plain ws \<Longrightarrow> CHR 0x0A \<notin> set (netstat_row pad i ws)"
  by (induction ws arbitrary: i) auto

text \<open>
  The lines netstat prints: a listening socket, with protocol, local host and port, foreign
  host and process, and any other line, by its words.
\<close>

datatype net_line = Listener string string i64 string i64 | Other "string list"

fun words_of :: "net_line \<Rightarrow> string list" where
  "words_of (Listener proto host port foreign pid) =
     [proto, host @ '':'' @ FormatInt port, foreign @ '':0'', ''LISTENING'', FormatInt pid]"
| "words_of (Other ws) = ws"

fun net_ok :: "net_line \<Rightarrow> bool" where
  "net_ok (Listener proto host port foreign pid) \<longleftrightarrow>
     plain proto \<and> proto \<noteq> '''' \<and> CHR '':'' \<notin> set proto \<and> plain host \<and> plain foreign \<and> i64_ok port \<and> i64_ok pid"
| "net_ok (Other ws) \<longleftrightarrow> list_all (\<lambda>w. plain w \<and> w \<noteq> '''' \<and> \<not> sublist ''LISTENING'' w) ws"

definition netstat_text :: "(nat \<Rightarrow> string \<Rightarrow> nat) \<Rightarrow> string \<Rightarrow> net_line list \<Rightarrow> string" where
  "netstat_text pad cr lines = concat (map (\<lambda>l. netstat_row pad 0 (words_of l) @ cr @ [CHR 0x0A]) lines)"

fun listener_pid :: "i64 \<Rightarrow> net_line list \<Rightarrow> i64" where
  "listener_pid port [] = 0"
| "listener_pid port (Listener proto host q foreign pid # lines) = (if q = port then pid else listener_pid port lines)"
| "listener_pid port (Other ws # lines) = listener_pid port lines"

lemma plain_FormatInt [simp]: "plain (FormatInt n)"
proof -
  have "\<not> is_space c" if "c \<in> set (FormatInt n)" for c
    using FormatInt_chars [OF that] by (auto simp: is_space_def is_digit_def)
  then show ?thesis by (simp add: plain_def list_all_iff)
qed

lemma FormatInt_no_colon [simp]: "CHR '':'' \<notin> set (FormatInt n)"
  using FormatInt_chars [of "CHR '':''" n] by (auto simp: is_digit_def)

lemma FormatInt_zero: "i64_ok p \<Longrightarrow> FormatInt p = ''0'' \<longleftrightarrow> p = 0"
proof -
  have "FormatInt 0 = ''0''" "i64_ok 0"
    by (simp_all add: FormatInt_def format_nat.simps digit_char_def char_of_eq_iff i64_ok_def i64_min_def i64_max_def)
  then show "i64_ok p \<Longrightarrow> FormatInt p = ''0'' \<longleftrightarrow> p = 0"
    using FormatInt_inject by metis
qed

lemma words_plain: "net_ok l \<Longrightarrow> list_all (\<lambda>w. plain w \<and> w \<noteq> []) (words_of l)"
proof (cases l)
  case (Listener proto host port foreign pid)
  moreover assume "net_ok l"
  ultimately show ?thesis by (simp add: is_space_def)
qed (simp add: list_all_iff)

lemma suffix_port:
  assumes "CHR '':'' \<notin> set q" "CHR '':'' \<notin> set p"
  shows "suffix (CHR '':'' # p) (host @ CHR '':'' # q) \<longleftrightarrow> p = q"
proof
  assume "suffix (CHR '':'' # p) (host @ CHR '':'' # q)"
  then obtain u where "host @ CHR '':'' # q = u @ CHR '':'' # p"
    by (auto simp: suffix_def)
  then have "rev q @ CHR '':'' # rev host = rev p @ CHR '':'' # rev u"
    by (metis append.assoc append_Cons append_Nil rev.simps(2) rev_append)
  then have "takeWhile (\<lambda>c. c \<noteq> CHR '':'') (rev q @ CHR '':'' # rev host) = takeWhile (\<lambda>c. c \<noteq> CHR '':'') (rev p @ CHR '':'' # rev u)"
    by (rule arg_cong)
  moreover have "takeWhile (\<lambda>c. c \<noteq> CHR '':'') (rev r @ CHR '':'' # v) = rev r" if "CHR '':'' \<notin> set r" for r v
    using that by (subst takeWhile_append2) auto
  ultimately show "p = q"
    using assms by simp
qed (simp add: suffix_def)

lemma suffix_no_colon: "CHR '':'' \<notin> set w \<Longrightarrow> \<not> suffix (CHR '':'' # p) w"
  by (auto simp: suffix_def)

lemma line_matches:
  assumes "net_ok l" "line_end cr" "i64_ok p" "p \<noteq> 0"
  shows "Contains (netstat_row pad 0 (words_of l) @ cr) (port_pattern p) \<and>
      Contains (netstat_row pad 0 (words_of l) @ cr) ''LISTENING'' \<longleftrightarrow>
    (\<exists>proto host foreign pid. l = Listener proto host p foreign pid)"
proof -
  have ws: "list_all plain (words_of l)"
    using words_plain [OF assms(1)] by (auto simp: list_all_iff)
  have "plain ''LISTENING''"
    by (simp add: plain_def is_space_def)
  from row_contains [OF this _ ws assms(2)]
  have listening: "Contains (netstat_row pad 0 (words_of l) @ cr) ''LISTENING'' \<longleftrightarrow> (\<exists>w\<in>set (words_of l). sublist ''LISTENING'' w)"
    by (simp add: Contains_def)
  have "plain (CHR '':'' # FormatInt p)"
    using plain_FormatInt [of p] by (simp add: plain_def is_space_def)
  from row_contains_end [OF this _ ws assms(2)]
  have port: "Contains (netstat_row pad 0 (words_of l) @ cr) (port_pattern p) \<longleftrightarrow> (\<exists>w\<in>set (butlast (words_of l)). suffix (CHR '':'' # FormatInt p) w)"
    by (simp add: Contains_def port_pattern_def)
  show ?thesis
  proof (cases l)
    case (Other ws)
    then show ?thesis
      using assms(1) listening by (auto simp: list_all_iff)
  next
    case (Listener proto host q foreign pid)
    have "suffix (CHR '':'' # FormatInt p) (foreign @ '':0'') \<longleftrightarrow> False"
      using suffix_port [of "''0''" "FormatInt p" foreign] assms(3,4) FormatInt_zero [of p] by simp
    moreover have "suffix (CHR '':'' # FormatInt p) (host @ CHR '':'' # FormatInt q) \<longleftrightarrow> p = q"
      using suffix_port [of "FormatInt q" "FormatInt p" host] assms(1,3) FormatInt_inject [of p q] Listener by simp
    ultimately show ?thesis
      using assms(1) listening port suffix_no_colon [of proto] suffix_no_colon [of "''LISTENING''"] Listener by auto
  qed
qed

lemma pid_of_lines_listener:
  assumes "list_all net_ok lines" "line_end cr" "i64_ok p" "p \<noteq> 0"
  shows "pid_of_lines p (map (\<lambda>l. netstat_row pad 0 (words_of l) @ cr) lines @ ['''']) = listener_pid p lines"
  using assms(1)
proof (induction lines)
  case Nil
  then show ?case by (simp add: Contains_def port_pattern_def)
next
  case (Cons l lines)
  then have l: "net_ok l" and IH: "pid_of_lines p (map (\<lambda>l. netstat_row pad 0 (words_of l) @ cr) lines @ ['''']) = listener_pid p lines"
    by simp_all
  have fields: "Fields (netstat_row pad 0 (words_of l) @ cr) = words_of l"
    unfolding Fields_def by (rule fields_row(1) [OF words_plain [OF l] assms(2)])
  show ?case
  proof (cases "\<exists>proto host foreign pid. l = Listener proto host p foreign pid")
    case True
    then obtain proto host foreign pid where eq: "l = Listener proto host p foreign pid"
      by blast
    have "fst (Atoi (FormatInt pid)) = pid"
      using l eq by (simp add: Atoi_def ParseInt_FormatInt)
    with True line_matches [OF l assms(2-4), of pad] fields show ?thesis
      by (simp add: eq)
  next
    case False
    then have "listener_pid p (l # lines) = listener_pid p lines"
      by (cases l) auto
    with False line_matches [OF l assms(2-4), of pad] IH show ?thesis
      by auto
  qed
qed

lemma split_on_netstat:
  assumes "list_all net_ok lines" "line_end cr"
  shows "split_on (CHR 0x0A) (netstat_text pad cr lines) = map (\<lambda>l. netstat_row pad 0 (words_of l) @ cr) lines @ ['''']"
  using assms(1)
proof (induction lines)
  case (Cons l lines)
  have "list_all plain (words_of l)"
    using Cons.prems words_plain [of l] by (auto simp: list_all_iff)
  then have "CHR 0x0A \<notin> set (netstat_row pad 0 (words_of l) @ cr)"
    using row_no_newline assms(2) by (auto simp: line_end_def)
  from split_on_row [OF this, of "netstat_text pad cr lines"] Cons show ?case
    by (simp add: netstat_text_def)
qed (simp add: netstat_text_def)

lemma findPIDByPort_listener:
  assumes "os_netstat sys (h @ [Netstat]) = (netstat_text pad cr lines, True)"
    and "list_all net_ok lines" "line_end cr" "i64_ok p" "p \<noteq> 0"
  shows "findPIDByPort sys p h = (Some (listener_pid p lines), h @ [Netstat])"
  by (simp add: findPIDByPort_def act_defs assms(1) split_on_netstat [OF assms(2,3)] pid_of_lines_listener [OF assms(2-5)])

text \<open>
  C33: Stopping an instance kills the process that listens on the port of the instance, if there
  is one, and nothing else, whatever other sockets netstat lists and however it pads the columns.
\<close>

theorem stop_kills_listener:
  assumes "target \<noteq> ''all''" "\<not> isGRPCService cfg target"
    and "find_node cfg (os_services sys (h @ [RangeServices])) target = (svc, Some n)" "svc \<noteq> ''''"
    and "ParseHostPort (listenAddr n) = Inr (host, p)" "i64_ok p" "p \<noteq> 0"
    and "os_netstat sys (h @ [RangeServices, Netstat]) = (netstat_text pad cr lines, True)"
    and "list_all net_ok lines" "line_end cr"
    and "os_process sys (h @ [RangeServices, Netstat, FindProcess (listener_pid p lines)])"
  shows "doStop sys cfg target h = (Some (), h @ [RangeServices, Netstat] @
    (if 0 < listener_pid p lines then [FindProcess (listener_pid p lines), Kill (listener_pid p lines), Sleep 300] else []))"
proof -
  have "findPIDByPort sys p (h @ [RangeServices]) = (Some (listener_pid p lines), h @ [RangeServices, Netstat])"
    using findPIDByPort_listener [of sys "h @ [RangeServices]" pad cr lines p] assms by simp
  with assms(1-5,11) show ?thesis
    by (simp add: doStop_def target_port_def findServiceNode_def killByPort_def act_defs)
qed

text \<open>
  portOccupied looks for the port and for a listening socket anywhere in the output: a
  connection to the port of another machine makes the port count as occupied, and the
  instance is reported as running and not started.
\<close>

theorem remote_port_blocks_start:
  assumes "os_netstat sys (h @ [Netstat]) = (netstat_text pad cr [Other [''TCP'', local, remote @ '':'' @ FormatInt p, ''ESTABLISHED'', pid1],
      Listener ''TCP'' host q foreign pid2], ok)"
    and "\<not> isGRPCService cfg svc"
  shows "startOne sys cfg svc sid p path h = (Some (), h @ [Netstat])"
proof -
  let ?l = "Other [''TCP'', local, remote @ '':'' @ FormatInt p, ''ESTABLISHED'', pid1]" and ?m = "Listener ''TCP'' host q foreign pid2"
  have "sublist (port_pattern p) (netstat_text pad cr [?l, ?m])"
    unfolding sublist_def by (intro exI [of _ "replicate (Suc (pad 0 ''TCP'')) CHR 0x20 @ ''TCP'' @ replicate (Suc (pad 1 local)) CHR 0x20 @ local @
        replicate (Suc (pad 2 (remote @ '':'' @ FormatInt p))) CHR 0x20 @ remote"] exI) (simp add: netstat_text_def port_pattern_def numeral_2_eq_2)
  moreover have "sublist ''LISTENING'' (netstat_row pad 0 (words_of ?m))"
    by (rule row_word) simp
  then have "sublist ''LISTENING'' (netstat_text pad cr [?l, ?m])"
    unfolding netstat_text_def by (simp only: list.map concat.simps sublist_append) blast
  ultimately show ?thesis
    using assms by (simp add: startOne_def portOccupied_def act_defs Contains_def)
qed


text \<open>A chat server that listens, and a connection between other processes.\<close>

definition busy_lines :: "net_line list" where
  "busy_lines = [Other [''Active'', ''Connections''], Other [''TCP'', ''10.0.0.1:8001'', ''10.0.0.2:80'', ''ESTABLISHED'', ''5''],
     Listener ''TCP'' ''0.0.0.0'' 8001 ''0.0.0.0'' 7, Listener ''TCP'' ''[::]'' 9000 ''[::]'' 8]"

definition busy_os :: os where
  "busy_os = idle_os\<lparr>os_netstat := (\<lambda>_. (netstat_text (\<lambda>i w. 20 - length w) [CHR 0x0D] busy_lines, True))\<rparr>"

theorem stop_kills_listener_witness:
  "doStop busy_os two_services ''cs-1'' [] = (Some (), [RangeServices, Netstat, FindProcess 7, Kill 7, Sleep 300])"
proof -
  have pid: "listener_pid 8001 busy_lines = 7" and ok: "list_all net_ok busy_lines" "line_end [CHR 0x0D]" "i64_ok 8001"
    by (simp_all add: busy_lines_def is_space_def sublist_code line_end_def i64_ok_def i64_min_def i64_max_def)
  have "find_node two_services (os_services busy_os ([] @ [RangeServices])) ''cs-1'' = (SvcChatSvr, Some cs_node)"
    by (simp add: busy_os_def idle_os_def services_def two_services_def cs_node_def ws_node_def SvcChatSvr_def SvcGateway_def)
  moreover have "\<not> isGRPCService two_services ''cs-1''" "SvcChatSvr \<noteq> ''''" "ParseHostPort (listenAddr cs_node) = Inr ('''', 8001)"
    by (simp_all add: isGRPCService_def two_services_def empty_Config_def SvcChatSvr_def cs_node_def listenAddr_def idle_ports)
  ultimately have "doStop busy_os two_services ''cs-1'' [] = (Some (), [] @ [RangeServices, Netstat] @
      (if 0 < listener_pid 8001 busy_lines then [FindProcess (listener_pid 8001 busy_lines), Kill (listener_pid 8001 busy_lines), Sleep 300] else []))"
    by (intro stop_kills_listener [where n = cs_node and svc = SvcChatSvr and host = "''''" and pad = "\<lambda>i w. 20 - length w" and cr = "[CHR 0x0D]"])
      (simp_all add: ok busy_os_def idle_os_def)
  then show ?thesis by (simp add: pid)
qed

section \<open>What the etcd command lists\<close>

text \<open>The encoding of RFC 4648, which the HTTP gateway of etcd uses for keys and values.\<close>

definition b64_char :: "nat \<Rightarrow> char" where
  "b64_char i = char_of (if i < 26 then i + 65 else if i < 52 then i + 71 else if i < 62 then i - 4 else if i = 62 then 43 else 47)"

fun b64_encode :: "string \<Rightarrow> string" where
  "b64_encode (a # b # c # r) =
     b64_char (of_char a div 4) # b64_char (of_char a mod 4 * 16 + of_char b div 16) #
     b64_char (of_char b mod 16 * 4 + of_char c div 64) # b64_char (of_char c mod 64) # b64_encode r"
| "b64_encode [a, b] =
     [b64_char (of_char a div 4), b64_char (of_char a mod 4 * 16 + of_char b div 16), b64_char (of_char b mod 16 * 4), CHR ''='']"
| "b64_encode [a] = [b64_char (of_char a div 4), b64_char (of_char a mod 4 * 16), CHR ''='', CHR ''='']"
| "b64_encode [] = []"

lemma of_char_b64:
  "i < 64 \<Longrightarrow> of_char (b64_char i) = (if i < 26 then i + 65 else if i < 52 then i + 71 else if i < 62 then i - 4 else if i = 62 then 43 else 47)"
  by (simp add: b64_char_def)

lemma b64_digit_char:
  assumes "i < 64"
  shows "b64_digit (b64_char i) = Some i"
proof -
  have last: "b64_char 62 = CHR ''+''" "b64_char 63 = CHR ''/''"
    by (simp_all add: b64_char_def char_of_eq_iff)
  consider "i < 26" | "26 \<le> i" "i < 52" | "52 \<le> i" "i < 62" | "i = 62" | "i = 63"
    using assms by linarith
  then show ?thesis
  proof cases
    case 3
    then have "of_char (b64_char i) = i - 4" "48 \<le> i - 4" "i - 4 \<le> 57" "i - 4 + 4 = i"
      by (simp_all add: of_char_b64)
    then show ?thesis unfolding b64_digit_def Let_def by simp
  next
    case 4
    then show ?thesis by (simp add: last b64_digit_def)
  next
    case 5
    then show ?thesis by (simp add: last b64_digit_def)
  qed (simp_all add: b64_digit_def of_char_b64)
qed

lemma b64_digit_pad: "b64_digit (CHR ''='') = None"
  by (simp add: b64_digit_def)

lemma b64_char_clean:
  assumes "i < 64"
  shows "b64_char i \<noteq> CHR 0x0A \<and> b64_char i \<noteq> CHR 0x0D"
proof -
  have "(of_char (b64_char i) :: nat) \<noteq> 10" "(of_char (b64_char i) :: nat) \<noteq> 13"
    using of_char_b64 [OF assms] by (simp_all split: if_splits)
  then show ?thesis by auto
qed

lemma b64_roundtrip: "b64_decode (b64_encode s) = s"
proof -
  have lt: "(of_char c :: nat) div 4 < 64" "(of_char c :: nat) div 16 < 16" "(of_char c :: nat) div 64 < 4"
    "(of_char a :: nat) mod 4 * 16 + of_char b div 16 < 64" "(of_char a :: nat) mod 16 * 4 + of_char b div 64 < 64"
    "(of_char a :: nat) mod 4 * 16 < 64" "(of_char a :: nat) mod 16 * 4 < 64" for a b c
  proof -
    show div: "(of_char c :: nat) div 4 < 64" "(of_char c :: nat) div 16 < 16" "(of_char c :: nat) div 64 < 4" for c
      using nat_of_char_less_256 [of c] by (simp_all add: less_mult_imp_div_less)
    have "(of_char a :: nat) mod 4 < 4" "(of_char a :: nat) mod 16 < 16"
      by simp_all
    with div(2,3) [of b] show "(of_char a :: nat) mod 4 * 16 + of_char b div 16 < 64" "(of_char a :: nat) mod 16 * 4 + of_char b div 64 < 64"
      "(of_char a :: nat) mod 4 * 16 < 64" "(of_char a :: nat) mod 16 * 4 < 64"
      by linarith+
  qed
  have "filter (\<lambda>c. c \<noteq> CHR 0x0A \<and> c \<noteq> CHR 0x0D) (b64_encode s) = b64_encode s"
    by (induction s rule: b64_encode.induct) (simp_all add: lt b64_char_clean)
  moreover have "b64_groups (b64_encode s) = s"
  proof (induction s rule: b64_encode.induct)
    case (1 a b c r)
    have "(of_char a mod 4 * 16 + of_char b div 16) div 16 = (of_char a mod 4 :: nat)"
      "(of_char a mod 4 * 16 + of_char b div 16) mod 16 = (of_char b div 16 :: nat)"
      "(of_char b mod 16 * 4 + of_char c div 64) div 4 = (of_char b mod 16 :: nat)"
      "(of_char b mod 16 * 4 + of_char c div 64) mod 4 = (of_char c div 64 :: nat)"
      using lt(2) [of b] lt(3) [of c] by simp_all
    with 1 show ?case
      by (simp add: b64_digit_char lt div_mult_mod_eq mod_div_mult_eq)
  next
    case (2 a b)
    have "(of_char a mod 4 * 16 + of_char b div 16) div 16 = (of_char a mod 4 :: nat)"
      "(of_char a mod 4 * 16 + of_char b div 16) mod 16 = (of_char b div 16 :: nat)"
      using lt(2) [of b] by simp_all
    then show ?case
      by (simp add: b64_digit_char b64_digit_pad lt div_mult_mod_eq)
  next
    case (3 a)
    show ?case
      by (simp add: b64_digit_char b64_digit_pad lt div_mult_mod_eq)
  qed simp
  ultimately show ?thesis by (simp add: b64_decode_def)
qed

lemma prefix_range:
  assumes "(of_char d :: nat) = Suc (of_char c)"
  shows "p @ [c] \<le> k \<and> k < p @ [d] \<longleftrightarrow> prefix (p @ [c]) k"
proof (induction p arbitrary: k)
  case Nil
  have "(c < x \<or> c = x) \<and> x < d \<longleftrightarrow> x = c" for x
  proof -
    have "c \<le> x \<and> x < d \<longleftrightarrow> (of_char x :: nat) = of_char c"
      unfolding less_char_def less_eq_char_def assms by linarith
    then show ?thesis by (simp only: le_less of_char_eq_iff)
  qed
  then show ?case
    by (cases k) (simp_all, metis)
next
  case (Cons x p)
  have irr: "\<not> (x < y \<and> y < x)" for y :: char
    using less_asym by blast
  show ?case
  proof (cases k)
    case (Cons y ys)
    then show ?thesis
      using Cons.IH [of ys] irr [of y] by (simp only: append_Cons Cons_le_Cons Cons_less_Cons Cons_prefix_Cons) blast
  qed simp
qed

text \<open>
  The HTTP gateway of etcd: a range request is answered with the encoded keys in the range
  and their values, in order; \<open>kvs_of\<close> reads them from the answer.
\<close>

definition etcd_gateway :: "os \<Rightarrow> (bytes \<Rightarrow> (string \<times> string) list) \<Rightarrow> (string, string) fmap \<Rightarrow> bool" where
  "etcd_gateway sys kvs_of kv \<longleftrightarrow> (\<forall>h lo hi. CHR 0x22 \<notin> set lo \<longrightarrow> CHR 0x22 \<notin> set hi \<longrightarrow> (\<exists>body. os_post sys (h @ [Post etcd_url (range_request lo hi)]) = Some body \<and>
     kvs_of body = map (\<lambda>(k, v). (b64_encode k, b64_encode v))
       (filter (\<lambda>(k, v). b64_decode lo \<le> k \<and> k < b64_decode hi) (sorted_list_of_fmap kv))))"

lemma each_print: "each (\<lambda>x. tell (Print (f x))) xs h = (Some (), h @ map (\<lambda>x. Print (f x)) xs)"
  by (induction xs arbitrary: h) (simp_all add: act_defs)

lemma services_range:
  "b64_decode ''L3NlcnZpY2VzLw=='' \<le> k \<and> k < b64_decode ''L3NlcnZpY2VzMA=='' \<longleftrightarrow> prefix ''/services/'' k"
proof -
  have "b64_decode ''L3NlcnZpY2VzLw=='' = ''/services'' @ [CHR ''/'']" "b64_decode ''L3NlcnZpY2VzMA=='' = ''/services'' @ [CHR ''0'']"
    by (simp_all add: b64_decode_def b64_digit_def char_of_eq_iff)
  moreover have "(of_char CHR ''0'' :: nat) = Suc (of_char CHR ''/'')"
    by simp
  ultimately have "b64_decode ''L3NlcnZpY2VzLw=='' \<le> k \<and> k < b64_decode ''L3NlcnZpY2VzMA=='' \<longleftrightarrow> prefix (''/services'' @ [CHR ''/'']) k"
    using prefix_range [of "CHR ''0''" "CHR ''/''" "''/services''" k] by (simp only:)
  then show ?thesis by simp
qed

lemma showEtcd_run:
  assumes "os_post sys (h @ [Post etcd_url (range_request ''L3NlcnZpY2VzLw=='' ''L3NlcnZpY2VzMA=='')]) = Some body"
    and "kvs_of body = map (\<lambda>(k, v). (b64_encode k, b64_encode v)) kvs"
  shows "showEtcd sys kvs_of h = (Some (), h @ Post etcd_url (range_request ''L3NlcnZpY2VzLw=='' ''L3NlcnZpY2VzMA=='') #
    (if kvs = [] then [Print ''No services registered in etcd'']
     else Print ''Registered services:'' # map (\<lambda>(k, v). Print (''  '' @ k @ '' -> '' @ v)) kvs))"
proof -
  have "each (\<lambda>(k, v). tell (Print (''  '' @ b64_decode k @ '' -> '' @ b64_decode v))) (kvs_of body) g =
      (Some (), g @ map (\<lambda>(k, v). Print (''  '' @ k @ '' -> '' @ v)) kvs)" for g
    using each_print [of "\<lambda>(k, v). ''  '' @ b64_decode k @ '' -> '' @ b64_decode v" "kvs_of body" g]
    by (simp add: split_def assms(2) o_def b64_roundtrip)
  with assms(1) show ?thesis
    unfolding showEtcd_def thn_def bnd_def ask_def tell_def
    by (simp only: prod.case option.case if_distribR) (simp add: assms(2))
qed

text \<open>
  The etcd command prints the registered services: of the keys and values in etcd exactly those
  below the prefix under which services register, decoded and in order.
\<close>

theorem etcd_command_lists:
  assumes "etcd_gateway sys kvs_of kv"
  shows "\<exists>request. showEtcd sys kvs_of h = (Some (), h @ request #
    (case filter (\<lambda>(k, v). prefix ''/services/'' k) (sorted_list_of_fmap kv) of
       [] \<Rightarrow> [Print ''No services registered in etcd'']
     | kvs \<Rightarrow> Print ''Registered services:'' # map (\<lambda>(k, v). Print (''  '' @ k @ '' -> '' @ v)) kvs))"
proof -
  let ?lo = "''L3NlcnZpY2VzLw==''" and ?hi = "''L3NlcnZpY2VzMA==''"
    and ?kvs = "filter (\<lambda>(k, v). prefix ''/services/'' k) (sorted_list_of_fmap kv)"
  have "CHR 0x22 \<notin> set ?lo" "CHR 0x22 \<notin> set ?hi"
    by simp_all
  from assms [unfolded etcd_gateway_def, rule_format, OF this, of h, unfolded services_range]
  obtain body where "os_post sys (h @ [Post etcd_url (range_request ?lo ?hi)]) = Some body"
      "kvs_of body = map (\<lambda>(k, v). (b64_encode k, b64_encode v)) ?kvs"
    by blast
  then have "showEtcd sys kvs_of h = (Some (), h @ Post etcd_url (range_request ?lo ?hi) #
    (if ?kvs = [] then [Print ''No services registered in etcd'']
     else Print ''Registered services:'' # map (\<lambda>(k, v). Print (''  '' @ k @ '' -> '' @ v)) ?kvs))"
    by (rule showEtcd_run)
  then show ?thesis
    by (intro exI [of _ "Post etcd_url (range_request ?lo ?hi)"]) (cases ?kvs, simp_all only: list.case list.distinct if_True if_False simp_thms)
qed


text \<open>A gateway that answers from the request itself, and a store with one service.\<close>

definition answer_range :: "(string, string) fmap \<Rightarrow> bytes \<Rightarrow> (string \<times> string) list" where
  "answer_range kv body = map (\<lambda>(k, v). (b64_encode k, b64_encode v))
     (filter (\<lambda>(k, v). b64_decode (split_on CHR 0x22 body ! 3) \<le> k \<and> k < b64_decode (split_on CHR 0x22 body ! 7)) (sorted_list_of_fmap kv))"

definition echo_os :: os where
  "echo_os = idle_os\<lparr>os_post := (\<lambda>h. case last h of Post url body \<Rightarrow> Some body | _ \<Rightarrow> None)\<rparr>"

lemma echo_gateway: "etcd_gateway echo_os (answer_range kv) kv"
proof -
  have "split_on CHR 0x22 (range_request lo hi) ! 3 = lo" "split_on CHR 0x22 (range_request lo hi) ! 7 = hi"
    if "CHR 0x22 \<notin> set lo" "CHR 0x22 \<notin> set hi" for lo hi
    using that by (simp_all add: range_request_def quoted_def split_on_row)
  then show ?thesis
    by (simp add: etcd_gateway_def echo_os_def answer_range_def)
qed

theorem etcd_command_lists_witness:
  "\<exists>request. showEtcd echo_os (answer_range (fmupd ''/services/user-service/u1'' '':50051'' (fmupd ''/x'' ''y'' fmempty)))  [] =
    (Some (), [request, Print ''Registered services:'', Print ''  /services/user-service/u1 -> :50051''])"
proof -
  let ?kv = "fmupd ''/services/user-service/u1'' '':50051'' (fmupd ''/x'' ''y'' fmempty)"
  have "filter (\<lambda>(k, v). prefix ''/services/'' k) (sorted_list_of_fmap ?kv) = [(''/services/user-service/u1'', '':50051'')]"
    by (simp add: sorted_list_of_fmap_def sorted_list_of_fset.rep_eq sorted_list_of_set_insert_remove)
  with etcd_command_lists [OF echo_gateway, of ?kv "[]"] show ?thesis
    by simp
qed

end
