(* ===== verification/SvcBuild.thy ===== *)
theory SvcBuild
  imports SvcQuery
begin

text \<open>
  What the build command of the command line helper builds, and what the status command
  shows, on a system whose directories and sockets do not change meanwhile.
\<close>

section \<open>Building all services\<close>

text \<open>A tree of directories: the entries of each directory, and the paths that exist.\<close>

definition fixed_files :: "os \<Rightarrow> (string \<Rightarrow> (string \<times> bool) list) \<Rightarrow> string set \<Rightarrow> bool" where
  "fixed_files sys dirs files \<longleftrightarrow>
     (\<forall>h p. os_dir sys (h @ [ReadDir p]) = dirs p) \<and>
     (\<forall>h p. os_stat sys (h @ [Stat p]) = (if p \<in> files then Exists else NotExists))"

definition nested_in :: "(string \<Rightarrow> (string \<times> bool) list) \<Rightarrow> string set \<Rightarrow> string \<Rightarrow> string list" where
  "nested_in dirs files d = map fst (filter (\<lambda>(e, isdir). isdir \<and> ''apps/'' @ d @ ''/'' @ e @ ''/cmd'' \<in> files) (dirs (''apps/'' @ d)))"

definition services_in :: "(string \<Rightarrow> (string \<times> bool) list) \<Rightarrow> string set \<Rightarrow> string list" where
  "services_in dirs files = concat (map (\<lambda>d. if ''apps/'' @ d @ ''/cmd'' \<in> files then [d] else nested_in dirs files d)
     (map fst (filter snd (dirs ''apps''))))"

definition path_in :: "(string \<Rightarrow> (string \<times> bool) list) \<Rightarrow> string set \<Rightarrow> string \<Rightarrow> string" where
  "path_in dirs files svc =
     (case find (\<lambda>(d, isdir). isdir \<and> ''apps/'' @ d @ ''/'' @ svc @ ''/cmd'' \<in> files) (dirs ''apps'') of
        Some (d, _) \<Rightarrow> ''apps/'' @ d @ ''/'' @ svc @ ''/cmd''
      | None \<Rightarrow> if ''apps/'' @ svc @ ''/cmd'' \<in> files then ''apps/'' @ svc @ ''/cmd'' else '''')"

definition runs :: "call list \<Rightarrow> call list" where
  "runs h = filter (\<lambda>c. case c of Run _ _ _ \<Rightarrow> True | _ \<Rightarrow> False) h"

lemma runs_simps [simp]: "runs [] = []" "runs (h @ g) = runs h @ runs g" "runs (Run e c a # h) = Run e c a # runs h"
  by (simp_all add: runs_def)

lemma runs_skip [simp]: "\<nexists>e c a. x = Run e c a \<Longrightarrow> runs (x # h) = runs h"
  by (cases x) (simp_all add: runs_def)

text \<open>An action that returns a value after calls that run no command.\<close>

definition reads :: "'a act \<Rightarrow> 'a \<Rightarrow> bool" where
  "reads m a \<longleftrightarrow> (\<forall>h. \<exists>g. m h = (Some a, h @ g) \<and> runs g = [])"

lemma reads_ret: "a = b \<Longrightarrow> reads (ret a) b"
  by (simp add: reads_def ret_def)

lemma reads_bnd: "reads m a \<Longrightarrow> reads (f a) b \<Longrightarrow> reads (bnd m f) b"
  unfolding reads_def bnd_def by (metis (no_types, lifting) append.assoc append_Nil2 case_prod_conv option.simps(5) runs_simps(2))

lemma reads_ask: "(\<And>h. q (h @ [c]) = a) \<Longrightarrow> runs [c] = [] \<Longrightarrow> reads (ask q c) a"
  by (simp add: reads_def ask_def)

lemma reads_dir: "fixed_files sys dirs files \<Longrightarrow> reads (ask (os_dir sys) (ReadDir p)) (dirs p)"
  by (intro reads_ask) (simp_all add: fixed_files_def)

lemma reads_stat: "fixed_files sys dirs files \<Longrightarrow> reads (ask (os_stat sys) (Stat p)) (if p \<in> files then Exists else NotExists)"
  by (intro reads_ask) (simp_all add: fixed_files_def)

lemma reads_nested_services:
  assumes "fixed_files sys dirs files"
  shows "reads (nested_services sys d es)
    (map fst (filter (\<lambda>(e, isdir). isdir \<and> ''apps/'' @ d @ ''/'' @ e @ ''/cmd'' \<in> files) es))"
proof (induction es)
  case (Cons x es)
  obtain e isdir where x: "x = (e, isdir)" by (cases x)
  show ?case
  proof (cases isdir)
    case True
    show ?thesis
      unfolding x nested_services.simps using True
      by (auto intro!: reads_bnd [OF reads_stat [OF assms]] reads_bnd [OF Cons.IH] reads_ret)
  next
    case False
    with Cons.IH x show ?thesis by simp
  qed
qed (simp add: reads_ret)

lemma reads_discover_dirs:
  assumes "fixed_files sys dirs files"
  shows "reads (discover_dirs sys ds) (concat (map (\<lambda>d. if ''apps/'' @ d @ ''/cmd'' \<in> files then [d] else nested_in dirs files d)
     (map fst (filter snd ds))))"
proof (induction ds)
  case (Cons x ds)
  obtain d isdir where x: "x = (d, isdir)" by (cases x)
  show ?case
  proof (cases isdir)
    case True
    then show ?thesis
      unfolding x discover_dirs.simps
      by (auto simp: nested_in_def intro!: reads_bnd [OF reads_stat [OF assms]] reads_bnd [OF Cons.IH] reads_ret
        reads_bnd [OF reads_dir [OF assms]] reads_bnd [OF reads_nested_services [OF assms]])
  next
    case False
    with Cons.IH x show ?thesis by simp
  qed
qed (simp add: reads_ret)

lemma reads_discoverServices: "fixed_files sys dirs files \<Longrightarrow> reads (discoverServices sys) (services_in dirs files)"
  unfolding discoverServices_def services_in_def by (rule reads_bnd [OF reads_dir reads_discover_dirs])

lemma reads_nested_path:
  assumes "fixed_files sys dirs files"
  shows "reads (nested_path sys svc ds) (map_option (\<lambda>(d, _). ''apps/'' @ d @ ''/'' @ svc @ ''/cmd'')
    (find (\<lambda>(d, isdir). isdir \<and> ''apps/'' @ d @ ''/'' @ svc @ ''/cmd'' \<in> files) ds))"
proof (induction ds)
  case (Cons x ds)
  obtain d isdir where x: "x = (d, isdir)" by (cases x)
  show ?case
  proof (cases isdir)
    case True
    then show ?thesis
      unfolding x nested_path.simps using Cons.IH
      by (auto intro!: reads_bnd [OF reads_stat [OF assms]] reads_ret)
  next
    case False
    with Cons.IH x show ?thesis by simp
  qed
qed (simp add: reads_ret)

lemma reads_findServicePath:
  assumes "fixed_files sys dirs files"
  shows "reads (findServicePath sys svc) (path_in dirs files svc)"
  unfolding findServicePath_def path_in_def
  by (intro reads_bnd [OF reads_dir [OF assms]] reads_bnd [OF reads_nested_path [OF assms]])
    (auto split: option.split intro!: reads_ret reads_bnd [OF reads_stat [OF assms]])

text \<open>Every service that is discovered has a path.\<close>

lemma services_have_paths:
  assumes "svc \<in> set (services_in dirs files)"
  shows "path_in dirs files svc \<noteq> '''' \<and> path_in dirs files svc \<in> files"
proof (cases "find (\<lambda>(d, isdir). isdir \<and> ''apps/'' @ d @ ''/'' @ svc @ ''/cmd'' \<in> files) (dirs ''apps'')")
  case None
  then have "\<not> (\<exists>d. (d, True) \<in> set (dirs ''apps'') \<and> ''apps/'' @ d @ ''/'' @ svc @ ''/cmd'' \<in> files)"
    by (auto simp: find_None_iff)
  then have "''apps/'' @ svc @ ''/cmd'' \<in> files"
    using assms by (auto simp: services_in_def nested_in_def split: if_splits)
  with None show ?thesis by (simp add: path_in_def)
next
  case (Some x)
  obtain d isdir where x: "x = (d, isdir)" by (cases x)
  with Some have "''apps/'' @ d @ ''/'' @ svc @ ''/cmd'' \<in> files"
    by (auto simp: find_Some_iff)
  with Some x show ?thesis by (simp add: path_in_def)
qed

definition build_call :: "os \<Rightarrow> string \<Rightarrow> string \<Rightarrow> call" where
  "build_call sys svc path = Run [] ''go'' [''build'', ''-o'', ''bin/'' @ svc @ exeExt sys, ''./'' @ path]"

lemma buildOne_run:
  assumes "fixed_files sys dirs files" "\<And>h. os_run sys h" "path_in dirs files svc \<noteq> ''''"
  shows "\<exists>g. buildOne sys svc h = (Some (), h @ g) \<and> runs g = [build_call sys svc (path_in dirs files svc)]"
proof -
  obtain g where "findServicePath sys svc h = (Some (path_in dirs files svc), h @ g)" "runs g = []"
    using reads_findServicePath [OF assms(1)] unfolding reads_def by blast
  with assms(2,3) show ?thesis
    by (intro exI [of _ "g @ [build_call sys svc (path_in dirs files svc)]"])
      (simp add: buildOne_def must_run_def build_call_def act_defs)
qed

lemma each_build_run:
  assumes "fixed_files sys dirs files" "\<And>h. os_run sys h" "\<And>svc. svc \<in> set svcs \<Longrightarrow> path_in dirs files svc \<noteq> ''''"
  shows "\<exists>g. each (buildOne sys) svcs h = (Some (), h @ g) \<and> runs g = map (\<lambda>svc. build_call sys svc (path_in dirs files svc)) svcs"
  using assms(3)
proof (induction svcs arbitrary: h)
  case (Cons svc svcs)
  obtain g where g: "buildOne sys svc h = (Some (), h @ g)" "runs g = [build_call sys svc (path_in dirs files svc)]"
    using buildOne_run [OF assms(1,2)] Cons.prems by force
  obtain g' where "each (buildOne sys) svcs (h @ g) = (Some (), (h @ g) @ g')"
      "runs g' = map (\<lambda>svc. build_call sys svc (path_in dirs files svc)) svcs"
    using Cons.IH [of "h @ g"] Cons.prems by auto
  with g show ?case
    by (intro exI [of _ "g @ g'"]) (simp add: thn_def bnd_def)
qed (simp add: act_defs)

text \<open>
  C34: The command build all finds the services by one scan of the directories and the path of each by another.
  While the directories stay as they are and the builds succeed, it returns, having built
  every service found, once and in order, from a path that exists, and itself last.
\<close>

theorem build_all:
  assumes "fixed_files sys dirs files" "\<And>h. os_run sys h"
  shows "(\<exists>h'. doBuild sys cfg ''all'' h = (Some (), h') \<and>
      runs h' = runs h @ map (\<lambda>svc. build_call sys svc (path_in dirs files svc)) (services_in dirs files) @
        [Run [] ''go'' [''build'', ''-o'', ''bin/svchelper'' @ exeExt sys, ''./tools/svchelper/'']]) \<and>
    list_all (\<lambda>svc. path_in dirs files svc \<in> files) (services_in dirs files)"
proof
  let ?self = "Run [] ''go'' [''build'', ''-o'', ''bin/svchelper'' @ exeExt sys, ''./tools/svchelper/'']"
  obtain g where g: "discoverServices sys h = (Some (services_in dirs files), h @ g)" "runs g = []"
    using reads_discoverServices [OF assms(1)] unfolding reads_def by blast
  obtain g' where g': "each (buildOne sys) (services_in dirs files) (h @ g) = (Some (), (h @ g) @ g')"
      "runs g' = map (\<lambda>svc. build_call sys svc (path_in dirs files svc)) (services_in dirs files)"
    using each_build_run [OF assms(1,2), of "services_in dirs files" "h @ g"] services_have_paths by blast
  have "doBuild sys cfg ''all'' h = (Some (), h @ g @ g' @ [?self])"
    using g g' by (simp add: doBuild_def buildSelf_def thn_def bnd_def ask_def ret_def)
  with g(2) g'(2) show "\<exists>h'. doBuild sys cfg ''all'' h = (Some (), h') \<and>
      runs h' = runs h @ map (\<lambda>svc. build_call sys svc (path_in dirs files svc)) (services_in dirs files) @ [?self]"
    by simp
  show "list_all (\<lambda>svc. path_in dirs files svc \<in> files) (services_in dirs files)"
    using services_have_paths by (auto simp: list_all_iff)
qed

text \<open>The directories of the repository with one flat and one nested service.\<close>

definition repo_dirs :: "string \<Rightarrow> (string \<times> bool) list" where
  "repo_dirs p = (if p = ''apps'' then [(''chatsvr'', True), (''README'', False), (''user'', True)]
     else if p = ''apps/user'' then [(''user-service'', True)] else [])"

definition repo_files :: "string set" where
  "repo_files = {''apps/chatsvr/cmd'', ''apps/user/user-service/cmd''}"

definition build_os :: os where
  "build_os = idle_os\<lparr>os_dir := (\<lambda>h. case last h of ReadDir p \<Rightarrow> repo_dirs p | _ \<Rightarrow> []),
     os_stat := (\<lambda>h. case last h of Stat p \<Rightarrow> if p \<in> repo_files then Exists else NotExists | _ \<Rightarrow> StatError)\<rparr>"

theorem build_all_witness:
  "\<exists>h. doBuild build_os empty_Config ''all'' [] = (Some (), h) \<and>
     runs h = [build_call build_os ''chatsvr'' ''apps/chatsvr/cmd'', build_call build_os ''user-service'' ''apps/user/user-service/cmd'',
       Run [] ''go'' [''build'', ''-o'', ''bin/svchelper'', ''./tools/svchelper/'']]"
proof -
  have "fixed_files build_os repo_dirs repo_files" "\<And>h. os_run build_os h" and ext: "exeExt build_os = ''''"
    by (simp_all add: fixed_files_def build_os_def idle_os_def exeExt_def)
  note run = build_all [OF this(1,2), of empty_Config "[]"]
  have svcs: "services_in repo_dirs repo_files = [''chatsvr'', ''user-service'']"
    by (simp add: services_in_def nested_in_def repo_dirs_def repo_files_def)
  have "path_in repo_dirs repo_files ''chatsvr'' = ''apps/chatsvr/cmd''"
    "path_in repo_dirs repo_files ''user-service'' = ''apps/user/user-service/cmd''"
    by (simp_all add: path_in_def repo_dirs_def repo_files_def)
  with run show ?thesis
    by (simp add: svcs ext)
qed

section \<open>The status of all instances\<close>

text \<open>The lines with the instances themselves, without the links between them.\<close>

fun heads :: "call list \<Rightarrow> status_line list" where
  "heads [] = []"
| "heads (Status (Up label svc) # h) = Up label svc # heads h"
| "heads (Status (Down label svc) # h) = Down label svc # heads h"
| "heads (c # h) = heads h"

lemma heads_append [simp]: "heads (h @ g) = heads h @ heads g"
  by (induction h rule: heads.induct) simp_all

lemma heads_skip [simp]: "\<nexists>l. c = Status l \<Longrightarrow> heads (c # h) = heads h"
  by (cases c) simp_all

definition node_port :: "ServerNode \<Rightarrow> i64" where
  "node_port n = snd (projr (ParseHostPort (listenAddr n)))"

definition node_ok :: "string \<Rightarrow> ServerNode \<Rightarrow> bool" where
  "node_ok svc n \<longleftrightarrow> sn_ID n \<noteq> '''' \<and> \<not> isl (ParseHostPort (listenAddr n)) \<and> node_port n \<in> {1..65535} \<and>
     (if svc = SvcGateway then sn_WSListen n \<noteq> '''' \<and> \<not> isl (ParseHostPort (sn_TCPListen n)) else sn_WSListen n = '''')"

definition head_of :: "net_line list \<Rightarrow> string \<Rightarrow> ServerNode \<Rightarrow> status_line" where
  "head_of lines svc n =
     (let pid = listener_pid (node_port n) lines;
          label = (if svc = SvcGateway then sn_ID n @ '' (ws:'' @ FormatInt (node_port n) @ '')'' else sn_ID n)
      in if 0 < pid then Up (label @ '' pid:'' @ FormatInt pid) svc else Down label svc)"

definition inst_of :: "string \<Rightarrow> ServerNode \<Rightarrow> svcInstance" where
  "inst_of svc n = \<lparr>si_id = sn_ID n, si_svc = svc, si_port = (if svc = SvcGateway then 0 else node_port n),
     si_wsPort = (if svc = SvcGateway then node_port n else 0),
     si_tcpPort = (if svc = SvcGateway then snd (projr (ParseHostPort (sn_TCPListen n))) else 0)\<rparr>"

lemma svc_instance_eq: "node_ok svc n \<Longrightarrow> svc_instance svc n = Inr (inst_of svc n)"
  by (auto simp: node_ok_def svc_instance_def inst_of_def node_port_def listenAddr_def isl_def
      split: sum.splits if_splits prod.splits)

lemma svc_instances_eq: "list_all (node_ok svc) ns \<Longrightarrow> svc_instances svc ns = Inr (map (inst_of svc) ns)"
  by (induction ns) (simp_all add: svc_instance_eq)

definition in_status_order :: "(string \<Rightarrow> 'a list) \<Rightarrow> string list \<Rightarrow> 'a list" where
  "in_status_order f order = concat (map f (filter (\<lambda>svc. svc \<noteq> SvcGateway) order)) @ concat (map f (filter (\<lambda>svc. svc = SvcGateway) order))"

lemma ordered_insts_eq:
  assumes "\<And>svc. list_all (node_ok svc) (services cfg svc)"
  shows "ordered_insts cfg order =
    Inr (concat (map (\<lambda>svc. map (inst_of svc) (services cfg svc)) (filter (\<lambda>svc. svc \<noteq> SvcGateway) order)),
         concat (map (\<lambda>svc. map (inst_of svc) (services cfg svc)) (filter (\<lambda>svc. svc = SvcGateway) order)))"
  by (induction order) (simp_all add: svc_instances_eq [OF assms])

text \<open>What the first part of the command knows of the ports.\<close>

lemma scan_nodes_run:
  assumes "\<And>h. os_netstat sys (h @ [Netstat]) = (netstat_text pad cr lines, True)"
    and "list_all net_ok lines" "line_end cr" "list_all (node_ok svc) ns"
  shows "\<exists>r' g. scan_nodes sys svc ns r h = (Some r', h @ g) \<and> heads g = [] \<and>
    (\<forall>p. fmlookup (portPid r') p = (if p \<in> node_port ` set ns then Some (listener_pid p lines) else fmlookup (portPid r) p))"
  using assms(4)
proof (induction ns arbitrary: r h)
  case (Cons n ns)
  let ?p = "node_port n"
  obtain a where a: "ParseHostPort (listenAddr n) = Inr (a, ?p)"
    using Cons.prems by (cases "ParseHostPort (listenAddr n)") (auto simp: node_ok_def node_port_def)
  have "i64_ok ?p" "?p \<noteq> 0" "sn_ID n \<noteq> ''''"
    using Cons.prems by (auto simp: node_ok_def i64_ok_def i64_min_def i64_max_def)
  then have "findPIDByPort sys ?p h = (Some (listener_pid ?p lines), h @ [Netstat])"
    using findPIDByPort_listener [OF assms(1-3)] by blast
  then have step: "scan_nodes sys svc (n # ns) r h = scan_nodes sys svc ns (r\<lparr>portPid := fmupd ?p (listener_pid ?p lines) (portPid r),
      pidInfo := (if 0 < listener_pid ?p lines then fmupd (listener_pid ?p lines) \<lparr>in_svc = svc, in_id = sn_ID n, in_port = ?p\<rparr> (pidInfo r)
        else pidInfo r)\<rparr>) (h @ [Netstat])" (is "_ = scan_nodes sys svc ns ?r _")
    using \<open>sn_ID n \<noteq> ''''\<close> by (simp add: a act_defs)
  obtain r' g where "scan_nodes sys svc ns ?r (h @ [Netstat]) = (Some r', (h @ [Netstat]) @ g)" "heads g = []"
      "\<forall>p. fmlookup (portPid r') p = (if p \<in> node_port ` set ns then Some (listener_pid p lines) else fmlookup (portPid ?r) p)"
    using Cons.IH [of ?r "h @ [Netstat]"] Cons.prems by auto
  then show ?case
    unfolding step by (intro exI [of _ r'] exI [of _ "Netstat # g"]) auto
qed (simp add: act_defs)

lemma scan_services_run:
  assumes "\<And>h. os_netstat sys (h @ [Netstat]) = (netstat_text pad cr lines, True)"
    and "list_all net_ok lines" "line_end cr" "\<And>svc. list_all (node_ok svc) (services cfg svc)"
  shows "\<exists>r' g. scan_services sys cfg order r h = (Some r', h @ g) \<and> heads g = [] \<and>
    (\<forall>p. fmlookup (portPid r') p = (if \<exists>svc\<in>set order. p \<in> node_port ` set (services cfg svc)
       then Some (listener_pid p lines) else fmlookup (portPid r) p))"
proof (induction order arbitrary: r h)
  case (Cons svc order)
  obtain r1 g1 where 1: "scan_nodes sys svc (services cfg svc) r h = (Some r1, h @ g1)" "heads g1 = []"
      "\<forall>p. fmlookup (portPid r1) p = (if p \<in> node_port ` set (services cfg svc) then Some (listener_pid p lines) else fmlookup (portPid r) p)"
    using scan_nodes_run [OF assms] by blast
  obtain r2 g2 where 2: "scan_services sys cfg order r1 (h @ g1) = (Some r2, (h @ g1) @ g2)" "heads g2 = []"
      "\<forall>p. fmlookup (portPid r2) p = (if \<exists>svc\<in>set order. p \<in> node_port ` set (services cfg svc) then Some (listener_pid p lines) else fmlookup (portPid r1) p)"
    using Cons.IH by blast
  from 1 2 show ?case
    by (intro exI [of _ r2] exI [of _ "g1 @ g2"]) (auto simp: bnd_def)
qed (simp add: act_defs)

lemma show_links_run: "\<exists>printed' g. show_links nets r inst pid others printed h = (Some printed', h @ g) \<and> heads g = []"
proof (induction others arbitrary: printed h)
  case (Cons other others)
  show ?case
  proof (cases "fmlookup (pidInfo r) other")
    case None
    with Cons.IH show ?thesis by simp
  next
    case (Some info)
    obtain printed' g where "show_links nets r inst pid others (insert (link_key (si_id inst) (in_id info)) printed)
        (h @ [Status (Link (in_id info) (in_svc info) (in_port info))]) = (Some printed', (h @ [Status (Link (in_id info) (in_svc info) (in_port info))]) @ g)" "heads g = []"
      using Cons.IH by blast
    then show ?thesis
      using Some Cons.IH [of printed h]
      by (auto simp: Let_def thn_def bnd_def tell_def intro!: exI [of _ "Status (Link (in_id info) (in_svc info) (in_port info)) # g"])
  qed
qed (simp add: act_defs)

lemma show_insts_up:
  assumes "fmlookup (portPid r) (if si_svc i = SvcGateway then si_wsPort i else si_port i) = Some pid" "0 < pid"
    and "h1 = h @ [Status (Up ((if si_svc i = SvcGateway then si_id i @ '' (ws:'' @ FormatInt (si_wsPort i) @ '')'' else si_id i) @ '' pid:'' @ FormatInt pid) (si_svc i)), RangePids]"
    and "show_links nets r i pid (os_pids sys h1) printed h1 = (Some printed', h2)"
  shows "show_insts sys nets r (i # insts) printed h = show_insts sys nets r insts printed' h2"
  using assms(1,2,4) unfolding assms(3) by (simp add: Let_def thn_def bnd_def tell_def ask_def split del: if_split)

lemma show_insts_run:
  assumes "\<And>svc n. (svc, n) \<in> set ns \<Longrightarrow> fmlookup (portPid r) (node_port n) = Some (listener_pid (node_port n) lines)"
  shows "\<exists>g. show_insts sys nets r (map (\<lambda>(svc, n). inst_of svc n) ns) printed h = (Some (), h @ g) \<and>
    heads g = map (\<lambda>(svc, n). head_of lines svc n) ns"
  using assms
proof (induction ns arbitrary: printed h)
  case (Cons x ns)
  obtain svc n where x: "x = (svc, n)" by (cases x)
  define pid where "pid = listener_pid (node_port n) lines"
  have look: "fmlookup (portPid r) (node_port n) = Some pid"
    using Cons.prems [of svc n] by (simp add: x pid_def)
  have port: "(if si_svc (inst_of svc n) = SvcGateway then si_wsPort (inst_of svc n) else si_port (inst_of svc n)) = node_port n"
    by (simp add: inst_of_def)
  show ?case
  proof (cases "0 < pid")
    case True
    define l where "l = head_of lines svc n"
    have l: "l = Up ((if svc = SvcGateway then sn_ID n @ '' (ws:'' @ FormatInt (node_port n) @ '')'' else sn_ID n) @ '' pid:'' @ FormatInt pid) svc"
      using True by (simp add: l_def head_of_def pid_def)
    let ?h = "h @ [Status l, RangePids]"
    obtain printed' g where 1: "show_links nets r (inst_of svc n) pid (os_pids sys ?h) printed ?h = (Some printed', ?h @ g)" "heads g = []"
      using show_links_run by blast
    obtain g' where 2: "show_insts sys nets r (map (\<lambda>(svc, n). inst_of svc n) ns) printed' (?h @ g) = (Some (), (?h @ g) @ g')"
        "heads g' = map (\<lambda>(svc, n). head_of lines svc n) ns"
      using Cons.IH [of printed' "?h @ g"] Cons.prems by auto
    have "show_insts sys nets r (map (\<lambda>(svc, n). inst_of svc n) (x # ns)) printed h =
        show_insts sys nets r (map (\<lambda>(svc, n). inst_of svc n) ns) printed' (?h @ g)"
      unfolding x list.map prod.case
    proof (rule show_insts_up)
      show "fmlookup (portPid r) (if si_svc (inst_of svc n) = SvcGateway then si_wsPort (inst_of svc n) else si_port (inst_of svc n)) = Some pid"
        unfolding port by (rule look)
      show "?h = h @ [Status (Up ((if si_svc (inst_of svc n) = SvcGateway then si_id (inst_of svc n) @ '' (ws:'' @ FormatInt (si_wsPort (inst_of svc n)) @ '')''
          else si_id (inst_of svc n)) @ '' pid:'' @ FormatInt pid) (si_svc (inst_of svc n))), RangePids]"
        by (simp add: l inst_of_def)
    qed (use True 1(1) in simp_all)
    with 1(2) 2 show ?thesis
      by (intro exI [of _ "[Status l, RangePids] @ g @ g'"]) (simp add: x l l_def [symmetric])
  next
    case False
    obtain g where "show_insts sys nets r (map (\<lambda>(svc, n). inst_of svc n) ns) printed (h @ [Status (head_of lines svc n)]) =
        (Some (), (h @ [Status (head_of lines svc n)]) @ g)" "heads g = map (\<lambda>(svc, n). head_of lines svc n) ns"
      using Cons.IH [of printed "h @ [Status (head_of lines svc n)]"] Cons.prems by auto
    with False look show ?thesis
      by (intro exI [of _ "Status (head_of lines svc n) # g"])
        (auto simp: x Let_def port thn_def bnd_def tell_def head_of_def pid_def inst_of_def)
  qed
qed (simp add: act_defs)

text \<open>
  The status command shows every configured instance once, first the backends and then
  the gateways: as running with the process that listens on its port when there is one, and
  as down otherwise. The sockets do not change meanwhile, every instance has an identifier
  and valid addresses, and only gateways have a WebSocket address.
\<close>

theorem status_shows_all:
  assumes "\<And>h. os_netstat sys (h @ [Netstat]) = (netstat_text pad cr lines, True)"
    and "list_all net_ok lines" "line_end cr" "\<And>svc. list_all (node_ok svc) (services cfg svc)"
    and "\<And>h. set (os_services sys (h @ [RangeServices])) = fmdom' (cf_Services cfg) \<and> distinct (os_services sys (h @ [RangeServices]))"
  shows "\<exists>order h'. showStatus sys cfg h = (Some (), h') \<and> set order = fmdom' (cf_Services cfg) \<and> distinct order \<and>
    heads h' = heads h @ in_status_order (\<lambda>svc. map (head_of lines svc) (services cfg svc)) order"
proof -
  define nets where "nets = split_on (CHR 0x0A) (netstat_text pad cr lines)"
  let ?h1 = "h @ [Netstat, RangeServices]"
  obtain r g where r: "scan_services sys cfg (os_services sys ?h1) \<lparr>portPid = fmempty, pidInfo = fmempty\<rparr> ?h1 = (Some r, ?h1 @ g)" "heads g = []"
      "\<forall>p. fmlookup (portPid r) p = (if \<exists>svc\<in>set (os_services sys ?h1). p \<in> node_port ` set (services cfg svc)
         then Some (listener_pid p lines) else None)"
    using scan_services_run [OF assms(1-4), of "os_services sys ?h1" "\<lparr>portPid = fmempty, pidInfo = fmempty\<rparr>" ?h1] by auto
  define order where "order = os_services sys ((?h1 @ g) @ [RangeServices])"
  define ns where "ns = in_status_order (\<lambda>svc. map (Pair svc) (services cfg svc)) order"
  have sets: "set (os_services sys ?h1) = fmdom' (cf_Services cfg)" "set order = fmdom' (cf_Services cfg)" "distinct order"
    using assms(5) [of "h @ [Netstat]"] assms(5) [of "?h1 @ g"] by (simp_all add: order_def)
  have insts: "listInstancesOrdered sys cfg (?h1 @ g) = (Some (map (\<lambda>(svc, n). inst_of svc n) ns), ?h1 @ g @ [RangeServices])"
    by (simp add: listInstancesOrdered_def act_defs ordered_insts_eq [OF assms(4)] ns_def in_status_order_def order_def
        map_concat o_def)
  have "fmlookup (portPid r) (node_port n) = Some (listener_pid (node_port n) lines)" if "(svc, n) \<in> set ns" for svc n
    using that r(3) sets by (auto simp: ns_def in_status_order_def)
  then obtain g' where g': "show_insts sys nets r (map (\<lambda>(svc, n). inst_of svc n) ns) {} (?h1 @ g @ [RangeServices]) = (Some (), (?h1 @ g @ [RangeServices]) @ g')"
      "heads g' = map (\<lambda>(svc, n). head_of lines svc n) ns"
    using show_insts_run [of ns r lines sys nets "{}" "?h1 @ g @ [RangeServices]"] by blast
  have "showStatus sys cfg h = (Some (), (?h1 @ g @ [RangeServices]) @ g')"
    using r(1) insts g'(1) assms(1) [of h] by (simp add: showStatus_def bnd_def ask_def nets_def)
  moreover have "map (\<lambda>(svc, n). head_of lines svc n) ns = in_status_order (\<lambda>svc. map (head_of lines svc) (services cfg svc)) order"
    by (simp add: ns_def in_status_order_def map_concat o_def)
  ultimately show ?thesis
    using r(2) g'(2) sets(2,3) by (intro exI [of _ order]) auto
qed

lemma two_orders:
  assumes "set xs = {a, b}" "distinct xs" "a \<noteq> b"
  shows "xs = [a, b] \<or> xs = [b, a]"
proof -
  have "length xs = Suc (Suc 0)"
    using assms distinct_card [of xs] by simp
  then obtain x y where "xs = [x, y]"
    by (auto simp: length_Suc_conv)
  with assms show ?thesis by auto
qed

theorem status_shows_all_witness:
  "\<exists>h. showStatus busy_os two_services [] = (Some (), h) \<and>
     heads h = [Up ''cs-1 pid:7'' SvcChatSvr, Down ''gw-1 (ws:9001)'' SvcGateway]"
proof -
  have ne: "SvcGateway \<noteq> SvcChatSvr"
    by (simp add: SvcGateway_def SvcChatSvr_def)
  have port: "node_port cs_node = 8001" "node_port ws_node = 9001"
    by (simp_all add: node_port_def listenAddr_def cs_node_def ws_node_def idle_ports)
  have "ParseHostPort '':9000'' = Inr ('''', 9000)"
    by (simp add: addr_defs)
  then have nodes: "node_ok SvcChatSvr cs_node" "node_ok SvcGateway ws_node"
    using ne port by (simp_all add: node_ok_def cs_node_def ws_node_def listenAddr_def idle_ports)
  have svcs: "services two_services svc = (if svc = SvcGateway then [ws_node] else if svc = SvcChatSvr then [cs_node] else [])" for svc
    by (simp add: services_def two_services_def empty_Config_def)
  have lines: "list_all net_ok busy_lines" "line_end [CHR 0x0D]"
    by (simp_all add: busy_lines_def is_space_def sublist_code line_end_def i64_ok_def i64_min_def i64_max_def)
  have "\<exists>order h. showStatus busy_os two_services [] = (Some (), h) \<and> set order = fmdom' (cf_Services two_services) \<and> distinct order \<and>
      heads h = heads [] @ in_status_order (\<lambda>svc. map (head_of busy_lines svc) (services two_services svc)) order"
  proof (rule status_shows_all [OF _ lines])
    show "os_netstat busy_os (h @ [Netstat]) = (netstat_text (\<lambda>i w. 20 - length w) [CHR 0x0D] busy_lines, True)" for h
      by (simp add: busy_os_def)
    show "list_all (node_ok svc) (services two_services svc)" for svc
      by (simp add: svcs nodes)
    show "set (os_services busy_os (h @ [RangeServices])) = fmdom' (cf_Services two_services) \<and> distinct (os_services busy_os (h @ [RangeServices]))" for h
      using ne by (simp add: busy_os_def idle_os_def two_services_def empty_Config_def insert_commute)
  qed
  then obtain order h where run: "showStatus busy_os two_services [] = (Some (), h)" "set order = {SvcGateway, SvcChatSvr}" "distinct order"
      "heads h = in_status_order (\<lambda>svc. map (head_of busy_lines svc) (services two_services svc)) order"
    by (auto simp: two_services_def empty_Config_def)
  have "heads h = [head_of busy_lines SvcChatSvr cs_node, head_of busy_lines SvcGateway ws_node]"
    using two_orders [OF run(2,3) ne] ne unfolding run(4) by (auto simp: in_status_order_def svcs)
  moreover have pids: "listener_pid 8001 busy_lines = 7" "listener_pid 9001 busy_lines = 0" and ids: "sn_ID cs_node = ''cs-1''" "sn_ID ws_node = ''gw-1''"
    by (simp_all add: busy_lines_def cs_node_def ws_node_def)
  moreover have "FormatInt 7 = ''7''" "FormatInt 9001 = ''9001''"
    by (simp_all add: FormatInt_def format_nat.simps digit_char_def char_of_eq_iff)
  ultimately have "heads h = [Up ''cs-1 pid:7'' SvcChatSvr, Down ''gw-1 (ws:9001)'' SvcGateway]"
    using ne pids ids by (simp add: head_of_def port)
  with run(1) show ?thesis by blast
qed

end
