(* ===== verification/Clients.thy ===== *)
theory Clients
  imports ChatSvr Auth Conf
begin

text \<open>
  The clients under tools/: testclient (cmd/main.go, cmd/router) chats with everybody and
  prints what it receives, loadtest (cmd/main.go) runs many clients and counts. The network
  library decides whether a connection is made and a message is sent; both are arguments,
  as are the clock and the token library. The throughput, a floating point number, is left
  out of the report.
\<close>

section \<open>Addresses\<close>

definition hex_upper :: "nat \<Rightarrow> char" where
  "hex_upper n = ''0123456789ABCDEF'' ! n"

text \<open>Letters, digits and four signs stand for themselves.\<close>

definition unreserved :: "char \<Rightarrow> bool" where
  "unreserved c \<longleftrightarrow> (let n = of_char c :: nat
     in n \<in> {97..122} \<or> n \<in> {65..90} \<or> n \<in> {48..57} \<or> c \<in> set ''-_.~'')"

text \<open>url.QueryEscape.\<close>

definition QueryEscape :: "string \<Rightarrow> string" where
  "QueryEscape s = concat (map (\<lambda>c. if unreserved c then [c] else if c = CHR '' '' then ''+''
     else [CHR ''%'', hex_upper (of_char c div 16), hex_upper (of_char c mod 16)]) s)"

definition ws_url :: "string \<Rightarrow> string \<Rightarrow> string" where
  "ws_url host token = ''ws://'' @ host @ ''/ws?token='' @ QueryEscape token"

section \<open>The test client\<close>

datatype client_error = ConfigError | NoSecret | TokenError

text \<open>The player and the address that main connects to; the arguments include the program name.\<close>

definition testclient_main :: "yaml \<Rightarrow> jwt \<Rightarrow> bytes option \<Rightarrow> i64 \<Rightarrow> string list \<Rightarrow> client_error + i64 \<times> string" where
  "testclient_main yml lib file now args =
     (let playerID = parse_int (if 1 < length args then args ! 1 else ''1'')
      in case Load yml file of
           (_, Some _) \<Rightarrow> Inl ConfigError
         | (cfg, None) \<Rightarrow>
             (let secret = gc_JWTSecret (cf_Gateway cfg)
              in if secret = '''' then Inl NoSecret
                 else case GenerateJWT lib now playerID secret of
                   None \<Rightarrow> Inl TokenError
                 | Some token \<Rightarrow> Inr (playerID, ws_url ''127.0.0.1:9000'' token)))"

definition chat_greeting :: "i64 \<Rightarrow> i64 \<Rightarrow> ChatReq" where
  "chat_greeting playerID i = \<lparr>chatreq_Content = ''Hello #'' @ FormatInt i @ '' from '' @ FormatInt playerID, chatreq_TargetPlayerId = 0\<rparr>"

text \<open>The messages sent while the connection accepts them: one flag per round of the loop.\<close>

fun chatLoop :: "wire \<Rightarrow> conn \<Rightarrow> i64 \<Rightarrow> i64 \<Rightarrow> bool list \<Rightarrow> sent list" where
  "chatLoop w c playerID i [] = []"
| "chatLoop w c playerID i (ok # oks) =
     (if ok then Sent c (msg_number CHAT_REQ) (mar_ChatReq w (chat_greeting playerID i)) # chatLoop w c playerID (i64_wrap (i + 1)) oks
      else [])"

text \<open>The line printed for a chat message.\<close>

definition ChatRespRouter_Handle :: "wire \<Rightarrow> bytes \<Rightarrow> string option" where
  "ChatRespRouter_Handle w body =
     (case unm_ChatResp w body of
        None \<Rightarrow> None
      | Some msg \<Rightarrow> Some (
          if chatresp_SenderPlayerId msg = -1 then ''[Error] '' @ chatresp_Content msg
          else if chatresp_TargetPlayerId msg \<noteq> 0
          then ''[Private] '' @ FormatInt (chatresp_SenderPlayerId msg) @ '' -> '' @ FormatInt (chatresp_TargetPlayerId msg) @ '': '' @ chatresp_Content msg
          else ''[Global] '' @ FormatInt (chatresp_SenderPlayerId msg) @ '': '' @ chatresp_Content msg))"

section \<open>The load test\<close>

record lt_flags =
  flagClients :: i64
  flagDuration :: i64
  flagHost :: string
  flagPort :: i64
  flagSecret :: string
  flagMode :: string

definition default_flags :: lt_flags where
  "default_flags = \<lparr>flagClients = 10, flagDuration = 10, flagHost = ''127.0.0.1'', flagPort = 19000,
     flagSecret = ''change-me-in-production'', flagMode = ''global''\<rparr>"

text \<open>The counters; the list of latencies that the source allocates is never used.\<close>

record lt_stats =
  st_sent :: i64
  st_received :: i64
  st_errors :: i64
  st_latSum :: i64

definition new_stats :: lt_stats where
  "new_stats = \<lparr>st_sent = 0, st_received = 0, st_errors = 0, st_latSum = 0\<rparr>"

text \<open>A token that cannot be made is the empty string; no connection within five seconds is an error.\<close>

definition connectClient :: "lt_flags \<Rightarrow> jwt \<Rightarrow> i64 \<Rightarrow> i64 \<Rightarrow> conn option \<Rightarrow> lt_stats \<Rightarrow> string \<times> conn option \<times> lt_stats" where
  "connectClient fl lib now playerID dialled st =
     (let token = (case GenerateJWT lib now playerID (flagSecret fl) of None \<Rightarrow> '''' | Some t \<Rightarrow> t);
          url = ws_url (flagHost fl @ '':'' @ FormatInt (flagPort fl)) token
      in case dialled of
           Some c \<Rightarrow> (url, Some c, st)
         | None \<Rightarrow> (url, None, st\<lparr>st_errors := i64_wrap (st_errors st + 1)\<rparr>))"

definition client_target :: "lt_flags \<Rightarrow> i64 \<Rightarrow> i64" where
  "client_target fl myID =
     (if flagMode fl = ''private'' \<or> flagMode fl = ''mixed'' \<and> myID mod 2 = 0
      then let targetID = i64_wrap (myID + 1) in if targetID > flagClients fl then 1 else targetID
      else 0)"

definition load_msg :: "lt_flags \<Rightarrow> i64 \<Rightarrow> ChatReq" where
  "load_msg fl myID = \<lparr>chatreq_Content = ''msg-from-'' @ FormatInt myID, chatreq_TargetPlayerId = client_target fl myID\<rparr>"

text \<open>The ticks of one client until the stop, with whether the message could be sent.\<close>

fun runClient :: "wire \<Rightarrow> lt_flags \<Rightarrow> conn \<Rightarrow> i64 \<Rightarrow> bool list \<Rightarrow> lt_stats \<Rightarrow> sent list \<times> lt_stats" where
  "runClient w fl c myID [] st = ([], st)"
| "runClient w fl c myID (ok # oks) st =
     (let st1 = (if ok then st else st\<lparr>st_errors := i64_wrap (st_errors st + 1)\<rparr>);
          (out, st2) = runClient w fl c myID oks (st1\<lparr>st_sent := i64_wrap (st_sent st1 + 1)\<rparr>)
      in (if ok then Sent c (msg_number CHAT_REQ) (mar_ChatReq w (load_msg fl myID)) # out else out, st2))"

text \<open>The channel between router and receiver holds at most 10000 messages; more are dropped.\<close>

definition chatRespRouter_Handle :: "wire \<Rightarrow> bytes \<Rightarrow> ChatResp list \<Rightarrow> ChatResp list" where
  "chatRespRouter_Handle w body ch =
     (case unm_ChatResp w body of
        None \<Rightarrow> ch
      | Some msg \<Rightarrow> if length ch < 10000 then ch @ [msg] else ch)"

text \<open>One message taken from the channel, at a clock in nanoseconds.\<close>

definition receive :: "i64 \<Rightarrow> ChatResp \<Rightarrow> lt_stats \<Rightarrow> lt_stats" where
  "receive now rsp st = st\<lparr>st_received := i64_wrap (st_received st + 1),
     st_latSum := i64_wrap (st_latSum st + i64_wrap (now - i64_wrap (chatresp_Timestamp rsp * 1000000)))\<rparr>"

text \<open>Integer division of Go, by a positive number.\<close>

definition quot_pos :: "i64 \<Rightarrow> i64 \<Rightarrow> i64" where
  "quot_pos a b = (if 0 \<le> a then a div b else - ((- a) div b))"

record lt_report =
  rp_sent :: i64
  rp_received :: i64
  rp_errors :: i64
  rp_avgLat :: "i64 option"

definition printReport :: "lt_stats \<Rightarrow> lt_report" where
  "printReport st = \<lparr>rp_sent = st_sent st, rp_received = st_received st, rp_errors = st_errors st,
     rp_avgLat = (if 0 < st_received st then Some (quot_pos (st_latSum st) (st_received st)) else None)\<rparr>"

text \<open>
  All clients, with the connections they get, their ticks and the tokens' clock; the clients
  run one after the other in the model, since they share nothing but the counters.
\<close>

fun run_clients :: "wire \<Rightarrow> lt_flags \<Rightarrow> jwt \<Rightarrow> i64 \<Rightarrow> i64 \<Rightarrow> (conn option \<times> bool list) list \<Rightarrow> lt_stats \<Rightarrow> sent list \<times> lt_stats" where
  "run_clients w fl lib now i [] st = ([], st)"
| "run_clients w fl lib now i ((dialled, oks) # cs) st =
     (case connectClient fl lib now (i64_wrap (i + 1)) dialled st of
        (_, None, st1) \<Rightarrow> run_clients w fl lib now (i64_wrap (i + 1)) cs st1
      | (_, Some c, st1) \<Rightarrow>
          (let (out1, st2) = runClient w fl c (i64_wrap (i + 1)) oks st1;
               (out2, st3) = run_clients w fl lib now (i64_wrap (i + 1)) cs st2
           in (out1 @ out2, st3)))"

section \<open>Private load\<close>

lemma client_target_private:
  assumes "flagMode fl = ''private''" "flagClients fl \<le> 1000000000" "1 \<le> myID" "myID \<le> flagClients fl"
  shows "client_target fl myID = (if myID = flagClients fl then 1 else myID + 1)"
proof -
  have "i64_wrap (myID + 1) = myID + 1"
    using assms(2-4) by (intro i64_wrap_id) (simp add: i64_ok_def i64_min_def i64_max_def)
  with assms show ?thesis by (simp add: client_target_def Let_def)
qed

lemma runClient_counts:
  assumes "i64_ok (st_errors st)" "0 \<le> st_errors st" "0 \<le> st_sent st" "st_sent st + int (length oks) \<le> i64_max"
    "st_errors st + int (length oks) \<le> i64_max"
  shows "runClient w fl c myID oks st =
    (replicate (length (filter id oks)) (Sent c (msg_number CHAT_REQ) (mar_ChatReq w (load_msg fl myID))),
     st\<lparr>st_sent := st_sent st + int (length oks), st_errors := st_errors st + int (length (filter Not oks))\<rparr>)"
  using assms
proof (induction oks arbitrary: st)
  case (Cons ok oks)
  have "i64_wrap (st_sent st + 1) = st_sent st + 1" "i64_wrap (st_errors st + 1) = st_errors st + 1"
    using Cons.prems by (auto intro!: i64_wrap_id simp: i64_ok_def i64_min_def)
  then show ?case
    using Cons.IH [of "(if ok then st else st\<lparr>st_errors := st_errors st + 1\<rparr>)\<lparr>st_sent := st_sent st + 1\<rparr>"] Cons.prems
    by (auto simp: Let_def split_def i64_ok_def i64_min_def)
qed simp

text \<open>
  In private mode the clients of a load test write to each other in a ring: every
  client is the target of exactly one client, which is another one when there are two or
  more. In any number of ticks a client sends one message for each successful tick, from
  which the chat service reads that target, and counts all ticks as sent and the failed
  ones as errors.
\<close>

theorem private_load:
  assumes "wire_codec w" "\<And>n. str_ok w (''msg-from-'' @ FormatInt n)"
    and "flagMode fl = ''private''" "1 \<le> flagClients fl" "flagClients fl \<le> 1000000000" "length oks \<le> 1000000000"
    and "1 \<le> myID" "myID \<le> flagClients fl"
    and "runClient w fl c myID oks new_stats = (out, st)"
  shows "bij_betw (client_target fl) {1..flagClients fl} {1..flagClients fl} \<and>
    (client_target fl myID = myID \<longleftrightarrow> flagClients fl = 1) \<and>
    st_sent st = int (length oks) \<and> st_errors st = int (length (filter Not oks)) \<and>
    length out = length (filter id oks) \<and>
    list_all (\<lambda>s. \<exists>body. s = Sent c (msg_number CHAT_REQ) body \<and>
      unm_ChatReq w body = Some \<lparr>chatreq_Content = ''msg-from-'' @ FormatInt myID, chatreq_TargetPlayerId = client_target fl myID\<rparr>) out"
proof -
  let ?n = "flagClients fl"
  have target: "client_target fl i = (if i = ?n then 1 else i + 1)" if "1 \<le> i" "i \<le> ?n" for i
    using client_target_private [OF assms(3,5) that] .
  have "bij_betw (client_target fl) {1..?n} {1..?n}"
    by (rule bij_betw_byWitness [where f' = "\<lambda>i. if i = 1 then ?n else i - 1"])
      (use assms(4) target in \<open>auto split: if_splits\<close>)
  moreover have "client_target fl myID = myID \<longleftrightarrow> ?n = 1"
    using target [OF assms(7,8)] assms(7,8) by auto
  moreover have run: "out = replicate (length (filter id oks)) (Sent c (msg_number CHAT_REQ) (mar_ChatReq w (load_msg fl myID)))"
      "st = new_stats\<lparr>st_sent := int (length oks), st_errors := int (length (filter Not oks))\<rparr>"
    using runClient_counts [of new_stats oks w fl c myID] assms(6,9)
    by (simp_all add: new_stats_def i64_ok_def i64_min_def i64_max_def)
  moreover have "unm_ChatReq w (mar_ChatReq w (load_msg fl myID)) = Some (load_msg fl myID)"
    using target [OF assms(7,8)] assms(5,7,8) assms(2) [of myID]
    by (intro wire_codec.ChatReq_roundtrip [OF assms(1)]) (auto simp: load_msg_def i64_ok_def i64_min_def i64_max_def)
  ultimately show ?thesis
    by (simp add: list_all_iff load_msg_def)
qed

theorem private_load_witness:
  "\<exists>out st. runClient pb_wire (default_flags\<lparr>flagMode := ''private''\<rparr>) 3 10 [True, False, True] new_stats = (out, st) \<and>
     length out = 2 \<and> st_sent st = 3 \<and> st_errors st = 1 \<and> client_target (default_flags\<lparr>flagMode := ''private''\<rparr>) 10 \<noteq> 10"
proof -
  let ?fl = "default_flags\<lparr>flagMode := ''private''\<rparr>"
  obtain out st where run: "runClient pb_wire ?fl 3 10 [True, False, True] new_stats = (out, st)"
    by fastforce
  have "str_ok pb_wire (''msg-from-'' @ FormatInt n)" for n
    using utf8_ok_FormatInt [of n] by (simp add: pb_str_ok utf8_ok_def)
  from private_load [OF pb.wire_codec_axioms this _ _ _ _ _ _ run] run show ?thesis
    by (auto simp: default_flags_def)
qed

text \<open>
  The chat service puts the time in seconds into its messages, the load test takes it for
  milliseconds: for a message that arrives at the very moment it was sent, in the current
  century, the reported latency is more than 29 years.
\<close>

theorem latency_in_wrong_unit:
  assumes "946684800 \<le> t" "t \<le> 4102444800" "chatresp_Timestamp rsp = t"
  shows "rp_avgLat (printReport (receive (t * 1000000000) rsp new_stats)) = Some (t * 999000000) \<and>
    t * 999000000 > 29 * 365 * 86400 * 1000000000"
proof -
  have "i64_wrap (t * 1000000) = t * 1000000" "i64_wrap (t * 1000000000 - t * 1000000) = t * 999000000"
    "i64_wrap (t * 999000000) = t * 999000000" "i64_wrap 1 = 1"
    using assms(1,2) by (auto intro!: i64_wrap_id simp: i64_ok_def i64_min_def i64_max_def algebra_simps)
  then show ?thesis
    using assms by (simp add: receive_def printReport_def new_stats_def quot_pos_def)
qed

end
