(* ===== verification/Spec2Isabelle.thy ===== *)
theory Spec2Isabelle
  imports MatchRooms ChatSvr GatewaySession UserService Discovery Mains SvcBuild Clients
begin

text \<open>
  \<^bold>\<open>The card war game server.\<close> Clients connect to gateways over WebSocket; a gateway
  authenticates a client by a token, wraps its messages in envelopes and forwards them to
  the backend services (chat, match, room), which answer through the gateways. A session
  service remembers, for each player, the gateway and the tags (match, room server), so
  that a player who lost the connection finds the game again; it persists its table in a
  journal and snapshots. A separate gRPC service keeps user accounts.

  \<^bold>\<open>How the code is modelled.\<close> A struct is a \<open>record\<close>, an enum a \<open>datatype\<close>, a map and a
  \<open>sync.Map\<close> a finite map; a Go map that may be nil is \<open>gomap\<close>, an option of a finite map.
  Unsigned numbers are words; an int64 is an integer with \<open>i64_wrap\<close> where it is computed.
  A string is the list of its bytes. A handler is one function from the state to the new
  state and the list of messages sent, \<open>Sent connection number body\<close>. Handlers run one at a
  time: the interleaving inside a handler is modelled only where a theorem is about it
  (the steps of a snapshot, the wait of CheckReconnect, the reconnect loops, the messages
  between match service and room servers). What a
  handler meets is an argument: the clock, random numbers, whether the operating system or
  a connection attempt succeeds, the order in which a map is ranged over. Where a handler
  reads the clock twice in a row, it reads one value. A panic and an error are values.
  Logging is left out.

  \<^bold>\<open>Code outside the repository\<close> is a parameter. The protobuf library is the record
  \<open>wire\<close>, with its documented laws in the locale \<open>wire_codec\<close> (Codec), interpreted on the
  wire format of the protobuf documentation (Wire); the marshalling of each message is
  defined over it from the struct tags of the generated files. Marshalling a string that
  is not UTF-8, which fails in the library, is not modelled: the strings of the services
  come from decoded messages, the configuration and number formatting. The JSON library is
  the record \<open>json\<close> with the laws of the locale \<open>session_json\<close> (SessionPersist),
  interpreted on a JSON printer and parser for the two types (SessionJson). YAML parsing,
  the token library, the etcd client and the network library's choice of connections are function
  parameters. The standard library functions the services use (strconv, net.SplitHostPort,
  bufio.Scanner, FNV-1a, conversions from and to float64) are modelled in full.

  \<^bold>\<open>The theories\<close>, bottom up, with the sources under src/:
  \<^item> Prelude: integers, Go maps, messages, list searching. Strconv: number formatting and
    parsing with their round trips.
  \<^item> Protocol (protocol/pb, pkg/connkey, pkg/conf/svc_define.go): message numbers, keys and
    message records. Codec, Wire: encoding and decoding, round trips of all messages.
  \<^item> Store (pkg/persist/store.go): the journal and snapshot store over a model of its three
    files. The locale \<open>recoverable\<close> states what the store needs of an application and
    proves what a reopened store delivers.
  \<^item> SessionPersist, SessionJson, SessionSvr (apps/sessionsvr): persistence callbacks,
    handlers and expiry of the session service. \<open>session_json\<close> is a sublocale of
    \<open>recoverable\<close>: the callbacks of the session service satisfy the contract of the store.
  \<^item> Conn: connection properties. Conf (pkg/conf): configuration, addresses, reload.
  \<^item> Pool, Registry (pkg/pool.go, pkg/registry.go): routing strategies (locales \<open>strategy\<close>
    and \<open>total_strategy\<close>, interpreted on the strategies of the code), dialling,
    reconnecting, synchronizing and removing backends.
  \<^item> Broadcast (pkg/broadcast.go, pkg/corouter, pkg/server): pushes and common routers.
  \<^item> MatchSvr, RoomSvr, ChatSvr (apps/*/internal/router): the handlers of the services; RoomSvr
    also has the abstract view of the rooms that its handlers implement. MatchRooms: match
    service and room servers with messages on the way between them, as a step relation.
  \<^item> GatewayRoutes, GatewaySession (pkg/gateway), Auth (pkg/auth, pkg/errors.go): route
    table, announcements, forwarding, start, configuration watch and hot reload; responses,
    sessions, admission, the retry loop for queued disconnects.
  \<^item> Mains (apps/*/cmd): what the services announce and register.
  \<^item> UserService (apps/user/user-service, the consumer of apps/user/user-job): the user store.
  \<^item> Discovery (pkg/etcdutil, pkg/grpcserver, pkg/grpcclient, the processes of the user
    service and of the user job): registration of gRPC services in etcd and their
    resolution, start, health status and stop of a server, messages and ticks of the job.
  \<^item> SvcHelper (tools/svchelper): the command line helper as runs of system calls. SvcStart:
    what its start commands do; SvcQuery: what it reads from netstat and etcd; SvcBuild:
    what it builds and what its status shows.
  \<^item> Clients (tools/testclient, tools/loadtest): the test client and the load test.

  \<^bold>\<open>What is shown.\<close> Invariants of every component over all reachable states (session
  table, load counts and queues, rooms, route table, user identifiers, one reconnect loop
  per backend); the effect of each handler on every branch, errors included; that a
  restarted session service has the sessions it had, for any sequence of requests and
  snapshots, and runs the same whatever the disk does; that routing only uses live
  connections and uses one when there is one, and that a lost backend is used again once it
  can be reached; that rooms implement their abstract specification and no match is left
  behind when its players are gone; that the gateway follows the last configuration it
  could load and delivers queued disconnects once; that clients learn of started and stopped gRPC
  servers, and what a failed start leaves behind;
  that the command line helper starts each configured instance once, gives up in bounded
  time without leaving a process behind, kills the process that listens, builds every
  service it finds and shows the status of every instance. This theory composes the components: a chat message
  from client to client, a player who moves to another gateway, a room that empties. Some
  theorems show where the code does not do what it is meant to: each says so in its text.

  \<^bold>\<open>Bounds.\<close> Loops of the code that end are structural recursions. The journal scanner
  has the token limit of bufio.Scanner (65536). The reconnect loop, which may go on for
  ever, is a function of the outcomes of its attempts, and is proved to end with the first
  that succeeds, after the sum of its delays. The page loop of ListUsers is bounded by the number of keys. The wait of the
  command line helper for a port is bounded by its twenty rounds, as in the code. Endless
  loops of clients and watchers are functions of the list of inputs they meet.

  \<^bold>\<open>Not modelled:\<close> the work of the gRPC and NATS libraries behind the calls that connect,
  serve and drain, whose outcomes are arguments; the interceptors for logging and for
  recovery from panics, which are values handed to the gRPC library; a snapshot file with a
  JSON \<open>null\<close> in place of a session, which the session service never writes and on which
  loading it would dereference a nil pointer; the progress messages and the usage text of the
  command line helper;
  the floating point throughput of the load test; the generated accessors of the protocol
  files; protocol/msgid.go, which names the numbers of the generated enumeration again.
  Data races between handlers that run at the same time are outside the model.
\<close>

section \<open>Chat from client to client\<close>

lemma forward_sends:
  assumes "RouteFor gw m = Some route" "resolveRouteKey gw c connID route \<noteq> ''''"
    and "GetProperty (gw_props gw) c PropPlayerID = Some (PInt pid)"
    and "gw_RouteTo rnd gw (bri_Backend route) (resolveRouteKey gw c connID route) = Some b"
  shows "ForwardRouter_Handle w rnd now c connID m body gw =
    Some [Sent b m (mar_Envelope w \<lparr>env_ConnId = connID, env_Data = body,
      env_ConnTags = Some (fmupd TagPlayerID (FormatInt pid) fmempty)\<rparr>)]"
  using assms by (simp add: ForwardRouter_Handle_def Let_def)

lemma forwarded_read:
  assumes "wire_codec w" "str_ok w TagPlayerID" "str_ok w (FormatInt pid)"
  shows "unm_Envelope w (mar_Envelope w \<lparr>env_ConnId = connID, env_Data = body,
      env_ConnTags = Some (fmupd TagPlayerID (FormatInt pid) fmempty)\<rparr>)
    = Some \<lparr>env_ConnId = connID, env_Data = body, env_ConnTags = Some (fmupd TagPlayerID (FormatInt pid) fmempty)\<rparr>"
  using wire_codec.Envelope_roundtrip [OF assms(1)] player_tag_ok [OF assms(2,3)] by simp

lemma target_read:
  assumes "wire_codec w" "str_ok w TagTargetPlayerID" "str_ok w (FormatInt pid)"
  shows "unm_Envelope w (mar_Envelope w \<lparr>env_ConnId = 0, env_Data = body,
      env_ConnTags = Some (fmupd TagTargetPlayerID (FormatInt pid) fmempty)\<rparr>)
    = Some \<lparr>env_ConnId = 0, env_Data = body, env_ConnTags = Some (fmupd TagTargetPlayerID (FormatInt pid) fmempty)\<rparr>"
  using wire_codec.Envelope_roundtrip [OF assms(1)] tags_ok_upd [OF assms(2,3)] by simp

text \<open>
  C5: A private chat message arrives. When player \<open>a\<close> sends a chat request for player
  \<open>b\<close> through a gateway that reaches the chat service, the gateway sends one
  message to the chat service; what the chat service sends on to the gateway of
  \<open>b\<close> makes that gateway send one message to the connection of \<open>b\<close>, from
  which \<open>b\<close> reads the sender \<open>a\<close>, the content and the time, and which the test client of
  \<open>b\<close> prints as a private message, or as an error when the sender is player -1.
\<close>

theorem private_chat_arrives:
  assumes "wire_codec w" "\<forall>s. str_ok w (FormatInt s)" "str_ok w TagPlayerID" "str_ok w TagTargetPlayerID"
    and "unm_ChatReq w body = Some req" "chatreq_TargetPlayerId req = b" "b \<noteq> 0" "i64_ok a" "i64_ok now"
    and "RouteFor ga (msg_number CHAT_REQ) = Some route" "resolveRouteKey ga ca ia route \<noteq> ''''"
    and "GetProperty (gw_props ga) ca PropPlayerID = Some (PInt a)"
    and "gw_RouteTo rnd ga (bri_Backend route) (resolveRouteKey ga ca ia route) = Some chat"
    and "g \<in> set conns" "is_gateway ps g"
    and "fmlookup (gw_PlayerConns gb) b = Some ib" "fmlookup (gw_conns gb) ib = Some cb"
  shows "\<exists>sealed pushed shown.
    ForwardRouter_Handle w rnd now' ca ia (msg_number CHAT_REQ) body ga = Some [Sent chat (msg_number CHAT_REQ) sealed] \<and>
    Sent g (msg_number CHAT_RESP) pushed \<in> set (ChatRouter_Handle w ps conns now c sealed) \<and>
    ResponseRouter_Handle w rs order (msg_number CHAT_RESP) pushed gb = (gb, [Sent cb (msg_number CHAT_RESP) shown]) \<and>
    unm_ChatResp w shown = Some \<lparr>chatresp_SenderPlayerId = a, chatresp_Content = chatreq_Content req,
      chatresp_Timestamp = now, chatresp_TargetPlayerId = b\<rparr> \<and>
    ChatRespRouter_Handle w shown = Some (if a = -1 then ''[Error] '' @ chatreq_Content req
      else ''[Private] '' @ FormatInt a @ '' -> '' @ FormatInt b @ '': '' @ chatreq_Content req)"
proof -
  define env where "env = \<lparr>env_ConnId = ia, env_Data = body, env_ConnTags = Some (fmupd TagPlayerID (FormatInt a) fmempty)\<rparr>"
  define resp where "resp = \<lparr>chatresp_SenderPlayerId = a, chatresp_Content = chatreq_Content req,
      chatresp_Timestamp = now, chatresp_TargetPlayerId = b\<rparr>"
  define push where "push = \<lparr>env_ConnId = 0, env_Data = mar_ChatResp w resp,
      env_ConnTags = Some (fmupd TagTargetPlayerID (FormatInt b) fmempty)\<rparr>"
  have b: "i64_ok b" "str_ok w (chatreq_Content req)"
    using wire_codec.unm_ChatReq_valid [OF assms(1,5)] assms(6) by auto
  have sent: "ForwardRouter_Handle w rnd now' ca ia (msg_number CHAT_REQ) body ga = Some [Sent chat (msg_number CHAT_REQ) (mar_Envelope w env)]"
    using forward_sends [OF assms(10-13)] by (simp add: env_def)
  have "unm_Envelope w (mar_Envelope w env) = Some env"
    using forwarded_read [OF assms(1,3)] assms(2) by (simp add: env_def)
  from ChatRouter_cases(1) [OF this, of req] assms(5-8)
  have "ChatRouter_Handle w ps conns now c (mar_Envelope w env) =
      ToPlayer w ps conns (msg_number CHAT_RESP) b (mar_ChatResp w resp) @ ToConn w (msg_number CHAT_RESP) ia (mar_ChatResp w resp) c"
    by (simp add: env_def resp_def mget_def parse_int_FormatInt)
  then have routed: "Sent g (msg_number CHAT_RESP) (mar_Envelope w push) \<in> set (ChatRouter_Handle w ps conns now c (mar_Envelope w env))"
    using assms(14,15) by (simp add: ToPlayer_def sendToAll_eq push_def)
  have "unm_Envelope w (mar_Envelope w push) = Some push"
    using target_read [OF assms(1,4)] assms(2) by (simp add: push_def)
  then have shown: "ResponseRouter_Handle w rs order (msg_number CHAT_RESP) (mar_Envelope w push) gb =
      (gb, [Sent cb (msg_number CHAT_RESP) (mar_ChatResp w resp)])"
    using assms(16,17) b by (simp add: ResponseRouter_Handle_def push_def mget_def parse_int_FormatInt)
  have "unm_ChatResp w (mar_ChatResp w resp) = Some resp"
    using wire_codec.ChatResp_roundtrip [OF assms(1), of resp] assms(8,9) b by (simp add: resp_def)
  moreover from this have "ChatRespRouter_Handle w (mar_ChatResp w resp) = Some (if a = -1 then ''[Error] '' @ chatreq_Content req
      else ''[Private] '' @ FormatInt a @ '' -> '' @ FormatInt b @ '': '' @ chatreq_Content req)"
    using assms(7) by (simp add: ChatRespRouter_Handle_def resp_def)
  ultimately show ?thesis
    using sent routed shown unfolding resp_def by blast
qed

section \<open>Sessions across gateways\<close>

lemma session_ref_read:
  "wire_codec w \<Longrightarrow> i64_ok pid \<Longrightarrow> str_ok w gid \<Longrightarrow> unm_SessionData w (session_ref w pid gid) =
     Some \<lparr>sd_PlayerId = pid, sd_GatewayId = gid, sd_ConnTags = None, sd_DisconnectedAt = 0\<rparr>"
  by (simp add: session_ref_def wire_codec.SessionData_roundtrip)

lemma get_reply:
  assumes "wire_codec w" "sessions_valid w (ss_sessions st)" "fmlookup (ss_sessions st) pid = Some s" "i64_ok pid"
  shows "\<exists>reply. handleGet w c (session_ref w pid '''') st = [Sent c (msg_number SESSION_GET) reply] \<and>
    unm_SessionData w reply = Some \<lparr>sd_PlayerId = pid, sd_GatewayId = s_GatewayID s, sd_ConnTags = s_ConnTags s,
      sd_DisconnectedAt = s_DisconnectedAt s\<rparr>"
proof -
  have s: "session_valid w s" "session_norm s"
    using assms(2,3) session_valid_lookup sessions_valid_wf sessions_wf_lookup by blast+
  have read: "unm_SessionData w (session_ref w pid '''') =
      Some \<lparr>sd_PlayerId = pid, sd_GatewayId = '''', sd_ConnTags = None, sd_DisconnectedAt = 0\<rparr>"
    by (rule session_ref_read [OF assms(1,4) wire_codec.str_ok_nil [OF assms(1)]])
  have "mnorm (s_ConnTags s) = s_ConnTags s"
    using s(2) by (auto simp: session_norm_def mnorm_def mempty_def split: option.splits)
  then show ?thesis
    using s(1) assms(3,4) read
    by (auto simp: handleGet_def Let_def session_valid_def wire_codec.SessionData_roundtrip [OF assms(1)])
qed

text \<open>A gateway as it is once DialSessionSvr has connected it to the session service.\<close>

definition reaches_sessions :: "GatewayServer \<Rightarrow> bool" where
  "reaches_sessions gw \<longleftrightarrow> sessions_up (gw_reg gw)"

lemma reaches_sessions_route:
  assumes "reaches_sessions gw"
  obtains c where "\<And>rs g. gw_reg g = gw_reg gw \<Longrightarrow> to_session rs pid g = Some c"
proof -
  obtain p where p: "RegistryPool (gw_reg gw) SvcSessionSvr = Some p" "pool_routeFn p = ByHash" "\<exists>e\<in>set (pool_conns p). live e"
    using assms by (auto simp: reaches_sessions_def sessions_up_def)
  then obtain c where "HashRoute (FormatInt pid) (HealthyConns p) = Some c"
    using hash.routes_iff [of "FormatInt pid" p] by blast
  then have "gw_reg g = gw_reg gw \<Longrightarrow> to_session rs pid g = Some c" for rs g
    using p(1,2) by (simp add: to_session_def gw_RouteTo_def RouteTo_def RegistryPool_def Route_def apply_route_def)
  then show thesis by (rule that)
qed

text \<open>What a player who is admitted at a gateway makes it send, and where the player is then.\<close>

lemma admitted:
  assumes "fmlookup (gw_pendingAuths gw) addr = Some pid" "reaches_sessions gw" "OnConnStart w rs ch addr c i gw = (gw', out, stopped, waits)"
  shows "map sent_body out = [session_ref w pid ''''] \<and> gw_reg gw' = gw_reg gw \<and> gw_conns gw' = gw_conns gw \<and> gw_ID gw' = gw_ID gw \<and>
    gw_props gw' = SetProperty c PropPlayerID (PInt pid) (gw_props gw) \<and> fmlookup (gw_PlayerConns gw') pid = Some i \<and>
    fmlookup (gw_pendingSessionGets gw') pid = Some ch"
proof -
  obtain s where "\<And>rs g. gw_reg g = gw_reg gw \<Longrightarrow> to_session rs pid g = Some s"
    using reaches_sessions_route [OF assms(2)] by blast
  then show ?thesis
    using assms(1,3) by (auto simp: OnConnStart_def CheckReconnect_def Let_def)
qed

text \<open>The report of the gateway that a session is at, handled by the session service.\<close>

lemma reported_stop:
  assumes "wire_codec w" "sessions_valid w (ss_sessions st)" "fmlookup (ss_sessions st) pid = Some s"
    and "s_ConnTags s = Some tags" "i64_ok (se_now ev)" "st1 = handleDisconnect w j ev (session_ref w pid (s_GatewayID s)) st"
  shows "fmlookup (ss_sessions st1) pid = Some (s\<lparr>s_DisconnectedAt := se_now ev\<rparr>) \<and> sessions_valid w (ss_sessions st1)"
proof -
  have s: "session_valid w s" "s_PlayerID s = pid" "i64_ok pid" "s_ConnTags s \<noteq> Some fmempty" "str_ok w (s_GatewayID s)"
    using session_valid_lookup [OF assms(2,3)] sessions_wf_lookup [OF sessions_valid_wf [OF assms(2)] assms(3)]
    by (auto simp: session_valid_def session_norm_def)
  have st1: "ss_sessions st1 = fmupd pid (s\<lparr>s_DisconnectedAt := se_now ev\<rparr>) (ss_sessions st)"
    using session_ref_read [OF assms(1) s(3,5)] assms(3,4,6)
    by (cases s) (auto simp: handleDisconnect_def Let_def load_or_new_def)
  have "sessions_valid w (ss_sessions st1)"
    unfolding st1 using s assms(2,5) by (intro sessions_valid_new) (auto simp: session_valid_def)
  then show ?thesis by (simp add: st1)
qed

text \<open>
  C2: A player who loses the connection and comes back through another gateway finds the
  session again. The first gateway reports the stop, the second one asks for the session
  and gets an answer that wakes the waiting connection; the connection then has all tags
  of the session as properties, and after the confirmation that the second gateway sends
  the session is connected there, with its tags.
\<close>

theorem session_follows_player:
  assumes "wire_codec w" "sessions_valid w (ss_sessions st)" "fmlookup (ss_sessions st) pid = Some s"
    and "s_GatewayID s = gw_ID g1" "s_ConnTags s = Some tags" "se_now ev \<noteq> 0" "i64_ok (se_now ev)" "str_ok w (gw_ID g2)"
    and "GetProperty (gw_props g1) c1 PropPlayerID = Some (PInt pid)" "reaches_sessions g1"
    and "OnConnStop w r1 now c1 g1 = (g1', out1)"
    and "fmlookup (gw_pendingAuths g2) addr = Some pid" "fmlookup (gw_conns g2) i2 = Some c2" "reaches_sessions g2"
    and "OnConnStart w r2 ch addr c2 i2 g2 = (g2', out2, stopped, waits)"
  shows "\<exists>leave ask reply cfm st1 g3 out3.
    map sent_body out1 = [leave] \<and> handleDisconnect w j ev leave st = st1 \<and>
    map sent_body out2 = [ask] \<and> map sent_body (handleGet w c ask st1) = [reply] \<and>
    HandleSessionGet w r2 rr reply g2' = (g3, out3, Some ch) \<and>
    (\<forall>k. GetProperty (gw_props g3) c2 k = (case fmlookup tags k of Some v \<Rightarrow> Some (PStr v) | None \<Rightarrow> GetProperty (gw_props g2') c2 k)) \<and>
    cfm \<in> sent_body ` {x \<in> set out3. sent_id x = msg_number SESSION_RECONNECT} \<and>
    fmlookup (ss_sessions (fst (handleReconnect w j ev' server c cfm st1))) pid =
      Some (s\<lparr>s_GatewayID := gw_ID g2, s_DisconnectedAt := 0\<rparr>)"
proof -
  have s: "session_valid w s" "s_PlayerID s = pid" "i64_ok pid"
    using session_valid_lookup [OF assms(2,3)] sessions_wf_lookup [OF sessions_valid_wf [OF assms(2)] assms(3)]
    by (auto simp: session_valid_def)
  obtain q1 where q1: "\<And>rs g. gw_reg g = gw_reg g1 \<Longrightarrow> to_session rs pid g = Some q1"
    using reaches_sessions_route [OF assms(10)] by blast
  obtain q2 where q2: "\<And>rs g. gw_reg g = gw_reg g2 \<Longrightarrow> to_session rs pid g = Some q2"
    using reaches_sessions_route [OF assms(14)] by blast
  let ?leave = "session_ref w pid (gw_ID g1)" and ?cfm = "session_ref w pid (gw_ID g2)"
  let ?st1 = "handleDisconnect w j ev ?leave st"
  have out1: "map sent_body out1 = [?leave]"
    using assms(9,11) q1 by (auto simp: OnConnStop_def MarkDisconnected_def)
  have away: "fmlookup (ss_sessions ?st1) pid = Some (s\<lparr>s_DisconnectedAt := se_now ev\<rparr>)"
    and valid1: "sessions_valid w (ss_sessions ?st1)"
    using reported_stop [OF assms(1-3,5,7) refl] assms(4) by simp_all
  obtain reply where reply: "map sent_body (handleGet w c (session_ref w pid '''') ?st1) = [reply]"
      "unm_SessionData w reply = Some \<lparr>sd_PlayerId = pid, sd_GatewayId = gw_ID g1, sd_ConnTags = Some tags, sd_DisconnectedAt = se_now ev\<rparr>"
    using get_reply [OF assms(1) valid1 away s(3), of c] assms(4,5) by auto
  note in2 = admitted [OF assms(12,14,15)]
  obtain g3 out3 where run: "HandleSessionGet w r2 rr reply g2' = (g3, out3, Some ch)"
      "gw_props g3 = set_tags c2 (Some tags) (gw_props g2')" "Sent q2 (msg_number SESSION_RECONNECT) ?cfm \<in> set out3"
    using reply(2) in2 assms(6,13) q2 by (simp add: HandleSessionGet_def Let_def)
  have kept: "fmlookup (ss_sessions (fst (handleReconnect w j ev' server c ?cfm ?st1))) pid = Some (s\<lparr>s_GatewayID := gw_ID g2, s_DisconnectedAt := 0\<rparr>)"
    using session_ref_read [OF assms(1) s(3) assms(8)] away by (simp add: handleReconnect_def Let_def mempty_def)
  have tags: "\<forall>k. GetProperty (gw_props g3) c2 k = (case fmlookup tags k of Some v \<Rightarrow> Some (PStr v) | None \<Rightarrow> GetProperty (gw_props g2') c2 k)"
    by (simp add: run(2) GetProperty_set_tags mhas_def mget_def split: option.split)
  have confirm: "?cfm \<in> sent_body ` {x \<in> set out3. sent_id x = msg_number SESSION_RECONNECT}"
    using run(3) by force
  show ?thesis
    by (rule exI [of _ ?leave], rule exI [of _ "session_ref w pid ''''"], rule exI [of _ reply], rule exI [of _ ?cfm],
        rule exI [of _ ?st1], rule exI [of _ g3], rule exI [of _ out3])
      (simp only: out1 in2 reply(1) run(1) tags confirm kept, simp)
qed

text \<open>
  C36: A player who comes back while the session still counts as connected at another gateway
  loses the tags of the session. The answer says connected, so the new gateway saves the
  tags of the new connection, which has none: the session is then at the new gateway and
  has no tags, so that neither match nor room server of the player are known any more.
\<close>

theorem early_return_loses_tags:
  assumes "wire_codec w" "sessions_valid w (ss_sessions st)" "fmlookup (ss_sessions st) pid = Some s" "s_DisconnectedAt s = 0"
    and "str_ok w (gw_ID g2)" "fmlookup (gw_pendingAuths g2) addr = Some pid" "fmlookup (gw_conns g2) i2 = Some c2" "reaches_sessions g2"
    and "\<forall>k. GetProperty (gw_props g2) c2 k = None"
    and "OnConnStart w r2 ch addr c2 i2 g2 = (g2', out2, stopped, waits)"
  shows "\<exists>ask reply save g3 out3.
    map sent_body out2 = [ask] \<and> map sent_body (handleGet w c ask st) = [reply] \<and>
    HandleSessionGet w r2 rr reply g2' = (g3, out3, Some ch) \<and>
    map sent_id out3 = [msg_number SESSION_SAVE] \<and> map sent_body out3 = [save] \<and>
    fmlookup (ss_sessions (handleSave w j ev save st)) pid = Some (s\<lparr>s_GatewayID := gw_ID g2, s_ConnTags := None\<rparr>)"
proof -
  have s: "s_PlayerID s = pid" "i64_ok pid"
    using session_valid_lookup [OF assms(2,3)] sessions_wf_lookup [OF sessions_valid_wf [OF assms(2)] assms(3)]
    by (auto simp: session_valid_def)
  obtain q2 where q2: "\<And>rs g. gw_reg g = gw_reg g2 \<Longrightarrow> to_session rs pid g = Some q2"
    using reaches_sessions_route [OF assms(8)] by blast
  note in2 = admitted [OF assms(6,8,10)]
  obtain reply where reply: "map sent_body (handleGet w c (session_ref w pid '''') st) = [reply]"
      "unm_SessionData w reply = Some \<lparr>sd_PlayerId = pid, sd_GatewayId = s_GatewayID s, sd_ConnTags = s_ConnTags s, sd_DisconnectedAt = 0\<rparr>"
    using get_reply [OF assms(1-3) s(2), of c] assms(4) by auto
  have none: "collectTags (gw_props g2') c2 = Some fmempty"
    using in2 assms(9) by (simp add: collectTags_def SyncTagKeys_def key_defs)
  let ?d = "\<lparr>sd_PlayerId = pid, sd_GatewayId = gw_ID g2, sd_ConnTags = Some fmempty, sd_DisconnectedAt = 0\<rparr>"
  have run: "\<exists>g3. HandleSessionGet w r2 rr reply g2' = (g3, [Sent q2 (msg_number SESSION_SAVE) (mar_SessionData w ?d)], Some ch)"
    using reply(2) in2 assms(7) q2 none by (simp add: HandleSessionGet_def Let_def)
  have "unm_SessionData w (mar_SessionData w ?d) = Some (?d\<lparr>sd_ConnTags := None\<rparr>)"
    using wire_codec.SessionData_roundtrip [OF assms(1), of ?d] s(2) assms(5) by (simp add: mnorm_def mempty_def)
  then have "fmlookup (ss_sessions (handleSave w j ev (mar_SessionData w ?d) st)) pid = Some (s\<lparr>s_GatewayID := gw_ID g2, s_ConnTags := None\<rparr>)"
    using assms(3,4) by (cases s) (simp add: handleSave_def save_session_def load_or_new_def)
  then show ?thesis
    using in2 reply(1) run by fastforce
qed

text \<open>
  A disconnect that waits for the session service outlives the return of the player. When
  the player leaves and returns while the gateway has no live connection to the session
  service, the queued disconnect stays in the queue; the retry that follows reports the
  connected player as gone, and the session service starts the time to live of the session.
\<close>

theorem stale_disconnect_sent:
  assumes "wire_codec w" "sessions_valid w (ss_sessions st)" "fmlookup (ss_sessions st) pid = Some s"
    and "s_GatewayID s = gw_ID gw" "s_ConnTags s = Some tags" "i64_ok (se_now ev)"
    and "sessions_down (gw_reg gw)" "GetProperty (gw_props gw) c1 PropPlayerID = Some (PInt pid)"
    and "OnConnStop w r1 now c1 gw = (gw1, out1)" "fmlookup (gw_pendingAuths gw1) addr = Some pid"
    and "OnConnStart w r2 ch addr c2 i2 gw1 = (gw2, out2, stopped, waits)"
    and "sessions_up reg" "set ids = fset (fmdom (gw_pendingDisconnects gw2))" "distinct ids"
    and "retryDisconnectLoop w [(reg, rs, ids)] gw2 = (gw3, out3)"
  shows "fmlookup (gw_PlayerConns gw2) pid = Some i2 \<and> (\<exists>report. report \<in> sent_body ` set out3 \<and>
    fmlookup (ss_sessions (handleDisconnect w j ev report st)) pid = Some (s\<lparr>s_DisconnectedAt := se_now ev\<rparr>))"
proof -
  have none: "to_session r p g = None" if "gw_reg g = gw_reg gw" for r p g
    using assms(7) that by (intro to_session_down) simp
  have gw1: "gw1 = gw\<lparr>gw_PlayerConns := fmdrop pid (gw_PlayerConns gw), gw_pendingDisconnects := fmupd pid now (gw_pendingDisconnects gw)\<rparr>"
    using assms(8,9) none by (simp add: OnConnStop_def MarkDisconnected_def)
  have gw2: "fmlookup (gw_PlayerConns gw2) pid = Some i2" "pid |\<in>| fmdom (gw_pendingDisconnects gw2)" "gw_ID gw2 = gw_ID gw"
    using assms(10,11) none unfolding gw1 by (auto simp: OnConnStart_def CheckReconnect_def Let_def)
  have "map sent_body out3 = map (\<lambda>p. session_ref w p (gw_ID gw2)) ids"
    using queued_retry [OF _ assms(12-14), of "[]" w rs "[]" gw3 out3] assms(15) by simp
  then have "session_ref w pid (gw_ID gw) \<in> set (map sent_body out3)"
    using gw2(2,3) assms(13) by auto
  moreover have "fmlookup (ss_sessions (handleDisconnect w j ev (session_ref w pid (gw_ID gw)) st)) pid = Some (s\<lparr>s_DisconnectedAt := se_now ev\<rparr>)"
    using reported_stop [OF assms(1-3,5,6) refl] assms(4) by simp
  ultimately show ?thesis
    using gw2(1) by auto
qed

section \<open>Rooms and matches\<close>

text \<open>
  When the last member leaves a room, the match service forgets the match: the room is
  deleted, and the message that the room service sends to the match service makes it drop
  the match from its directory and count one match less on the server of the room.
\<close>

theorem emptied_room_frees_match:
  assumes "wire_codec w" "str_ok w m" "unm_RoomLeaveReq w (env_Data env) = Some \<lparr>leavereq_MatchId = m\<rparr>"
    and "fmlookup rs m = Some [p]" "rp_playerID p = mget (env_ConnTags env) TagPlayerID"
    and "re_reg re = Some reg" "RouteTo (re_rnd re) (re_props re) reg SvcMatchSvr m = Some mc"
    and "handleLeave w re env c rs = (rs', out)"
    and "match_reach w st" "fmlookup (activeMatches st) m = Some d" "load_of (loadCounts st) (md_ServerID d) \<le> i64_max"
  shows "rs' = fmdrop m rs \<and> (\<exists>body. Sent mc (msg_number ROOM_DESTROYED_PUSH) body \<in> set out \<and>
    (\<forall>cfg nano c' st'. st' = fst (MatchRouter_Handle w cfg nano c' (msg_number ROOM_DESTROYED_PUSH) body st) \<longrightarrow>
      activeMatches st' = fmdrop m (activeMatches st) \<and>
      load_of (loadCounts st') (md_ServerID d) = load_of (loadCounts st) (md_ServerID d) - 1))"
proof -
  let ?env = "\<lparr>env_ConnId = 0, env_Data = mar_RoomDestroyedPush w \<lparr>destroyed_MatchId = m\<rparr>, env_ConnTags = None\<rparr>"
  have read: "unm_Envelope w (mar_Envelope w ?env) = Some ?env"
      "unm_RoomDestroyedPush w (env_Data ?env) = Some \<lparr>destroyed_MatchId = m\<rparr>"
    using wire_codec.Envelope_roundtrip [OF assms(1), of ?env] wire_codec.RoomDestroyedPush_roundtrip [OF assms(1)] assms(2)
    by (simp_all add: mnorm_def mempty_def)
  have "rs' = fmdrop m rs" "Sent mc (msg_number ROOM_DESTROYED_PUSH) (mar_Envelope w ?env) \<in> set out"
    using assms(3-8) by (auto simp: handleLeave_def remove_player_def Let_def notifyMatchSvr_def)
  then show ?thesis
    using destroyed_frees [OF read assms(9-11)] by blast
qed

text \<open>
  C37: A client can end a match of other players. The match service announces the number of
  the room-destroyed message among the numbers it takes from clients, so a gateway
  forwards it for any authenticated client, and the match service drops the match that the
  client names.
\<close>

theorem client_ends_match:
  assumes "matchsvr_main y file msID = Inr ms"
    and "wire_codec w" "str_ok w TagPlayerID" "str_ok w (FormatInt pid)"
    and "RouteFor gw (msg_number ROOM_DESTROYED_PUSH) = Some route" "resolveRouteKey gw c connID route \<noteq> ''''"
    and "GetProperty (gw_props gw) c PropPlayerID = Some (PInt pid)"
    and "gw_RouteTo rnd gw (bri_Backend route) (resolveRouteKey gw c connID route) = Some mc"
    and "unm_RoomDestroyedPush w body = Some \<lparr>destroyed_MatchId = m\<rparr>"
    and "match_reach w st" "fmlookup (activeMatches st) m = Some d" "load_of (loadCounts st) (md_ServerID d) \<le> i64_max"
  shows "msg_number ROOM_DESTROYED_PUSH \<in> set (sir_ForwardMsgIDs (bs_identity ms)) \<and>
    (\<exists>sealed. ForwardRouter_Handle w rnd now c connID (msg_number ROOM_DESTROYED_PUSH) body gw =
       Some [Sent mc (msg_number ROOM_DESTROYED_PUSH) sealed] \<and>
     (\<forall>cfg nano c'. fmlookup (activeMatches (fst (MatchRouter_Handle w cfg nano c' (msg_number ROOM_DESTROYED_PUSH) sealed st))) m = None))"
proof -
  have "msg_number ROOM_DESTROYED_PUSH \<in> set (sir_ForwardMsgIDs (bs_identity ms))"
    using assms(1) by (auto simp: main_defs split: sum.splits prod.splits)
  moreover have "fmlookup (activeMatches (fst (MatchRouter_Handle w cfg nano c' (msg_number ROOM_DESTROYED_PUSH)
      (mar_Envelope w \<lparr>env_ConnId = connID, env_Data = body, env_ConnTags = Some (fmupd TagPlayerID (FormatInt pid) fmempty)\<rparr>) st))) m = None"
    for cfg nano c'
    using destroyed_frees [OF forwarded_read [OF assms(2-4)] _ assms(10-12) refl, of connID body cfg nano c'] assms(9) by simp
  ultimately show ?thesis
    using forward_sends [OF assms(5-8), of w now body] by auto
qed

section \<open>Witnesses\<close>

lemma pb_tags: "str_ok pb_wire TagTargetPlayerID" "str_ok pb_wire TagMatchID" "str_ok pb_wire ''m''" "str_ok pb_wire ''g''" "str_ok pb_wire ''h''"
  by (simp_all add: pb_str_ok utf8_ok_def key_defs)

definition chat_text :: ChatReq where
  "chat_text = \<lparr>chatreq_Content = ''hi'', chatreq_TargetPlayerId = 8\<rparr>"

theorem private_chat_arrives_witness:
  "\<exists>sealed pushed shown.
    ForwardRouter_Handle pb_wire 0 0 10 3 5 (mar_ChatReq pb_wire chat_text) sample_gateway = Some [Sent 1 5 sealed] \<and>
    Sent 2 6 pushed \<in> set (ChatRouter_Handle pb_wire (SetProperty 2 PropConnType (PStr SvcGateway) fmempty) [2] 9 1 sealed) \<and>
    ResponseRouter_Handle pb_wire 0 [] 6 pushed (sample_gateway\<lparr>gw_PlayerConns := fmupd 8 3 fmempty\<rparr>) =
      (sample_gateway\<lparr>gw_PlayerConns := fmupd 8 3 fmempty\<rparr>, [Sent 10 6 shown]) \<and>
    unm_ChatResp pb_wire shown = Some \<lparr>chatresp_SenderPlayerId = 7, chatresp_Content = ''hi'', chatresp_Timestamp = 9, chatresp_TargetPlayerId = 8\<rparr>"
proof -
  let ?gb = "sample_gateway\<lparr>gw_PlayerConns := fmupd 8 3 fmempty\<rparr>" and ?ps = "SetProperty 2 PropConnType (PStr SvcGateway) fmempty"
  have num: "i64_ok 7" "i64_ok 8" "i64_ok 9"
    by (simp_all add: i64_ok_def i64_min_def i64_max_def)
  have req: "unm_ChatReq pb_wire (mar_ChatReq pb_wire chat_text) = Some chat_text"
    using pb.ChatReq_roundtrip [of chat_text] num by (simp add: chat_text_def pb_str_ok utf8_ok_def)
  have at: "RouteFor sample_gateway (msg_number CHAT_REQ) = Some chat_info" "resolveRouteKey sample_gateway 10 3 chat_info \<noteq> ''''"
      "GetProperty (gw_props sample_gateway) 10 PropPlayerID = Some (PInt 7)"
      "gw_RouteTo 0 sample_gateway (bri_Backend chat_info) (resolveRouteKey sample_gateway 10 3 chat_info) = Some 1"
    by (simp_all add: RouteFor_def sample_gateway_def resolveRouteKey_def chat_info_def PropPlayerID_def gw_RouteTo_def RouteTo_def
        Route_def sample_pool_def apply_route_def HashRoute_def HealthyConns_def live_def new_entry_def)
  have to: "2 \<in> set [2]" "is_gateway ?ps 2" "fmlookup (gw_PlayerConns ?gb) 8 = Some 3" "fmlookup (gw_conns ?gb) 3 = Some 10"
    by (simp_all add: is_gateway_def sample_gateway_def)
  show ?thesis
    using private_chat_arrives [OF pb.wire_codec_axioms _ pb_player_tag(1) pb_tags(1) req _ _ num(1,3) at to, of 0 1 0 "[]"]
      pb_player_tag(2) by (auto simp: chat_text_def)
qed

definition tagged :: Session where
  "tagged = \<lparr>s_PlayerID = 7, s_GatewayID = ''g'', s_ConnTags = Some (fmupd TagMatchID ''m'' fmempty), s_DisconnectedAt = 0\<rparr>"

definition tagged_state :: sess_state where
  "tagged_state = (fresh_state empty_disk)\<lparr>ss_sessions := fmupd 7 tagged fmempty\<rparr>"

definition second_gateway :: GatewayServer where
  "second_gateway = (with_sessions sample_gateway)\<lparr>gw_ID := ''h'', gw_pendingAuths := fmupd ''a:1'' 7 fmempty,
     gw_conns := fmupd 4 12 fmempty, gw_props := fmempty\<rparr>"

lemma tagged_valid: "sessions_valid pb_wire (ss_sessions tagged_state)" "fmlookup (ss_sessions tagged_state) 7 = Some tagged"
proof -
  have "tags_ok pb_wire (s_ConnTags tagged)"
    by (simp add: tagged_def tags_ok_upd pb_tags)
  then have "session_valid pb_wire tagged"
    by (simp add: session_valid_def tagged_def pb_tags i64_ok_def i64_min_def i64_max_def)
  moreover have "s_PlayerID tagged = 7" "s_ConnTags tagged \<noteq> Some fmempty" "sessions_valid pb_wire fmempty"
    by (simp_all add: tagged_def sessions_valid_def)
  ultimately show "sessions_valid pb_wire (ss_sessions tagged_state)"
    by (simp add: tagged_state_def sessions_valid_new)
  show "fmlookup (ss_sessions tagged_state) 7 = Some tagged"
    by (simp add: tagged_state_def)
qed

lemma with_sessions_reach: "reaches_sessions (with_sessions gw)" "reaches_sessions second_gateway"
  using with_sessions_pool
  by (auto simp: reaches_sessions_def sessions_up_def second_gateway_def sample_pool_def new_entry_def live_def RegistryPool_def)

theorem session_follows_player_witness:
  "\<exists>cfm st1. fmlookup (ss_sessions (fst (handleReconnect pb_wire go_json sample_env None 1 cfm st1))) 7 =
     Some (tagged\<lparr>s_GatewayID := ''h''\<rparr>)"
proof -
  obtain g1' out1 where stop: "OnConnStop pb_wire 0 5 10 (with_sessions sample_gateway) = (g1', out1)"
    by fastforce
  obtain g2' out2 stopped waits where start: "OnConnStart pb_wire 0 99 ''a:1'' 12 4 second_gateway = (g2', out2, stopped, waits)"
    by (metis prod_cases4)
  have env: "se_now sample_env \<noteq> 0" "i64_ok (se_now sample_env)"
    by (simp_all add: sample_env_def i64_ok_def i64_min_def i64_max_def)
  have ids: "s_GatewayID tagged = gw_ID (with_sessions sample_gateway)" "s_ConnTags tagged = Some (fmupd TagMatchID ''m'' fmempty)"
      "str_ok pb_wire (gw_ID second_gateway)" "GetProperty (gw_props (with_sessions sample_gateway)) 10 PropPlayerID = Some (PInt 7)"
      "fmlookup (gw_pendingAuths second_gateway) ''a:1'' = Some 7" "fmlookup (gw_conns second_gateway) 4 = Some 12"
    by (simp_all add: tagged_def with_sessions_def sample_gateway_def second_gateway_def pb_tags)
  from session_follows_player [OF pb.wire_codec_axioms tagged_valid ids(1,2) env ids(3,4) with_sessions_reach(1) stop ids(5,6)
      with_sessions_reach(2) start, of go_json 1 0 sample_env None]
  show ?thesis
    by (auto simp: second_gateway_def tagged_def)
qed

theorem early_return_loses_tags_witness:
  "\<exists>save. fmlookup (ss_sessions (handleSave pb_wire go_json sample_env save tagged_state)) 7 =
     Some (tagged\<lparr>s_GatewayID := ''h'', s_ConnTags := None\<rparr>)"
proof -
  obtain g2' out2 stopped waits where start: "OnConnStart pb_wire 0 99 ''a:1'' 12 4 second_gateway = (g2', out2, stopped, waits)"
    by (metis prod_cases4)
  have ids: "s_DisconnectedAt tagged = 0" "str_ok pb_wire (gw_ID second_gateway)"
      "fmlookup (gw_pendingAuths second_gateway) ''a:1'' = Some 7" "fmlookup (gw_conns second_gateway) 4 = Some 12"
      "\<forall>k. GetProperty (gw_props second_gateway) 12 k = None"
    by (simp_all add: tagged_def second_gateway_def pb_tags)
  from early_return_loses_tags [OF pb.wire_codec_axioms tagged_valid ids(1-4) with_sessions_reach(2) ids(5) start, of 1 0 go_json sample_env]
  show ?thesis
    by (auto simp: second_gateway_def)
qed

theorem stale_disconnect_sent_witness:
  "\<exists>(gw2 :: GatewayServer) report. fmlookup (gw_PlayerConns gw2) 7 = Some 4 \<and>
     fmlookup (ss_sessions (handleDisconnect pb_wire go_json sample_env report tagged_state)) 7 = Some (tagged\<lparr>s_DisconnectedAt := 100\<rparr>)"
proof -
  let ?gw = "sample_gateway\<lparr>gw_pendingAuths := fmupd ''a:1'' 7 fmempty, gw_reg := NewRegistry SvcGateway\<rparr>"
    and ?reg = "gw_reg (with_sessions sample_gateway)"
  obtain gw1 out1 where stop: "OnConnStop pb_wire 0 5 10 ?gw = (gw1, out1)"
    by fastforce
  obtain gw2 out2 stopped waits where start: "OnConnStart pb_wire 0 99 ''a:1'' 12 4 gw1 = (gw2, out2, stopped, waits)"
    by (metis prod_cases4)
  have down: "sessions_down (gw_reg ?gw)" and up: "sessions_up ?reg"
    using with_sessions_reach(1) [of sample_gateway] by (simp_all add: sessions_down_def NewRegistry_def RegistryPool_def reaches_sessions_def)
  have at: "s_GatewayID tagged = gw_ID ?gw" "s_ConnTags tagged = Some (fmupd TagMatchID ''m'' fmempty)" "i64_ok (se_now sample_env)"
      "GetProperty (gw_props ?gw) 10 PropPlayerID = Some (PInt 7)"
    by (simp_all add: tagged_def sample_gateway_def sample_env_def i64_ok_def i64_min_def i64_max_def)
  have "\<forall>r p g. gw_reg g = gw_reg ?gw \<longrightarrow> to_session r p g = None"
    using down by (simp add: to_session_down)
  then have auth: "fmlookup (gw_pendingAuths gw1) ''a:1'' = Some 7"
    using stop at(4) by (auto simp: OnConnStop_def MarkDisconnected_def)
  obtain ids where ids: "set ids = fset (fmdom (gw_pendingDisconnects gw2))" "distinct ids"
    using finite_distinct_list [OF finite_fset [of "fmdom (gw_pendingDisconnects gw2)"]] by blast
  obtain gw3 out3 where retry: "retryDisconnectLoop pb_wire [(?reg, 0, ids)] gw2 = (gw3, out3)"
    by fastforce
  obtain report where "fmlookup (gw_PlayerConns gw2) 7 = Some 4"
      "fmlookup (ss_sessions (handleDisconnect pb_wire go_json sample_env report tagged_state)) 7 = Some (tagged\<lparr>s_DisconnectedAt := se_now sample_env\<rparr>)"
    using stale_disconnect_sent [OF pb.wire_codec_axioms tagged_valid at(1-3) down at(4) stop auth start up ids retry, of go_json] by blast
  moreover have "se_now sample_env = 100"
    by (simp add: sample_env_def)
  ultimately show ?thesis
    by (intro exI [of _ gw2] exI [of _ report]) simp
qed

theorem emptied_room_frees_match_witness:
  "\<exists>rs' out body. handleLeave pb_wire \<lparr>re_reg = Some \<lparr>reg_backends = fmupd SvcMatchSvr sample_pool fmempty, reg_identity = SvcRoomSvr\<rparr>,
       re_props = fmempty, re_rnd = 0\<rparr> (leave_msg ''7'' 11) 1 one_member = (rs', out) \<and> Sent 1 22 body \<in> set out \<and>
     fmlookup (activeMatches (fst (MatchRouter_Handle pb_wire match_cfg 6 1 22 body allocated))) ''m'' = None"
proof -
  let ?reg = "\<lparr>reg_backends = fmupd SvcMatchSvr sample_pool fmempty, reg_identity = SvcRoomSvr\<rparr>"
  let ?re = "\<lparr>re_reg = Some ?reg, re_props = fmempty, re_rnd = 0\<rparr>"
  obtain rs' out where run: "handleLeave pb_wire ?re (leave_msg ''7'' 11) 1 one_member = (rs', out)"
    by fastforce
  obtain d where d: "fmlookup (activeMatches allocated) ''m'' = Some d" "load_of (loadCounts allocated) (md_ServerID d) \<le> i64_max"
    using allocated_match(2) by blast
  have "RouteTo (re_rnd ?re) (re_props ?re) ?reg SvcMatchSvr ''m'' = Some 1"
    by (simp add: RouteTo_def Route_def sample_pool_def apply_route_def HashRoute_def HealthyConns_def live_def new_entry_def)
  from emptied_room_frees_match [OF pb.wire_codec_axioms pb_tags(3) room_msgs_read(2) _ _ _ this run allocated_match(1) d,
      of "\<lparr>rp_playerID = ''7'', rp_conn = 1, rp_senderID = 11\<rparr>"]
  obtain body where "Sent 1 22 body \<in> set out"
      "activeMatches (fst (MatchRouter_Handle pb_wire match_cfg 6 1 22 body allocated)) = fmdrop ''m'' (activeMatches allocated)"
    by (auto simp: one_member_def room_msgs_read)
  then show ?thesis
    using run by auto
qed

definition match_info :: BackendRouteInfo where
  "match_info = \<lparr>bri_Backend = SvcMatchSvr, bri_RouteKey = ''playerId'', bri_RouteType = ''hash''\<rparr>"

definition match_gateway :: GatewayServer where
  "match_gateway = sample_gateway\<lparr>gw_routes := fmupd 22 match_info fmempty,
     gw_reg := \<lparr>reg_backends = fmupd SvcMatchSvr sample_pool fmempty, reg_identity = SvcGateway\<rparr>\<rparr>"

theorem client_ends_match_witness:
  "\<exists>sealed. ForwardRouter_Handle pb_wire 0 0 10 3 22 (mar_RoomDestroyedPush pb_wire \<lparr>destroyed_MatchId = ''m''\<rparr>)
       match_gateway = Some [Sent 1 22 sealed] \<and>
     fmlookup (activeMatches (fst (MatchRouter_Handle pb_wire match_cfg 6 1 22 sealed allocated))) ''m'' = None"
proof -
  obtain ms where ms: "matchsvr_main one_of_each (Some []) '''' = Inr ms"
    using one_of_each_mains(2) by blast
  obtain d where d: "fmlookup (activeMatches allocated) ''m'' = Some d" "load_of (loadCounts allocated) (md_ServerID d) \<le> i64_max"
    using allocated_match(2) by blast
  have at: "RouteFor match_gateway (msg_number ROOM_DESTROYED_PUSH) = Some match_info" "resolveRouteKey match_gateway 10 3 match_info \<noteq> ''''"
      "GetProperty (gw_props match_gateway) 10 PropPlayerID = Some (PInt 7)"
      "gw_RouteTo 0 match_gateway (bri_Backend match_info) (resolveRouteKey match_gateway 10 3 match_info) = Some 1"
    by (simp_all add: RouteFor_def match_gateway_def sample_gateway_def resolveRouteKey_def match_info_def PropPlayerID_def gw_RouteTo_def RouteTo_def
        Route_def sample_pool_def apply_route_def HashRoute_def HealthyConns_def live_def new_entry_def)
  have "unm_RoomDestroyedPush pb_wire (mar_RoomDestroyedPush pb_wire \<lparr>destroyed_MatchId = ''m''\<rparr>) = Some \<lparr>destroyed_MatchId = ''m''\<rparr>"
    by (rule pb.RoomDestroyedPush_roundtrip) (simp add: pb_tags)
  from client_ends_match [OF ms pb.wire_codec_axioms pb_player_tag at this allocated_match(1) d, of 0]
  show ?thesis by auto
qed

end
